(* ===== verification/C_Prelude.thy ===== *)
theory C_Prelude
  imports Main "HOL-Library.Word" "HOL-Library.Monad_Syntax" "HOL-Library.Char_ord"
begin

text \<open>
  The C and C++ layer the components share: bytes and machine integers with their memory
  images on the little-endian 64-bit hosts the Makefile builds for (\<open>-m64\<close>), bounded signed
  arithmetic, memory blocks read and written with bounds, C strings, decimal printing and
  scanning, and the two transfer loops (read until full, write until sent) with the contracts
  their callers rely on.

  A definition of type \<open>'a option\<close> returns \<open>None\<close> exactly where the C++ code has undefined
  behaviour or dies from an uncaught exception: a copy outside a block, a dereferenced wild
  pointer, a signed overflow, a negative array size.
\<close>

unbundle bit_operations_syntax

named_theorems codec \<open>inverse laws of the integer encodings\<close>
named_theorems frame \<open>what an operation leaves unchanged\<close>
named_theorems safe \<open>operations that reach no undefined behaviour\<close>

type_synonym byte = "8 word"
type_synonym cell = "byte option" \<comment> \<open>\<open>None\<close>: an indeterminate byte of fresh memory\<close>

section \<open>Machine integers and their memory images\<close>

text \<open>The least significant byte first, \<open>n\<close> bytes of the word, and back.\<close>

fun to_le :: "nat \<Rightarrow> 'a::len word \<Rightarrow> byte list" where
  "to_le 0 w = []"
| "to_le (Suc n) w = ucast w # to_le n (drop_bit 8 w)"

fun of_le :: "byte list \<Rightarrow> 'a::len word" where
  "of_le [] = 0"
| "of_le (b # bs) = ucast b OR push_bit 8 (of_le bs)"

text \<open>\<open>htons\<close>, \<open>htonl\<close> and their inverses reverse the memory image on a little-endian host.\<close>

definition bswap :: "nat \<Rightarrow> 'a::len word \<Rightarrow> 'a word" where
  "bswap n w = of_le (rev (to_le n w))"

definition htons :: "16 word \<Rightarrow> 16 word" where "htons = bswap 2"
definition ntohs :: "16 word \<Rightarrow> 16 word" where "ntohs = bswap 2"
definition htonl :: "32 word \<Rightarrow> 32 word" where "htonl = bswap 4"
definition ntohl :: "32 word \<Rightarrow> 32 word" where "ntohl = bswap 4"

lemma length_to_le [simp]: "length (to_le n w) = n"
  by (induction n arbitrary: w) auto

lemma of_le_to_le: "of_le (to_le n w) = take_bit (8 * n) w"
proof (induction n arbitrary: w)
  case 0
  then show ?case by simp
next
  case (Suc n)
  show ?case
    by (rule bit_word_eqI)
      (auto simp: Suc bit_or_iff bit_push_bit_iff bit_take_bit_iff bit_drop_bit_eq
        bit_ucast_iff dest: bit_imp_le_length)
qed

lemma bit_of_le_ge: "bit (of_le bs :: 'a::len word) i \<Longrightarrow> i < 8 * length bs"
proof (induction bs arbitrary: i)
  case Nil
  then show ?case by simp
next
  case (Cons b bs)
  then have "bit b i \<or> (8 \<le> i \<and> bit (of_le bs :: 'a word) (i - 8))"
    by (auto simp: bit_or_iff bit_push_bit_iff bit_ucast_iff)
  then show ?case
    using Cons.IH [of "i - 8"] bit_imp_le_length [of b i] by auto
qed

lemma to_le_of_le:
  "8 * length bs \<le> LENGTH('a::len) \<Longrightarrow> to_le (length bs) (of_le bs :: 'a word) = bs"
proof (induction bs)
  case Nil
  then show ?case by simp
next
  case (Cons b bs)
  have head: "ucast (ucast b OR push_bit 8 (of_le bs) :: 'a word) = b"
    using Cons.prems
    by (intro bit_word_eqI)
      (auto simp: bit_or_iff bit_push_bit_iff bit_ucast_iff)
  have "drop_bit 8 (ucast b OR push_bit 8 (of_le bs) :: 'a word) = of_le bs"
    using Cons.prems
    by (intro bit_word_eqI)
      (auto simp: bit_or_iff bit_push_bit_iff bit_ucast_iff bit_drop_bit_eq
        dest: bit_of_le_ge bit_imp_le_length)
  with head Cons show ?case by simp
qed

lemma to_le_of_le_n:
  "length bs = n \<Longrightarrow> 8 * n \<le> LENGTH('a::len) \<Longrightarrow> to_le n (of_le bs :: 'a word) = bs"
  using to_le_of_le [of bs, where 'a = 'a] by simp

lemma to_le_bswap:
  "8 * n \<le> LENGTH('a::len) \<Longrightarrow> to_le n (bswap n (w :: 'a word)) = rev (to_le n w)"
  by (simp add: bswap_def to_le_of_le_n)

lemma bswap_of_le:
  "length bs = n \<Longrightarrow> 8 * n \<le> LENGTH('a::len) \<Longrightarrow>
     bswap n (of_le bs :: 'a word) = of_le (rev bs)"
  by (simp add: bswap_def to_le_of_le_n)

lemma bswap_bswap [codec]:
  "8 * n = LENGTH('a::len) \<Longrightarrow> bswap n (bswap n (w :: 'a word)) = w"
  by (simp add: bswap_def to_le_of_le_n of_le_to_le)

lemma ntohl_htonl [codec, simp]: "ntohl (htonl w) = w"
  by (simp add: ntohl_def htonl_def bswap_bswap)

lemma ntohs_htons [codec, simp]: "ntohs (htons w) = w"
  by (simp add: ntohs_def htons_def bswap_bswap)

text \<open>Network byte order as a memory image: the most significant byte first.\<close>

abbreviation be32 :: "32 word \<Rightarrow> byte list" where "be32 w \<equiv> rev (to_le 4 w)"
abbreviation be16 :: "16 word \<Rightarrow> byte list" where "be16 w \<equiv> rev (to_le 2 w)"

lemma to_le_htonl: "to_le 4 (htonl w) = be32 w"
  by (simp add: htonl_def to_le_bswap)

lemma to_le_htons: "to_le 2 (htons w) = be16 w"
  by (simp add: htons_def to_le_bswap)

lemma of_le_to_le_full [codec]:
  "8 * n = LENGTH('a::len) \<Longrightarrow> of_le (to_le n (w :: 'a word)) = w"
  by (simp add: of_le_to_le take_bit_word_eq_self)

lemma ntohl_of_be32 [codec]: "ntohl (of_le (be32 w)) = w"
  by (simp add: ntohl_def bswap_of_le of_le_to_le_full)

lemma ntohs_of_be16 [codec]: "ntohs (of_le (be16 w)) = w"
  by (simp add: ntohs_def bswap_of_le of_le_to_le_full)

text \<open>C's \<open>int\<close>: a mathematical integer that must stay in range, and the conversions.\<close>

definition INT_MAX :: int where "INT_MAX = 2 ^ 31 - 1"

definition c_int :: "int \<Rightarrow> int option" where
  "c_int n = (if - (2 ^ 31) \<le> n \<and> n < 2 ^ 31 then Some n else None)"

abbreviation int_range :: "int \<Rightarrow> bool" where
  "int_range n \<equiv> - (2 ^ 31) \<le> n \<and> n < 2 ^ 31"

lemma c_int_Some [simp]: "int_range n \<Longrightarrow> c_int n = Some n"
  by (simp add: c_int_def)

lemma c_int_eq_Some: "c_int n = Some m \<longleftrightarrow> m = n \<and> int_range n"
  by (auto simp: c_int_def)

lemma sint_int_range [simp]: "- (2 ^ 31) \<le> sint (w :: 32 word)" "sint (w :: 32 word) < 2 ^ 31"
  using sint_ge [of w] sint_lt [of w] by auto

lemma sint_word_of_int_32: "int_range n \<Longrightarrow> sint (word_of_int n :: 32 word) = n"
  by transfer (simp add: signed_take_bit_int_eq_self)

section \<open>Memory blocks\<close>

text \<open>
  A block is the list of its elements. \<open>peek\<close> reads and \<open>poke\<close> overwrites a range of it, as
  \<open>memcpy\<close> does; outside the block both are \<open>None\<close>.
\<close>

definition peek :: "int \<Rightarrow> int \<Rightarrow> 'a list \<Rightarrow> 'a list option" where
  "peek off n blk =
     (if 0 \<le> off \<and> 0 \<le> n \<and> off + n \<le> int (length blk)
      then Some (take (nat n) (drop (nat off) blk)) else None)"

definition poke :: "int \<Rightarrow> 'a list \<Rightarrow> 'a list \<Rightarrow> 'a list option" where
  "poke off xs blk =
     (if 0 \<le> off \<and> off + int (length xs) \<le> int (length blk)
      then Some (take (nat off) blk @ xs @ drop (nat off + length xs) blk) else None)"

lemma length_poke: "poke off xs blk = Some blk' \<Longrightarrow> length blk' = length blk"
  by (auto simp: poke_def split: if_splits)

lemma length_peek: "peek off n blk = Some xs \<Longrightarrow> length xs = nat n"
  by (auto simp: peek_def split: if_splits)

lemma peek_all: "n = int (length blk) \<Longrightarrow> peek 0 n blk = Some blk"
  by (simp add: peek_def)

lemma poke_append:
  "off = int (length pre) \<Longrightarrow> length xs = length mid \<Longrightarrow>
     poke off xs (pre @ mid @ post) = Some (pre @ xs @ post)"
  by (simp add: poke_def)

lemma take_poke:
  "poke off xs blk = Some blk' \<Longrightarrow> take (nat off + length xs) blk' = take (nat off) blk @ xs"
proof -
  assume "poke off xs blk = Some blk'"
  then have "nat off + length xs \<le> length blk"
    and "blk' = take (nat off) blk @ xs @ drop (nat off + length xs) blk"
    by (auto simp: poke_def split: if_splits)
  then show ?thesis by simp
qed

lemma peek_poke: "poke off xs blk = Some blk' \<Longrightarrow> peek off (int (length xs)) blk' = Some xs"
  by (auto simp: poke_def peek_def split: if_splits)

lemma poke_SomeI:
  "0 \<le> off \<Longrightarrow> off + int (length xs) \<le> int (length blk) \<Longrightarrow> \<exists>blk'. poke off xs blk = Some blk'"
  by (simp add: poke_def)

text \<open>The bytes of a range that holds no indeterminate byte.\<close>

lemma those_eq_Some_iff: "those xs = Some ys \<longleftrightarrow> xs = map Some ys"
proof (induction xs arbitrary: ys)
  case Nil
  then show ?case by auto
next
  case (Cons x xs)
  then show ?case by (cases x; cases ys) auto
qed

lemma those_map_Some [simp]: "those (map Some xs) = Some xs"
  by (simp add: those_eq_Some_iff)

section \<open>C strings\<close>

text \<open>
  A pointer to characters is a block of \<open>char\<close>; the string it denotes ends before the first
  NUL, and a block without one is read past its end by \<open>strlen\<close> and its kin.
\<close>

abbreviation NUL :: char where "NUL \<equiv> CHR 0x00"

definition c_str :: "char list \<Rightarrow> string option" where
  "c_str blk = (if NUL \<in> set blk then Some (takeWhile (\<lambda>c. c \<noteq> NUL) blk) else None)"

lemma c_str_terminated [simp]: "NUL \<notin> set s \<Longrightarrow> c_str (s @ NUL # rest) = Some s"
  by (induction s) (auto simp: c_str_def)

lemma takeWhile_NUL [simp]: "NUL \<notin> set s \<Longrightarrow> takeWhile (\<lambda>c. c \<noteq> NUL) s = s"
  by (induction s) auto

lemma takeWhile_no_NUL: "NUL \<notin> set (takeWhile (\<lambda>c. c \<noteq> NUL) s)"
  by (auto dest: set_takeWhileD)

lemma c_str_no_NUL: "c_str blk = Some s \<Longrightarrow> NUL \<notin> set s"
  by (auto simp: c_str_def dest: set_takeWhileD split: if_splits)

lemma length_takeWhile_member: "x \<in> set xs \<Longrightarrow> \<not> P x \<Longrightarrow> length (takeWhile P xs) < length xs"
  by (induction xs) auto

lemma c_str_length: "c_str blk = Some s \<Longrightarrow> length s < length blk"
  by (auto simp: c_str_def intro!: length_takeWhile_member split: if_splits)

text \<open>Characters as the bytes that go on the wire.\<close>

definition byte_of_char :: "char \<Rightarrow> byte" where
  "byte_of_char c = word_of_nat (of_char c)"

definition char_of_byte :: "byte \<Rightarrow> char" where
  "char_of_byte b = char_of (unat b)"

lemma char_of_byte_of_char [codec, simp]: "char_of_byte (byte_of_char c) = c"
proof -
  have "(of_char c :: nat) < 256" by simp
  then have "unat (word_of_nat (of_char c) :: byte) = of_char c"
    by (simp add: unat_of_nat)
  then show ?thesis by (simp add: char_of_byte_def byte_of_char_def)
qed

lemma byte_of_char_of_byte [codec, simp]: "byte_of_char (char_of_byte b) = b"
proof -
  have "unat b < 256" using unsigned_less [of b] by simp
  then show ?thesis by (simp add: char_of_byte_def byte_of_char_def)
qed

abbreviation bytes_of :: "string \<Rightarrow> byte list" where "bytes_of \<equiv> map byte_of_char"
abbreviation chars_of :: "byte list \<Rightarrow> string" where "chars_of \<equiv> map char_of_byte"

lemma chars_of_bytes_of [codec, simp]: "chars_of (bytes_of s) = s"
  by (simp add: comp_def)

lemma byte_of_NUL_iff [simp]: "byte_of_char c = 0 \<longleftrightarrow> c = NUL"
proof -
  have "byte_of_char NUL = 0" by (simp add: byte_of_char_def)
  then show ?thesis by (metis char_of_byte_of_char)
qed

section \<open>Options\<close>

lemma bind_eq_SomeI: "m = Some x \<Longrightarrow> f x = Some y \<Longrightarrow> Option.bind m f = Some y"
  by simp

lemma bind_exI: "\<exists>x. m = Some x \<and> (\<exists>y. f x = Some y \<and> P y) \<Longrightarrow> \<exists>y. Option.bind m f = Some y \<and> P y"
  by auto

end
