(* ===== verification/C_Text.thy ===== *)
theory C_Text
  imports C_Prelude
begin

text \<open>
  What the components use of \<open>printf\<close> and \<open>scanf\<close>: \<open>%d\<close>, \<open>%0nd\<close>, \<open>%s\<close>, \<open>%.ns\<close> for printing;
  \<open>%d\<close> and \<open>%s\<close> for scanning. Printing a number and scanning it back gives the number.
\<close>

section \<open>Printing\<close>

definition digit :: "nat \<Rightarrow> char" where
  "digit n = char_of (48 + n)"

fun dec :: "nat \<Rightarrow> string" where
  "dec n = (if n < 10 then [digit n] else dec (n div 10) @ [digit (n mod 10)])"

declare dec.simps [simp del]

text \<open>\<open>%0wd\<close>: the sign counts towards the width, zeros fill between sign and digits.\<close>

definition fmt_d0 :: "nat \<Rightarrow> int \<Rightarrow> string" where
  "fmt_d0 w n =
     (let ds = dec (nat \<bar>n\<bar>); sg = (if n < 0 then ''-'' else [])
      in sg @ replicate (w - length sg - length ds) (CHR ''0'') @ ds)"

definition fmt_d :: "int \<Rightarrow> string" where "fmt_d = fmt_d0 0"

section \<open>Scanning\<close>

definition isspace :: "char \<Rightarrow> bool" where
  "isspace c \<longleftrightarrow> (of_char c :: nat) = 32 \<or> 9 \<le> (of_char c :: nat) \<and> (of_char c :: nat) \<le> 13"

definition isdigit :: "char \<Rightarrow> bool" where
  "isdigit c \<longleftrightarrow> 48 \<le> (of_char c :: nat) \<and> (of_char c :: nat) \<le> 57"

definition dec_val :: "string \<Rightarrow> nat" where
  "dec_val = foldl (\<lambda>a c. 10 * a + (of_char c - 48)) 0"

text \<open>
  \<open>%d\<close>: \<open>Some None\<close> is a matching failure (the argument is not assigned); a value outside
  \<open>int\<close> is undefined behaviour.
\<close>

definition scan_sign :: "string \<Rightarrow> bool \<times> string" where
  "scan_sign s =
     (case s of [] \<Rightarrow> (False, s)
      | c # t \<Rightarrow> if c = CHR ''-'' then (True, t) else if c = CHR ''+'' then (False, t) else (False, s))"

definition scan_num :: "string \<Rightarrow> int option" where
  "scan_num s =
     (let (neg, t) = scan_sign (dropWhile isspace s); ds = takeWhile isdigit t
      in if ds = [] then None else Some (if neg then - int (dec_val ds) else int (dec_val ds)))"

definition scan_d :: "string \<Rightarrow> int option option" where
  "scan_d s = (case scan_num s of None \<Rightarrow> Some None | Some n \<Rightarrow> map_option Some (c_int n))"

text \<open>\<open>%s\<close>: the next run of characters that are not white space.\<close>

definition scan_s :: "string \<Rightarrow> string option" where
  "scan_s s =
     (let t = takeWhile (\<lambda>c. \<not> isspace c) (dropWhile isspace s) in if t = [] then None else Some t)"

text \<open>\<open>sscanf(s, "%s", a)\<close> into an array of \<open>n\<close> bytes: without a word it is left alone.\<close>

definition scan_into :: "nat \<Rightarrow> string \<Rightarrow> string \<Rightarrow> string option" where
  "scan_into n s old =
     (case scan_s s of None \<Rightarrow> Some old | Some t \<Rightarrow> if n \<le> length t then None else Some t)"

section \<open>Printing and scanning are inverse\<close>

lemma of_char_digit [simp]: "n < 10 \<Longrightarrow> (of_char (digit n) :: nat) = 48 + n"
  by (simp add: digit_def)

lemma isdigit_digit [simp]: "n < 10 \<Longrightarrow> isdigit (digit n)"
  by (simp add: isdigit_def)

lemma dec_not_Nil [simp]: "dec n \<noteq> []"
  by (subst dec.simps) simp

lemma dec_isdigit: "c \<in> set (dec n) \<Longrightarrow> isdigit c"
proof (induction n rule: dec.induct)
  case (1 n)
  then show ?case by (cases "n < 10") (auto simp: dec.simps [of n])
qed

lemma dec_val_dec [simp]: "dec_val (dec n) = n"
proof (induction n rule: dec.induct)
  case (1 n)
  show ?case
  proof (cases "n < 10")
    case True
    then show ?thesis by (simp add: dec.simps [of n] dec_val_def)
  next
    case False
    then have "dec_val (dec n) = 10 * dec_val (dec (n div 10)) + n mod 10"
      by (simp add: dec.simps [of n] dec_val_def)
    with 1 False show ?thesis by simp
  qed
qed

lemma dec_inject [simp]: "dec m = dec n \<longleftrightarrow> m = n"
  by (metis dec_val_dec)

lemma isdigit_not_space: "isdigit c \<Longrightarrow> \<not> isspace c"
  by (simp add: isdigit_def isspace_def)

lemma isdigit_not_sign: "isdigit c \<Longrightarrow> c \<noteq> CHR ''-'' \<and> c \<noteq> CHR ''+''"
  by (auto simp: isdigit_def)

lemma takeWhile_isdigit_dec:
  "(rest = [] \<or> \<not> isdigit (hd rest)) \<Longrightarrow> takeWhile isdigit (dec n @ rest) = dec n"
proof -
  assume "rest = [] \<or> \<not> isdigit (hd rest)"
  then have "takeWhile isdigit rest = []" by (cases rest) auto
  then show ?thesis by (simp add: takeWhile_append2 dec_isdigit)
qed

lemma scan_sign_dec: "scan_sign (dec n @ rest) = (False, dec n @ rest)"
proof (cases "dec n")
  case (Cons c cs)
  then have "isdigit c" using dec_isdigit [of c n] by simp
  with Cons show ?thesis by (simp add: scan_sign_def isdigit_not_sign)
qed simp

lemma dropWhile_isspace_dec: "dropWhile isspace (dec n @ rest) = dec n @ rest"
proof (cases "dec n")
  case (Cons c cs)
  then have "isdigit c" using dec_isdigit [of c n] by simp
  with Cons show ?thesis by (simp add: isdigit_not_space)
qed simp

lemma scan_num_fmt_d [codec]:
  "rest = [] \<or> \<not> isdigit (hd rest) \<Longrightarrow> scan_num (fmt_d n @ rest) = Some n"
proof (cases "n < 0")
  case True
  assume rest: "rest = [] \<or> \<not> isdigit (hd rest)"
  have "\<not> isspace CHR ''-''" by (simp add: isspace_def)
  with True show ?thesis
    by (simp add: scan_num_def fmt_d_def fmt_d0_def scan_sign_def takeWhile_isdigit_dec [OF rest])
next
  case False
  assume rest: "rest = [] \<or> \<not> isdigit (hd rest)"
  with False show ?thesis
    by (simp add: scan_num_def fmt_d_def fmt_d0_def dropWhile_isspace_dec scan_sign_dec
        takeWhile_isdigit_dec [OF rest])
qed

lemma scan_d_fmt_d [codec]:
  "int_range n \<Longrightarrow> (rest = [] \<or> \<not> isdigit (hd rest)) \<Longrightarrow> scan_d (fmt_d n @ rest) = Some (Some n)"
  by (simp add: scan_d_def scan_num_fmt_d)

section \<open>Lengths\<close>

lemma length_dec_le: "n < 10 ^ k \<Longrightarrow> 0 < k \<Longrightarrow> length (dec n) \<le> k"
proof (induction k arbitrary: n)
  case 0
  then show ?case by simp
next
  case (Suc k)
  show ?case
  proof (cases "n < 10")
    case True
    then show ?thesis by (simp add: dec.simps [of n])
  next
    case False
    with Suc.prems have k: "0 < k" by (cases k) auto
    have "n div 10 < 10 ^ k" using Suc.prems(1) by (simp add: less_mult_imp_div_less mult.commute)
    from Suc.IH [OF this k] False show ?thesis by (simp add: dec.simps [of n])
  qed
qed

text \<open>A zero-padded field has exactly its width when the number fits.\<close>

lemma length_fmt_d0:
  "0 \<le> n \<Longrightarrow> n < 10 ^ w \<Longrightarrow> 0 < w \<Longrightarrow> length (fmt_d0 w n) = w"
proof -
  assume n: "0 \<le> n" "n < 10 ^ w" and w: "0 < w"
  then have "nat n < 10 ^ w" by (simp add: nat_less_iff)
  then have "length (dec (nat n)) \<le> w" using w by (rule length_dec_le)
  with n show ?thesis by (simp add: fmt_d0_def Let_def)
qed

lemma dec_val_replicate_zero: "dec_val (replicate k (CHR ''0'') @ ds) = dec_val ds"
  by (induction k) (auto simp: dec_val_def)

lemma dec_val_fmt_d0: "0 \<le> n \<Longrightarrow> dec_val (fmt_d0 w n) = nat n"
  by (simp add: fmt_d0_def Let_def dec_val_replicate_zero)

lemma fmt_d0_inject: "0 \<le> m \<Longrightarrow> 0 \<le> n \<Longrightarrow> fmt_d0 w m = fmt_d0 w n \<longleftrightarrow> m = n"
  by (metis dec_val_fmt_d0 nat_eq_iff2 nat_0_le)

end
