(* ===== verification/C_Transfer.thy ===== *)
theory C_Transfer
  imports C_Prelude
begin

text \<open>
  The two loops by which every component moves a block of bytes through a socket, and the
  contracts they need. A read call may hand over fewer bytes than asked and a write call may
  accept fewer than given, so the code loops; the loops below are those loops, over the single
  call the caller makes (\<open>read\<close>, \<open>recv\<close> after \<open>select\<close>, \<open>write\<close>, \<open>send\<close>). The locales state
  what the provider of the call promises; the client lemmas are proved from that alone.
\<close>

section \<open>Reading until a block is full\<close>

text \<open>
  \<open>rd n w\<close> asks for at most \<open>n\<close> bytes: \<open>None\<close> is the return value -1, \<open>Some []\<close> the end of the
  stream. The loop returns the bytes stored, the return value that stopped it early
  (\<open>None\<close> when the block was filled) and the world.
\<close>

function read_all ::
  "(nat \<Rightarrow> 'w \<Rightarrow> byte list option \<times> 'w) \<Rightarrow> nat \<Rightarrow> 'w \<Rightarrow> byte list \<times> int option \<times> 'w" where
  "read_all rd n w =
     (if n = 0 then ([], None, w)
      else case rd n w of
             (None, w1) \<Rightarrow> ([], Some (- 1), w1)
           | (Some bs, w1) \<Rightarrow>
               (if bs = [] then ([], Some 0, w1)
                else let (got, st, w2) = read_all rd (n - length bs) w1
                     in (bs @ got, st, w2)))"
  by pat_completeness auto
termination
  by (relation "measure (\<lambda>(rd, n, w). n)") auto

declare read_all.simps [simp del]

lemma read_all_0 [simp]: "read_all rd 0 w = ([], None, w)"
  by (subst read_all.simps) simp

locale byte_source =
  fixes rd :: "nat \<Rightarrow> 'w \<Rightarrow> byte list option \<times> 'w"
    and pending :: "'w \<Rightarrow> byte list"
    and live :: "'w \<Rightarrow> bool"
  assumes rd_some: "rd n w = (Some bs, w1) \<Longrightarrow> pending w = bs @ pending w1 \<and> length bs \<le> n"
    and rd_none: "rd n w = (None, w1) \<Longrightarrow> pending w1 = pending w"
    and rd_live: "live w \<Longrightarrow> 0 < n \<Longrightarrow> pending w \<noteq> [] \<Longrightarrow>
       \<exists>bs w1. rd n w = (Some bs, w1) \<and> bs \<noteq> [] \<and> live w1"
begin

text \<open>What was stored is what has gone from the stream, in order, and never more than asked.\<close>

lemma read_all_sound:
  "read_all rd n w = (got, st, w1) \<Longrightarrow>
     pending w = got @ pending w1 \<and> length got \<le> n \<and> (st = None \<longleftrightarrow> length got = n)"
proof (induction n arbitrary: w got rule: less_induct)
  case (less n)
  show ?case
  proof (cases "n = 0")
    case True
    with less.prems show ?thesis by simp
  next
    case n: False
    obtain r w2 where r: "rd n w = (r, w2)" by (cases "rd n w")
    show ?thesis
    proof (cases "r = None \<or> r = Some []")
      case True
      with less.prems n r show ?thesis
        by (auto simp: read_all.simps [of rd n w] dest: rd_some rd_none)
    next
      case False
      then obtain bs where bs: "r = Some bs" "bs \<noteq> []" by (cases r) auto
      obtain g where g: "read_all rd (n - length bs) w2 = (g, st, w1)" and got: "got = bs @ g"
        using less.prems n r bs by (auto simp: read_all.simps [of rd n w] split: prod.splits)
      have "n - length bs < n" using n bs by simp
      from less.IH [OF this g] rd_some [of n w bs w2] r bs got show ?thesis by auto
    qed
  qed
qed

text \<open>
  However the stream is cut into pieces, a loop over a live source that holds enough bytes
  stores exactly the next \<open>n\<close> of them.
\<close>

lemma read_all_complete:
  "live w \<Longrightarrow> n \<le> length (pending w) \<Longrightarrow>
     \<exists>w1. read_all rd n w = (take n (pending w), None, w1) \<and>
          pending w1 = drop n (pending w) \<and> live w1"
proof (induction n arbitrary: w rule: less_induct)
  case (less n)
  show ?case
  proof (cases "n = 0")
    case True
    with less.prems show ?thesis by simp
  next
    case n: False
    with less.prems obtain bs w2 where
      r: "rd n w = (Some bs, w2)" and bs: "bs \<noteq> []" and live: "live w2"
      using rd_live [of w n] by fastforce
    from rd_some [OF r] have p: "pending w = bs @ pending w2" and le: "length bs \<le> n"
      by auto
    have lt: "n - length bs < n" using n bs by simp
    have "n - length bs \<le> length (pending w2)" using p less.prems(2) by simp
    from less.IH [OF lt live this] obtain w1 where
      "read_all rd (n - length bs) w2 = (take (n - length bs) (pending w2), None, w1)"
      "pending w1 = drop (n - length bs) (pending w2)" "live w1"
      by auto
    with n r bs p le show ?thesis by (simp add: read_all.simps [of rd n w])
  qed
qed

end

section \<open>Writing until a block is sent\<close>

text \<open>
  \<open>wr bs w\<close> offers \<open>bs\<close> and returns how many bytes were accepted, or -1. At most \<open>chunk\<close> bytes
  are offered at a time. The loop returns the return value that stopped it early.
\<close>

function write_all ::
  "(byte list \<Rightarrow> 'w \<Rightarrow> int \<times> 'w) \<Rightarrow> nat \<Rightarrow> byte list \<Rightarrow> 'w \<Rightarrow> int option \<times> 'w" where
  "write_all wr chunk bs w =
     (if bs = [] then (None, w)
      else case wr (take chunk bs) w of
             (r, w1) \<Rightarrow> (if r < 1 then (Some r, w1)
                        else write_all wr chunk (drop (nat r) bs) w1))"
  by pat_completeness auto
termination
  by (relation "measure (\<lambda>(wr, chunk, bs, w). length bs)") auto

declare write_all.simps [simp del]

lemma write_all_Nil [simp]: "write_all wr chunk [] w = (None, w)"
  by (subst write_all.simps) simp

locale byte_sink =
  fixes wr :: "byte list \<Rightarrow> 'w \<Rightarrow> int \<times> 'w"
    and sent :: "'w \<Rightarrow> byte list"
    and live :: "'w \<Rightarrow> bool"
  assumes wr_sent: "wr bs w = (r, w1) \<Longrightarrow>
       r \<le> int (length bs) \<and> sent w1 = sent w @ take (nat r) bs"
    and wr_live: "live w \<Longrightarrow> bs \<noteq> [] \<Longrightarrow> \<exists>r w1. wr bs w = (r, w1) \<and> 1 \<le> r \<and> live w1"
begin

text \<open>Nothing is sent twice, reordered or invented: a prefix goes out, all of it on success.\<close>

lemma write_all_sound:
  "write_all wr chunk bs w = (st, w1) \<Longrightarrow>
     (\<exists>k. sent w1 = sent w @ take k bs) \<and> (st = None \<longrightarrow> sent w1 = sent w @ bs)"
proof (induction bs arbitrary: w rule: length_induct)
  case (1 bs)
  show ?case
  proof (cases "bs = []")
    case True
    with "1.prems" show ?thesis by auto
  next
    case bs: False
    obtain r w2 where r: "wr (take chunk bs) w = (r, w2)" by (cases "wr (take chunk bs) w")
    from wr_sent [OF r] have s2: "sent w2 = sent w @ take (nat r) bs" and rle: "nat r \<le> length bs"
      by (auto simp: min_def split: if_splits)
    show ?thesis
    proof (cases "r < 1")
      case True
      with "1.prems" bs r have "st = Some r" "w1 = w2"
        by (auto simp: write_all.simps [of wr chunk bs w])
      with s2 show ?thesis by auto
    next
      case False
      then have "length (drop (nat r) bs) < length bs" using bs by simp
      moreover have "write_all wr chunk (drop (nat r) bs) w2 = (st, w1)"
        using "1.prems" bs r False by (simp add: write_all.simps [of wr chunk bs w])
      ultimately obtain k where k: "sent w1 = sent w2 @ take k (drop (nat r) bs)"
        and all: "st = None \<longrightarrow> sent w1 = sent w2 @ drop (nat r) bs"
        using "1.IH" by blast
      from k s2 rle have "sent w1 = sent w @ take (nat r + k) bs"
        by (simp add: take_add)
      with all s2 show ?thesis by (metis append.assoc append_take_drop_id)
    qed
  qed
qed

lemma write_all_complete:
  "live w \<Longrightarrow> 0 < chunk \<Longrightarrow>
     \<exists>w1. write_all wr chunk bs w = (None, w1) \<and> sent w1 = sent w @ bs \<and> live w1"
proof (induction bs arbitrary: w rule: length_induct)
  case (1 bs)
  show ?case
  proof (cases "bs = []")
    case True
    with "1.prems" show ?thesis by auto
  next
    case bs: False
    with "1.prems" obtain r w2 where
      r: "wr (take chunk bs) w = (r, w2)" and pos: "1 \<le> r" and live: "live w2"
      using wr_live [of w "take chunk bs"] by auto
    have "length (drop (nat r) bs) < length bs" using bs pos by simp
    with "1.IH" live \<open>0 < chunk\<close> obtain w1 where
      "write_all wr chunk (drop (nat r) bs) w2 = (None, w1)" "live w1"
      by blast
    moreover from this(1) bs r pos have eq: "write_all wr chunk bs w = (None, w1)"
      by (simp add: write_all.simps [of wr chunk bs w])
    ultimately show ?thesis using write_all_sound [OF eq] by blast
  qed
qed

end

end
