(* ===== verification/OS_World.thy ===== *)
theory OS_World
  imports C_Text C_Transfer "HOL-Library.AList"
begin

text \<open>
  The operating system as the client sees it. The environment \<open>env\<close> is the part outside the
  program: it answers every system call, and it is an arbitrary function of the number of
  calls made so far, so a statement for every \<open>env\<close> is a statement about every behaviour of
  the kernel, the network and the peer. The world is what the calls change: the descriptor
  table with the bytes each connection still has to deliver, the log files, and the trace of
  the effects the program has had.

  What is built in is documented behaviour only: \<open>socket\<close> returns the lowest descriptor not
  in use, \<open>read\<close> returns at most the number of bytes asked, in the order the peer sent them,
  \<open>write\<close> accepts a prefix of what is offered, and calls on a descriptor that is not open
  fail.
\<close>

section \<open>The environment\<close>

datatype io_ans = IoFail | IoReady nat

record tm =
  tm_year :: int
  tm_mon :: int
  tm_mday :: int
  tm_hour :: int
  tm_min :: int
  tm_sec :: int

text \<open>An interface of \<open>getifaddrs\<close>: name, and address family with the printed address, if any.\<close>

record ifaddr =
  ifa_name :: string
  ifa_addr :: "(int \<times> string) option"

text \<open>A directory entry with what \<open>lstat\<close> says of it: regular file or not, modification time.\<close>

record dirent =
  d_name :: string
  d_stat :: "(bool \<times> int) option"

text \<open>One transfer of the curl library: is the handle created, the buffer sizes with which the
  read callback is asked for the body to upload, the pieces of the answer handed to the write
  callback, the result code and the HTTP status (0 when there was no answer).\<close>

record curl_run =
  curl_init :: bool
  curl_reads :: "nat list"
  curl_body :: "string list"
  curl_res :: int
  curl_code :: int

record env =
  e_socket :: "nat \<Rightarrow> bool"
  e_connect :: "nat \<Rightarrow> bool"
  e_peer :: "nat \<Rightarrow> byte list"
  e_read :: "nat \<Rightarrow> io_ans"
  e_write :: "nat \<Rightarrow> io_ans"
  e_select :: "nat \<Rightarrow> int"
  e_close :: "nat \<Rightarrow> bool"
  e_fopen :: "nat \<Rightarrow> bool"
  e_time :: "nat \<Rightarrow> int"
  e_tm :: "nat \<Rightarrow> tm"
  e_usec :: "nat \<Rightarrow> int"
  e_mutex :: "nat \<Rightarrow> int"
  e_peername :: "nat \<Rightarrow> string"
  e_ifaddrs :: "nat \<Rightarrow> ifaddr list option"
  e_opendir :: "nat \<Rightarrow> dirent list option"
  e_curl :: "nat \<Rightarrow> string \<Rightarrow> curl_run"

section \<open>The world\<close>

record conn =
  up :: bool
  rx :: "byte list"

datatype sockopt = SO_KEEPALIVE | TCP_NODELAY | SO_RCVBUF | SO_SNDBUF | SO_LINGER

datatype event =
    EvSocket int
  | EvConnect int string "16 word" bool
  | EvSockopt int sockopt int
  | EvWrite int "byte list"
  | EvClose int
  | EvSleep nat
  | EvUnlink string
  | EvHttp string string "string list" string

record world =
  tick :: nat
  fds :: "(int \<times> conn) list"
  files :: "string \<Rightarrow> string"
  m_strLogPath :: string
  trace :: "event list"

definition keys :: "('k \<times> 'v) list \<Rightarrow> 'k set" where
  "keys al = fst ` set al"

abbreviation open_fds :: "world \<Rightarrow> int set" where
  "open_fds w \<equiv> keys (fds w)"

definition emit :: "event \<Rightarrow> world \<Rightarrow> world" where
  "emit ev w = w\<lparr>trace := trace w @ [ev], tick := Suc (tick w)\<rparr>"

section \<open>System calls\<close>

definition lowest_free :: "int list \<Rightarrow> int" where
  "lowest_free xs = hd (filter (\<lambda>n. n \<notin> set xs) (map int [0..<Suc (length xs)]))"

definition sys_socket :: "env \<Rightarrow> world \<Rightarrow> int \<times> world" where
  "sys_socket e w =
     (if e_socket e (tick w)
      then let fd = lowest_free (map fst (fds w))
           in (fd, emit (EvSocket fd) (w\<lparr>fds := (fd, \<lparr>up = False, rx = []\<rparr>) # fds w\<rparr>))
      else (- 1, emit (EvSocket (- 1)) w))"

definition sys_connect :: "env \<Rightarrow> int \<Rightarrow> string \<Rightarrow> 16 word \<Rightarrow> world \<Rightarrow> int \<times> world" where
  "sys_connect e fd ip port w =
     (if e_connect e (tick w) \<and> fd \<in> open_fds w
      then (0, emit (EvConnect fd ip port True)
             (w\<lparr>fds := AList.update fd \<lparr>up = True, rx = e_peer e (tick w)\<rparr> (fds w)\<rparr>))
      else (- 1, emit (EvConnect fd ip port False) w))"

definition sys_setsockopt :: "int \<Rightarrow> sockopt \<Rightarrow> int \<Rightarrow> world \<Rightarrow> world" where
  "sys_setsockopt fd opt val w = emit (EvSockopt fd opt val) w"

text \<open>\<open>None\<close> is the return value -1, \<open>Some bs\<close> the return value \<open>length bs\<close>.\<close>

definition sys_read :: "env \<Rightarrow> int \<Rightarrow> nat \<Rightarrow> world \<Rightarrow> byte list option \<times> world" where
  "sys_read e fd n w =
     (let w1 = w\<lparr>tick := Suc (tick w)\<rparr> in
      case map_of (fds w) fd of
        None \<Rightarrow> (None, w1)
      | Some c \<Rightarrow>
          (if \<not> up c then (None, w1)
           else case e_read e (tick w) of
                  IoFail \<Rightarrow> (None, w1)
                | IoReady k \<Rightarrow>
                    (Some (take (min k n) (rx c)),
                     w1\<lparr>fds := AList.update fd (c\<lparr>rx := drop (min k n) (rx c)\<rparr>) (fds w)\<rparr>)))"

definition sys_write :: "env \<Rightarrow> int \<Rightarrow> byte list \<Rightarrow> world \<Rightarrow> int \<times> world" where
  "sys_write e fd bs w =
     (let w1 = w\<lparr>tick := Suc (tick w)\<rparr> in
      case map_of (fds w) fd of
        None \<Rightarrow> (- 1, w1)
      | Some c \<Rightarrow>
          (if \<not> up c then (- 1, w1)
           else case e_write e (tick w) of
                  IoFail \<Rightarrow> (- 1, w1)
                | IoReady k \<Rightarrow>
                    (int (min k (length bs)), emit (EvWrite fd (take k bs)) w)))"

definition sys_close :: "env \<Rightarrow> int \<Rightarrow> world \<Rightarrow> int \<times> world" where
  "sys_close e fd w =
     (if fd \<in> open_fds w
      then (if e_close e (tick w) then 0 else - 1,
            emit (EvClose fd) (w\<lparr>fds := AList.delete fd (fds w)\<rparr>))
      else (- 1, w\<lparr>tick := Suc (tick w)\<rparr>))"

text \<open>A directory stream holds a descriptor until it is closed.\<close>

definition sys_opendir :: "env \<Rightarrow> world \<Rightarrow> (int \<times> dirent list) option \<times> world" where
  "sys_opendir e w =
     (let w1 = w\<lparr>tick := Suc (tick w)\<rparr> in
      case e_opendir e (tick w) of
        None \<Rightarrow> (None, w1)
      | Some ds \<Rightarrow>
          (let fd = lowest_free (map fst (fds w))
           in (Some (fd, ds), w1\<lparr>fds := (fd, \<lparr>up = False, rx = []\<rparr>) # fds w\<rparr>)))"

definition sys_closedir :: "int \<Rightarrow> world \<Rightarrow> world" where
  "sys_closedir fd w = w\<lparr>fds := AList.delete fd (fds w), tick := Suc (tick w)\<rparr>"

definition sys_time :: "env \<Rightarrow> world \<Rightarrow> int \<times> world" where
  "sys_time e w = (e_time e (tick w), w\<lparr>tick := Suc (tick w)\<rparr>)"

definition sys_sleep :: "nat \<Rightarrow> world \<Rightarrow> world" where
  "sys_sleep n w = emit (EvSleep n) w"

section \<open>Descriptors\<close>

lemma lowest_free_candidates:
  "filter (\<lambda>n. n \<notin> set xs) (map int [0..<Suc (length xs)]) \<noteq> []"
proof
  assume "filter (\<lambda>n. n \<notin> set xs) (map int [0..<Suc (length xs)]) = []"
  then have sub: "int ` {0..<Suc (length xs)} \<subseteq> set xs"
    by (auto simp: filter_empty_conv simp del: upt_Suc)
  have "card (int ` {0..<Suc (length xs)}) = Suc (length xs)"
    by (simp add: card_image)
  then have "Suc (length xs) \<le> card (set xs)"
    using card_mono [OF _ sub] by simp
  then show False using card_length [of xs] by simp
qed

lemma lowest_free_member:
  "lowest_free xs \<in> set (filter (\<lambda>n. n \<notin> set xs) (map int [0..<Suc (length xs)]))"
  unfolding lowest_free_def by (rule hd_in_set [OF lowest_free_candidates])

lemma lowest_free_fresh [simp]: "lowest_free xs \<notin> set xs"
  using lowest_free_member [of xs] by (auto simp del: upt_Suc)

lemma lowest_free_nonneg [simp]: "0 \<le> lowest_free xs"
  using lowest_free_member [of xs] by (auto simp del: upt_Suc)

lemma lowest_free_le_length: "lowest_free xs \<le> int (length xs)"
  using lowest_free_member [of xs] by (auto simp del: upt_Suc)

lemma sorted_map_int: "sorted (map int [0..<m])"
  by (induction m) (auto simp: sorted_append)

lemma lowest_free_least: "0 \<le> n \<Longrightarrow> n < lowest_free xs \<Longrightarrow> n \<in> set xs"
proof (rule ccontr)
  assume n: "0 \<le> n" "n < lowest_free xs" "n \<notin> set xs"
  let ?c = "filter (\<lambda>n. n \<notin> set xs) (map int [0..<Suc (length xs)])"
  have "sorted ?c" by (intro sorted_wrt_filter sorted_map_int)
  moreover have "n \<in> set ?c"
    using n lowest_free_le_length [of xs] by (auto simp: image_iff simp del: upt_Suc intro: bexI [of _ "nat n"])
  ultimately have "hd ?c \<le> n" by (cases ?c) (auto simp del: upt_Suc)
  then show False using n by (simp add: lowest_free_def)
qed

lemma lowest_free_le_card: "lowest_free xs \<le> int (card (set xs))"
proof -
  have "{0..<lowest_free xs} \<subseteq> set xs" using lowest_free_least by auto
  then have "card {0..<lowest_free xs} \<le> card (set xs)" by (rule card_mono [OF List.finite_set])
  then show ?thesis by simp
qed

lemma lowest_free_zero_iff: "lowest_free xs = 0 \<longleftrightarrow> 0 \<notin> set xs"
  by (metis lowest_free_fresh lowest_free_least lowest_free_nonneg order_le_less)

lemma keys_Nil [simp]: "keys [] = {}"
  by (simp add: keys_def)

lemma keys_Cons [simp]: "keys ((k, v) # al) = insert k (keys al)"
  by (simp add: keys_def)

lemma keys_map_fst: "set (map fst al) = keys al"
  by (simp add: keys_def)

lemma keys_update [simp]: "k \<in> keys al \<Longrightarrow> keys (AList.update k v al) = keys al"
  unfolding keys_map_fst [symmetric] by (simp add: update_keys)

lemma keys_delete [simp]: "keys (AList.delete k al) = keys al - {k}"
  unfolding keys_map_fst [symmetric] by (simp add: delete_keys)

lemma delete_update_same [simp]: "AList.delete k (AList.update k v al) = AList.delete k al"
  by (induction al) auto

lemma delete_fresh [simp]: "k \<notin> keys al \<Longrightarrow> AList.delete k al = al"
  by (induction al) (auto simp: keys_def)

lemma map_of_keys: "map_of al k = Some v \<Longrightarrow> k \<in> keys al"
  by (force simp: keys_def dest: map_of_SomeD)

lemma keys_map_of: "k \<in> keys al \<Longrightarrow> \<exists>v. map_of al k = Some v"
  by (metis keys_map_fst map_of_eq_None_iff not_None_eq set_map)

lemma sys_socket_fds [frame]:
  "sys_socket e w = (fd, w1) \<Longrightarrow>
     (fd = - 1 \<and> open_fds w1 = open_fds w \<or>
      0 \<le> fd \<and> fd \<notin> open_fds w \<and> open_fds w1 = insert fd (open_fds w)) \<and>
     m_strLogPath w1 = m_strLogPath w"
  using lowest_free_fresh [of "map fst (fds w)"] unfolding keys_map_fst
  by (auto simp: sys_socket_def emit_def Let_def split: if_splits)

lemma sys_socket_zero:
  "sys_socket e w = (fd, w1) \<Longrightarrow> fd = 0 \<Longrightarrow> 0 \<notin> open_fds w"
  using sys_socket_fds [of e w fd w1] by auto

lemma sys_connect_fds [frame]:
  "sys_connect e fd ip port w = (r, w1) \<Longrightarrow>
     open_fds w1 = open_fds w \<and> m_strLogPath w1 = m_strLogPath w"
  by (auto simp: sys_connect_def emit_def split: if_splits)

lemma sys_setsockopt_fds [frame, simp]:
  "fds (sys_setsockopt fd opt val w) = fds w"
  "m_strLogPath (sys_setsockopt fd opt val w) = m_strLogPath w"
  by (simp_all add: sys_setsockopt_def emit_def)

lemma sys_read_fds [frame]:
  "sys_read e fd n w = (r, w1) \<Longrightarrow>
     open_fds w1 = open_fds w \<and> m_strLogPath w1 = m_strLogPath w \<and> trace w1 = trace w"
  by (auto simp: sys_read_def Let_def map_of_keys split: option.splits if_splits io_ans.splits)

lemma sys_write_fds [frame]:
  "sys_write e fd bs w = (r, w1) \<Longrightarrow> fds w1 = fds w \<and> m_strLogPath w1 = m_strLogPath w"
  by (auto simp: sys_write_def emit_def Let_def split: option.splits if_splits io_ans.splits)

lemma sys_close_fds [frame]:
  "sys_close e fd w = (r, w1) \<Longrightarrow>
     open_fds w1 = open_fds w - {fd} \<and> m_strLogPath w1 = m_strLogPath w"
  by (auto simp: sys_close_def emit_def split: if_splits)

lemma sys_sleep_fds [frame, simp]:
  "fds (sys_sleep n w) = fds w" "m_strLogPath (sys_sleep n w) = m_strLogPath w"
  by (simp_all add: sys_sleep_def emit_def)

section \<open>A connection as a byte source and a byte sink\<close>

definition is_up :: "int \<Rightarrow> world \<Rightarrow> bool" where
  "is_up fd w \<longleftrightarrow> (\<exists>c. map_of (fds w) fd = Some c \<and> up c)"

definition pending :: "int \<Rightarrow> world \<Rightarrow> byte list" where
  "pending fd w = (case map_of (fds w) fd of None \<Rightarrow> [] | Some c \<Rightarrow> if up c then rx c else [])"

definition written :: "int \<Rightarrow> event \<Rightarrow> byte list" where
  "written fd ev = (case ev of EvWrite f bs \<Rightarrow> if f = fd then bs else [] | _ \<Rightarrow> [])"

definition sent :: "int \<Rightarrow> world \<Rightarrow> byte list" where
  "sent fd w = concat (map (written fd) (trace w))"

definition can_read :: "env \<Rightarrow> int \<Rightarrow> world \<Rightarrow> bool" where
  "can_read e fd w \<longleftrightarrow> is_up fd w \<and> (\<forall>t\<ge>tick w. \<exists>k. 0 < k \<and> e_read e t = IoReady k)"

definition can_write :: "env \<Rightarrow> int \<Rightarrow> world \<Rightarrow> bool" where
  "can_write e fd w \<longleftrightarrow> is_up fd w \<and> (\<forall>t\<ge>tick w. \<exists>k. 0 < k \<and> e_write e t = IoReady k)"

interpretation sock_src: byte_source "sys_read e fd" "pending fd" "can_read e fd" for e fd
proof unfold_locales
  fix n w bs w1
  assume "sys_read e fd n w = (Some bs, w1)"
  then show "pending fd w = bs @ pending fd w1 \<and> length bs \<le> n"
    by (auto simp: sys_read_def pending_def Let_def update_conv'
        split: option.splits if_splits io_ans.splits)
next
  fix n w w1
  assume "sys_read e fd n w = (None, w1)"
  then show "pending fd w1 = pending fd w"
    by (auto simp: sys_read_def pending_def Let_def split: option.splits if_splits io_ans.splits)
next
  fix w and n :: nat
  assume live: "can_read e fd w" and n: "0 < n" and ne: "pending fd w \<noteq> []"
  then obtain c k where c: "map_of (fds w) fd = Some c" "up c" "rx c \<noteq> []"
    and k: "0 < k" "e_read e (tick w) = IoReady k"
    by (auto simp: can_read_def is_up_def pending_def)
  from live have "\<forall>t\<ge>Suc (tick w). \<exists>k. 0 < k \<and> e_read e t = IoReady k"
    by (simp add: can_read_def)
  with c k n show "\<exists>bs w1. sys_read e fd n w = (Some bs, w1) \<and> bs \<noteq> [] \<and> can_read e fd w1"
    by (simp add: sys_read_def can_read_def is_up_def update_conv')
qed

interpretation sock_snk: byte_sink "sys_write e fd" "sent fd" "can_write e fd" for e fd
proof unfold_locales
  fix bs :: "byte list" and w r w1
  assume "sys_write e fd bs w = (r, w1)"
  then show "r \<le> int (length bs) \<and> sent fd w1 = sent fd w @ take (nat r) bs"
    by (auto simp: sys_write_def sent_def written_def emit_def Let_def min_def nat_less_iff
        split: option.splits if_splits io_ans.splits)
next
  fix bs :: "byte list" and w
  assume live: "can_write e fd w" and bs: "bs \<noteq> []"
  then obtain c k where c: "map_of (fds w) fd = Some c" "up c"
    and k: "0 < k" "e_write e (tick w) = IoReady k"
    by (auto simp: can_write_def is_up_def)
  from live have "\<forall>t\<ge>Suc (tick w). \<exists>k. 0 < k \<and> e_write e t = IoReady k"
    by (simp add: can_write_def)
  moreover have "1 \<le> length bs" using bs by (cases bs) auto
  ultimately show "\<exists>r w1. sys_write e fd bs w = (r, w1) \<and> 1 \<le> r \<and> can_write e fd w1"
    using c k by (simp add: sys_write_def can_write_def is_up_def emit_def)
qed

text \<open>A step that touches neither descriptors nor the outside world: logging.\<close>

definition calm :: "world \<Rightarrow> world \<Rightarrow> bool" where
  "calm w w1 \<longleftrightarrow> fds w1 = fds w \<and> trace w1 = trace w \<and> m_strLogPath w1 = m_strLogPath w \<and>
     tick w \<le> tick w1"

lemma calm_refl [simp]: "calm w w"
  by (simp add: calm_def)

lemma calm_trans: "calm w w1 \<Longrightarrow> calm w1 w2 \<Longrightarrow> calm w w2"
  by (simp add: calm_def)

lemma calm_keeps [frame]:
  assumes "calm w w1"
  shows "fds w1 = fds w" "m_strLogPath w1 = m_strLogPath w" "trace w1 = trace w"
    "pending fd w1 = pending fd w" "sent fd w1 = sent fd w" "is_up fd w1 = is_up fd w"
  using assms by (simp_all add: calm_def pending_def sent_def is_up_def)

lemma calm_can_read: "calm w w1 \<Longrightarrow> can_read e fd w \<Longrightarrow> can_read e fd w1"
  by (auto simp: calm_def can_read_def is_up_def)

lemma calm_can_write: "calm w w1 \<Longrightarrow> can_write e fd w \<Longrightarrow> can_write e fd w1"
  by (auto simp: calm_def can_write_def is_up_def)

end
