(* ===== verification/MiscUtil.thy ===== *)
theory MiscUtil
  imports OS_World
begin

text \<open>
  \<open>CMiscUtil\<close> (MiscUtil.cpp): the log writers, and the two clean-ups of the log directory. The
  static member \<open>m_strLogPath\<close> is the field of that name in the world. A log file is the text
  appended to it so far.
\<close>

section \<open>Writing a line\<close>

text \<open>The values of \<open>logtype1\<close> with the parameters each of them reads.\<close>

datatype log_arg = L0 | L1 int | L2 int | L3 string | L4 string string

fun log_tail :: "log_arg \<Rightarrow> string" where
  "log_tail L0 = ''\<newline>''"
| "log_tail (L1 n) = '', P1 - '' @ fmt_d n @ ''\<newline>''"
| "log_tail (L2 n) = '', P1 - '' @ fmt_d n @ ''\<newline>''"
| "log_tail (L3 s) = '', P1 - '' @ take 300 s @ ''\<newline>''"
| "log_tail (L4 s t) = '', P1 - '' @ take 300 s @ '', P2 - '' @ take 300 t @ ''\<newline>''"

definition log_line :: "tm \<Rightarrow> int \<Rightarrow> string \<Rightarrow> int \<Rightarrow> log_arg \<Rightarrow> string" where
  "log_line t usec message sockfd arg =
     ''['' @ fmt_d0 2 (tm_hour t) @ '':'' @ fmt_d0 2 (tm_min t) @ '':'' @ fmt_d0 2 (tm_sec t) @
     '' '' @ fmt_d0 6 usec @ ''] '' @ message @
     (if sockfd \<noteq> - 1 then '', SOCKET - '' @ fmt_d sockfd else []) @ log_tail arg"

definition info_path :: "string \<Rightarrow> tm \<Rightarrow> string" where
  "info_path logpath t =
     logpath @ ''INFO_'' @ fmt_d0 4 (tm_year t + 1900) @ ''-'' @ fmt_d0 2 (tm_mon t + 1) @ ''-'' @
     fmt_d0 2 (tm_mday t) @ ''_'' @ fmt_d0 2 (tm_hour t)"

definition error_path :: "string \<Rightarrow> tm \<Rightarrow> string" where
  "error_path logpath t =
     logpath @ ''ERROR_'' @ fmt_d0 4 (tm_year t + 1900) @ ''-'' @ fmt_d0 2 (tm_mon t + 1) @ ''-'' @
     fmt_d0 2 (tm_mday t)"

text \<open>
  \<open>time\<close> and \<open>localtime_r\<close>, the name into \<open>logpath[256]\<close>, \<open>fopen\<close> in append mode (a failure is
  silent), \<open>gettimeofday\<close>, the line.
\<close>

definition wrote_line :: "env \<Rightarrow> string \<Rightarrow> (tm \<Rightarrow> int \<Rightarrow> string) \<Rightarrow> world \<Rightarrow> world" where
  "wrote_line e path line w =
     (if \<not> e_fopen e (Suc (tick w)) then w\<lparr>tick := tick w + 2\<rparr>
      else w\<lparr>tick := tick w + 3,
             files := (files w)(path := files w path @
               line (e_tm e (tick w)) (e_usec e (tick w + 2)))\<rparr>)"

definition append_line :: "env \<Rightarrow> string \<Rightarrow> (tm \<Rightarrow> int \<Rightarrow> string) \<Rightarrow> world \<Rightarrow> world option" where
  "append_line e path line w =
     (if 256 \<le> length path then None else Some (wrote_line e path line w))"

definition WriteLog :: "env \<Rightarrow> string \<Rightarrow> int \<Rightarrow> log_arg \<Rightarrow> world \<Rightarrow> world option" where
  "WriteLog e message client_sockfd arg w =
     append_line e (info_path (m_strLogPath w) (e_tm e (tick w)))
       (\<lambda>t usec. log_line t usec message client_sockfd arg) w"

definition WriteErrorLog :: "env \<Rightarrow> string \<Rightarrow> int \<Rightarrow> log_arg \<Rightarrow> world \<Rightarrow> world option" where
  "WriteErrorLog e message client_sockfd arg w =
     append_line e (error_path (m_strLogPath w) (e_tm e (tick w)))
       (\<lambda>t usec. log_line t usec message client_sockfd arg) w"

section \<open>Removing old logs\<close>

text \<open>
  The loop over the directory entries: \<open>newpath[256]\<close> is filled by \<open>sprintf\<close>, an entry that
  cannot be examined ends the whole function (\<open>False\<close>), a regular file older than the limit
  is unlinked.
\<close>

definition newpath :: "world \<Rightarrow> dirent \<Rightarrow> string" where
  "newpath w d = m_strLogPath w @ ''/'' @ d_name d"

fun purge_dir :: "int \<Rightarrow> dirent list \<Rightarrow> world \<Rightarrow> (bool \<times> world) option" where
  "purge_dir limit [] w = Some (True, w)"
| "purge_dir limit (d # ds) w =
     (if 256 \<le> length (newpath w d) then None
      else case d_stat d of
             None \<Rightarrow> Some (False, w)
           | Some (isreg, mtime) \<Rightarrow>
               (if isreg
                then (if d_name d = ''.'' \<or> d_name d = ''..'' then purge_dir limit ds w
                      else if mtime < limit
                           then purge_dir limit ds (emit (EvUnlink (newpath w d)) w)
                           else purge_dir limit ds w)
                else purge_dir limit ds w))"

text \<open>\<open>InitLog\<close> never closes the directory stream.\<close>

definition InitLog :: "env \<Rightarrow> string \<Rightarrow> world \<Rightarrow> world option" where
  "InitLog e logpath w =
     (if 256 \<le> length logpath then None
      else case sys_opendir e (w\<lparr>m_strLogPath := logpath\<rparr>) of
             (None, w1) \<Rightarrow> Some w1
           | (Some (fd, entries), w1) \<Rightarrow>
               (case sys_time e w1 of (the_time, w2) \<Rightarrow> do {
                  (_, w3) \<leftarrow> purge_dir (the_time - 30 * 24 * 3600) entries w2;
                  Some w3 }))"

definition ClearOldLog :: "env \<Rightarrow> world \<Rightarrow> world option" where
  "ClearOldLog e w =
     (case sys_opendir e w of
        (None, w1) \<Rightarrow> Some w1
      | (Some (fd, entries), w1) \<Rightarrow>
          (case sys_time e w1 of (the_time, w2) \<Rightarrow> do {
             (finished, w3) \<leftarrow> purge_dir (the_time - 5 * 24 * 3600) entries w2;
             Some (if finished then sys_closedir fd w3 else w3) }))"

section \<open>The log writers never fail and touch nothing else\<close>

text \<open>
  \<open>localtime_r\<close> fills every field in its documented range, and the year has four digits; the
  directory name leaves room for the file name.
\<close>

definition sane_tm :: "tm \<Rightarrow> bool" where
  "sane_tm t \<longleftrightarrow> 0 \<le> tm_year t + 1900 \<and> tm_year t + 1900 < 10000 \<and> 0 \<le> tm_mon t \<and> tm_mon t < 12 \<and>
     1 \<le> tm_mday t \<and> tm_mday t \<le> 31 \<and> 0 \<le> tm_hour t \<and> tm_hour t < 24"

definition log_ok :: "env \<Rightarrow> world \<Rightarrow> bool" where
  "log_ok e w \<longleftrightarrow> (\<forall>t. sane_tm (e_tm e t)) \<and> length (m_strLogPath w) \<le> 237"

lemma fmt_field_length:
  "sane_tm t \<Longrightarrow> length (fmt_d0 4 (tm_year t + 1900)) = 4"
  "sane_tm t \<Longrightarrow> length (fmt_d0 2 (tm_mon t + 1)) = 2"
  "sane_tm t \<Longrightarrow> length (fmt_d0 2 (tm_mday t)) = 2"
  "sane_tm t \<Longrightarrow> length (fmt_d0 2 (tm_hour t)) = 2"
  by (simp_all add: sane_tm_def length_fmt_d0)

lemma length_info_path: "sane_tm t \<Longrightarrow> length (info_path p t) = length p + 18"
  by (simp add: info_path_def fmt_field_length)

lemma length_error_path: "sane_tm t \<Longrightarrow> length (error_path p t) = length p + 16"
  by (simp add: error_path_def fmt_field_length)

text \<open>The world after a call.\<close>

definition logged :: "env \<Rightarrow> string \<Rightarrow> int \<Rightarrow> log_arg \<Rightarrow> world \<Rightarrow> world" where
  "logged e message sockfd arg w =
     wrote_line e (info_path (m_strLogPath w) (e_tm e (tick w)))
       (\<lambda>t usec. log_line t usec message sockfd arg) w"

definition err_logged :: "env \<Rightarrow> string \<Rightarrow> int \<Rightarrow> log_arg \<Rightarrow> world \<Rightarrow> world" where
  "err_logged e message sockfd arg w =
     wrote_line e (error_path (m_strLogPath w) (e_tm e (tick w)))
       (\<lambda>t usec. log_line t usec message sockfd arg) w"

lemma WriteLog_ok [simp, safe]: "log_ok e w \<Longrightarrow> WriteLog e m s a w = Some (logged e m s a w)"
  by (simp add: WriteLog_def append_line_def logged_def log_ok_def length_info_path)

lemma WriteErrorLog_ok [simp, safe]:
  "log_ok e w \<Longrightarrow> WriteErrorLog e m s a w = Some (err_logged e m s a w)"
  by (simp add: WriteErrorLog_def append_line_def err_logged_def log_ok_def length_error_path)

lemma wrote_line_calm: "calm w (wrote_line e path line w)"
  by (simp add: wrote_line_def calm_def)

lemma logged_calm [simp]: "calm w (logged e m s a w)" "calm w (err_logged e m s a w)"
  by (simp_all add: logged_def err_logged_def wrote_line_calm)

lemmas logged_keeps [simp] = logged_calm [THEN calm_keeps(1)] logged_calm [THEN calm_keeps(2)]
  logged_calm [THEN calm_keeps(3)] logged_calm [THEN calm_keeps(4)]
  logged_calm [THEN calm_keeps(5)] logged_calm [THEN calm_keeps(6)]

lemma log_ok_logged [simp]:
  "log_ok e (logged e1 m s a w) = log_ok e w" "log_ok e (err_logged e1 m s a w) = log_ok e w"
  by (simp_all add: log_ok_def)

lemma log_ok_path: "m_strLogPath w1 = m_strLogPath w \<Longrightarrow> log_ok e w \<Longrightarrow> log_ok e w1"
  by (simp add: log_ok_def)

text \<open>What a calm call can have written to: at most one file, at its end.\<close>

lemma logged_files:
  "files (logged e m s a w) =
     (if e_fopen e (Suc (tick w))
      then (files w)(info_path (m_strLogPath w) (e_tm e (tick w)) :=
        files w (info_path (m_strLogPath w) (e_tm e (tick w))) @
        log_line (e_tm e (tick w)) (e_usec e (tick w + 2)) m s a)
      else files w)"
  by (simp add: logged_def wrote_line_def)

section \<open>One file per hour, one error file per day\<close>

lemma info_path_inject:
  assumes "sane_tm t" "sane_tm u" "info_path p t = info_path p u"
  shows "tm_year t = tm_year u" "tm_mon t = tm_mon u" "tm_mday t = tm_mday u" "tm_hour t = tm_hour u"
proof -
  from assms have "fmt_d0 4 (tm_year t + 1900) = fmt_d0 4 (tm_year u + 1900) \<and>
      fmt_d0 2 (tm_mon t + 1) = fmt_d0 2 (tm_mon u + 1) \<and>
      fmt_d0 2 (tm_mday t) = fmt_d0 2 (tm_mday u) \<and> fmt_d0 2 (tm_hour t) = fmt_d0 2 (tm_hour u)"
    by (simp add: info_path_def fmt_field_length append_eq_append_conv)
  with assms(1,2) show "tm_year t = tm_year u" "tm_mon t = tm_mon u" "tm_mday t = tm_mday u"
    "tm_hour t = tm_hour u"
    by (simp_all add: sane_tm_def fmt_d0_inject)
qed

lemma log_tail_newline: "\<exists>s. log_tail arg = s @ ''\<newline>''"
  by (cases arg) (auto simp: append.assoc [symmetric] simp del: append.assoc)

section \<open>What a clean-up removes\<close>

definition old_log :: "int \<Rightarrow> dirent \<Rightarrow> bool" where
  "old_log limit d \<longleftrightarrow> d_name d \<noteq> ''.'' \<and> d_name d \<noteq> ''..'' \<and>
     (\<exists>mtime. d_stat d = Some (True, mtime) \<and> mtime < limit)"

definition examined :: "dirent list \<Rightarrow> dirent list" where
  "examined = takeWhile (\<lambda>d. d_stat d \<noteq> None)"

lemma newpath_emit [simp]: "newpath (emit ev w) = newpath w"
  by (simp add: newpath_def emit_def fun_eq_iff)

lemma purge_dir_spec:
  "(\<forall>d\<in>set ds. length (newpath w d) < 256) \<Longrightarrow>
   \<exists>w1. purge_dir limit ds w = Some (examined ds = ds, w1) \<and>
     trace w1 = trace w @ map (\<lambda>d. EvUnlink (newpath w d)) (filter (old_log limit) (examined ds)) \<and>
     fds w1 = fds w \<and> m_strLogPath w1 = m_strLogPath w"
proof (induction ds arbitrary: w)
  case Nil
  then show ?case by (simp add: examined_def)
next
  case (Cons d ds)
  let ?w = "emit (EvUnlink (newpath w d)) w"
  have w: "fds ?w = fds w" "m_strLogPath ?w = m_strLogPath w"
    "trace ?w = trace w @ [EvUnlink (newpath w d)]"
    by (simp_all add: emit_def)
  show ?case
  proof (cases "d_stat d")
    case None
    with Cons.prems show ?thesis by (auto simp: examined_def)
  next
    case (Some st)
    obtain isreg mtime where st: "st = (isreg, mtime)" by (cases st)
    show ?thesis
    proof (cases "old_log limit d")
      case True
      then have "purge_dir limit (d # ds) w = purge_dir limit ds ?w"
        using Some st Cons.prems by (auto simp: old_log_def)
      with Cons.IH [of ?w] Cons.prems w Some True show ?thesis
        by (auto simp: examined_def)
    next
      case False
      then have "purge_dir limit (d # ds) w = purge_dir limit ds w"
        using Some st Cons.prems by (auto simp: old_log_def)
      with Cons.IH [of w] Cons.prems Some False show ?thesis
        by (auto simp: examined_def)
    qed
  qed
qed

end
