(* ===== verification/Packet.thy ===== *)
theory Packet
  imports MiscUtil
begin

text \<open>
  \<open>CPacket\<close> (Packet.cpp, Packet.h): one message of the protocol with the manager. A packet is
  filled by the \<open>Write\<close> operations and sent, or received and taken apart by the \<open>Read\<close>
  operations. The buffer \<open>m_strData\<close> is a block of cells, \<open>None\<close> for the null pointer; a cell
  without a value is a byte of fresh memory nobody has set. Every operation returns the C++
  return value (\<open>TRUE\<close>/\<open>FALSE\<close> as a \<open>bool\<close>), its output argument if it has one, the packet and the
  world, and \<open>None\<close> where the C++ code runs out of the buffer or overflows an \<open>int\<close>.
\<close>

section \<open>Constants of packet_common.h\<close>

definition PACKET_SIZE :: nat where "PACKET_SIZE = 4096"
definition SOCKET_BUFFER_SIZE :: int where "SOCKET_BUFFER_SIZE = 64 * 1024"
definition PROTOCOL_VER :: byte where "PROTOCOL_VER = 0x01"
definition CAT_REQUEST :: int where "CAT_REQUEST = 1"
definition REQ_REGISTRY_HEARTBEAT :: int where "REQ_REGISTRY_HEARTBEAT = 0x03"
definition REQ_ALIVE_STATUS :: int where "REQ_ALIVE_STATUS = 0x04"
definition REQ_REFRESH_INFO :: int where "REQ_REFRESH_INFO = 0x05"
definition REQ_METADATA_REPORT :: int where "REQ_METADATA_REPORT = 0x06"
definition REQ_PERF_REPORT :: int where "REQ_PERF_REPORT = 0x32"
definition REQ_SERVER_RESTART :: int where "REQ_SERVER_RESTART = 0x33"
definition ERR_NONE :: int where "ERR_NONE = 0"
definition ERR_FAILED :: int where "ERR_FAILED = 1"

definition BUFFER_BASE_SIZE :: int where "BUFFER_BASE_SIZE = 2048"

section \<open>The object\<close>

record cpacket =
  m_nCategory :: int
  m_nCommand :: int
  m_nClientSockfd :: int
  m_nDataLength :: int
  m_nDataPointer :: int
  m_strData :: "cell list option"
  m_logflag :: int

text \<open>The constructor leaves \<open>m_nClientSockfd\<close> unset: its value is an argument.\<close>

definition CPacket_new :: "int \<Rightarrow> cpacket" where
  "CPacket_new junk =
     \<lparr>m_nCategory = 0, m_nCommand = 0, m_nClientSockfd = junk, m_nDataLength = 0,
      m_nDataPointer = 0, m_strData = None, m_logflag = 1\<rparr>"

definition InitPacket1 :: "int \<Rightarrow> cpacket \<Rightarrow> cpacket" where
  "InitPacket1 client_sockfd p = p\<lparr>m_nClientSockfd := client_sockfd\<rparr>"

definition InitPacket2 :: "int \<Rightarrow> int \<Rightarrow> cpacket \<Rightarrow> cpacket" where
  "InitPacket2 client_sockfd logflag p = p\<lparr>m_nClientSockfd := client_sockfd, m_logflag := logflag\<rparr>"

definition InitPacket3 :: "int \<Rightarrow> int \<Rightarrow> int \<Rightarrow> cpacket \<Rightarrow> cpacket" where
  "InitPacket3 category command client_sockfd p =
     p\<lparr>m_nCategory := category, m_nCommand := command, m_nClientSockfd := client_sockfd\<rparr>"

definition InitPacket4 :: "int \<Rightarrow> int \<Rightarrow> int \<Rightarrow> int \<Rightarrow> cpacket \<Rightarrow> cpacket" where
  "InitPacket4 category command client_sockfd logflag p =
     p\<lparr>m_nCategory := category, m_nCommand := command, m_nClientSockfd := client_sockfd,
       m_logflag := logflag\<rparr>"

section \<open>The buffer\<close>

definition data_cells :: "cpacket \<Rightarrow> cell list" where
  "data_cells p = (case m_strData p of None \<Rightarrow> [] | Some b \<Rightarrow> b)"

text \<open>\<open>memcpy(dst, m_strData + m_nDataPointer, n)\<close>; using an unset byte is undefined.\<close>

definition copy_out :: "int \<Rightarrow> cpacket \<Rightarrow> byte list option" where
  "copy_out n p = Option.bind (peek (m_nDataPointer p) n (data_cells p)) those"

text \<open>\<open>memcpy(m_strData + m_nDataPointer, src, n)\<close> and the advance of the pointer.\<close>

definition copy_in :: "byte list \<Rightarrow> cpacket \<Rightarrow> cpacket option" where
  "copy_in bs p = do {
     blk \<leftarrow> poke (m_nDataPointer p) (map Some bs) (data_cells p);
     ptr \<leftarrow> c_int (m_nDataPointer p + int (length bs));
     Some (p\<lparr>m_strData := Some blk, m_nDataPointer := ptr\<rparr>) }"

text \<open>\<open>new char[n]\<close>, then \<open>memset(m_strData, 0, sizeof(m_strData))\<close>: the size of the pointer.\<close>

definition fresh_block :: "int \<Rightarrow> cell list option" where
  "fresh_block n = poke 0 (replicate 8 (Some 0)) (replicate (nat n) None)"

definition CheckDataExists :: "env \<Rightarrow> int \<Rightarrow> cpacket \<Rightarrow> world \<Rightarrow> (bool \<times> world) option" where
  "CheckDataExists e sz p w = do {
     rest \<leftarrow> c_int (m_nDataLength p - m_nDataPointer p);
     if rest \<ge> sz then Some (True, w)
     else do {
       w \<leftarrow> WriteErrorLog e ''CPacket::CheckDataExists'' (m_nClientSockfd p) (L1 sz) w;
       Some (False, w) } }"

text \<open>The doubling loop; a length past \<open>INT_MAX\<close> or below 0 ends it in undefined behaviour.\<close>

definition next_length :: "cpacket \<Rightarrow> int" where
  "next_length p = (if m_nDataLength p = 0 then BUFFER_BASE_SIZE else m_nDataLength p * 2)"

definition grow :: "cpacket \<Rightarrow> cpacket option" where
  "grow p = do {
     fresh \<leftarrow> fresh_block (next_length p);
     blk \<leftarrow> (case m_strData p of
               None \<Rightarrow> Some fresh
             | Some old \<Rightarrow> Option.bind (peek 0 (m_nDataPointer p) old) (\<lambda>xs. poke 0 xs fresh));
     Some (p\<lparr>m_nDataLength := next_length p, m_strData := Some blk\<rparr>) }"

lemma grow_length:
  "grow p = Some q \<Longrightarrow> m_nDataLength q = next_length p \<and> m_nDataPointer q = m_nDataPointer p"
  by (auto simp: grow_def bind_eq_Some_conv)

function CheckDataBuffer :: "int \<Rightarrow> cpacket \<Rightarrow> cpacket option" where
  "CheckDataBuffer sz p =
     (case c_int (m_nDataLength p - m_nDataPointer p) of
        None \<Rightarrow> None
      | Some rest \<Rightarrow>
          (if rest < sz
           then if m_nDataLength p < 0 \<or> INT_MAX < next_length p then None
                else (case grow p of None \<Rightarrow> None | Some q \<Rightarrow> CheckDataBuffer sz q)
           else Some p))"
  by pat_completeness auto
termination
  by (relation "measure (\<lambda>(sz, p). nat (INT_MAX - m_nDataLength p))")
    (auto simp: INT_MAX_def next_length_def BUFFER_BASE_SIZE_def dest!: grow_length split: if_splits)

declare CheckDataBuffer.simps [simp del]

section \<open>Reading\<close>

definition advance :: "int \<Rightarrow> cpacket \<Rightarrow> cpacket" where
  "advance n p = p\<lparr>m_nDataPointer := m_nDataPointer p + n\<rparr>"

text \<open>\<open>intvalue\<close>, \<open>longvalue\<close>: the values of the output arguments before the call.\<close>

definition ReadTinyInt ::
  "env \<Rightarrow> int \<Rightarrow> cpacket \<Rightarrow> world \<Rightarrow> (bool \<times> int \<times> cpacket \<times> world) option" where
  "ReadTinyInt e intvalue p w = do {
     (ok, w) \<leftarrow> CheckDataExists e 1 p w;
     if \<not> ok then Some (False, intvalue, p, w)
     else do {
       bs \<leftarrow> copy_out 1 p;
       Some (True, sint (of_le bs :: 8 word), advance 1 p, w) } }"

definition ReadShortInt ::
  "env \<Rightarrow> int \<Rightarrow> cpacket \<Rightarrow> world \<Rightarrow> (bool \<times> int \<times> cpacket \<times> world) option" where
  "ReadShortInt e intvalue p w = do {
     (ok, w) \<leftarrow> CheckDataExists e 2 p w;
     if \<not> ok then Some (False, intvalue, p, w)
     else do {
       bs \<leftarrow> copy_out 2 p;
       Some (True, uint (ntohs (of_le bs)), advance 2 p, w) } }"

definition ReadInt ::
  "env \<Rightarrow> int \<Rightarrow> cpacket \<Rightarrow> world \<Rightarrow> (bool \<times> int \<times> cpacket \<times> world) option" where
  "ReadInt e intvalue p w = do {
     (ok, w) \<leftarrow> CheckDataExists e 4 p w;
     if \<not> ok then Some (False, intvalue, p, w)
     else do {
       bs \<leftarrow> copy_out 4 p;
       Some (True, sint (ntohl (of_le bs)), advance 4 p, w) } }"

text \<open>The two halves are copied into the memory of \<open>longvalue\<close>, \<open>highpart\<close> first.\<close>

definition ReadBigInt ::
  "env \<Rightarrow> int \<Rightarrow> cpacket \<Rightarrow> world \<Rightarrow> (bool \<times> int \<times> cpacket \<times> world) option" where
  "ReadBigInt e longvalue p w = do {
     (ok, lowpart, p, w) \<leftarrow> ReadInt e 0 p w;
     if \<not> ok then Some (False, longvalue, p, w)
     else do {
       (ok, highpart, p, w) \<leftarrow> ReadInt e 0 p w;
       if \<not> ok then Some (False, longvalue, p, w)
       else Some (True,
              sint (of_le (to_le 4 (word_of_int highpart :: 32 word) @
                           to_le 4 (word_of_int lowpart :: 32 word)) :: 64 word), p, w) } }"

text \<open>
  The string operations store \<open>size\<close> bytes and a terminating 0 at the caller's pointer; the
  output is what was stored there.
\<close>

definition ReadChar ::
  "env \<Rightarrow> int \<Rightarrow> cpacket \<Rightarrow> world \<Rightarrow> (bool \<times> byte list \<times> cpacket \<times> world) option" where
  "ReadChar e sz p w = do {
     (ok, w) \<leftarrow> CheckDataExists e sz p w;
     if \<not> ok \<or> sz < 0 then Some (False, [], p, w)
     else do {
       bs \<leftarrow> copy_out sz p;
       Some (True, bs @ [0], advance sz p, w) } }"

definition ReadShortString ::
  "env \<Rightarrow> int \<Rightarrow> cpacket \<Rightarrow> world \<Rightarrow> (bool \<times> byte list \<times> cpacket \<times> world) option" where
  "ReadShortString e maxsize p w = do {
     (ok, sz, p, w) \<leftarrow> ReadShortInt e 0 p w;
     if \<not> ok then Some (False, [], p, w)
     else do {
       (ok, w) \<leftarrow> CheckDataExists e sz p w;
       if \<not> ok then Some (False, [], p, w)
       else if sz < 0 \<or> sz > maxsize
       then do {
         w \<leftarrow> WriteErrorLog e ''CPacket::ReadShortString'' (m_nClientSockfd p) (L1 sz) w;
         Some (False, [], p, w) }
       else do {
         bs \<leftarrow> copy_out sz p;
         Some (True, bs @ [0], advance sz p, w) } } }"

definition ReadString ::
  "env \<Rightarrow> int \<Rightarrow> cpacket \<Rightarrow> world \<Rightarrow> (bool \<times> byte list \<times> cpacket \<times> world) option" where
  "ReadString e maxsize p w = do {
     (ok, sz, p, w) \<leftarrow> ReadInt e 0 p w;
     if \<not> ok then Some (False, [], p, w)
     else do {
       (ok, w) \<leftarrow> CheckDataExists e sz p w;
       if \<not> ok then Some (False, [], p, w)
       else if sz < 0 \<or> sz > maxsize
       then do {
         w \<leftarrow> WriteErrorLog e ''CPacket::ReadString'' (m_nClientSockfd p) (L1 sz) w;
         Some (False, [], p, w) }
       else do {
         bs \<leftarrow> copy_out sz p;
         Some (True, bs @ [0], advance sz p, w) } } }"

section \<open>Writing\<close>

definition WriteTinyInt :: "int \<Rightarrow> cpacket \<Rightarrow> (bool \<times> cpacket) option" where
  "WriteTinyInt intvalue p = do {
     p \<leftarrow> CheckDataBuffer 1 p;
     p \<leftarrow> copy_in [word_of_int intvalue] p;
     Some (True, p) }"

definition WriteShortInt :: "int \<Rightarrow> cpacket \<Rightarrow> (bool \<times> cpacket) option" where
  "WriteShortInt intvalue p = do {
     p \<leftarrow> CheckDataBuffer 2 p;
     p \<leftarrow> copy_in (to_le 2 (htons (word_of_int intvalue))) p;
     Some (True, p) }"

definition WriteInt :: "int \<Rightarrow> cpacket \<Rightarrow> (bool \<times> cpacket) option" where
  "WriteInt intvalue p = do {
     p \<leftarrow> CheckDataBuffer 4 p;
     p \<leftarrow> copy_in (to_le 4 (htonl (word_of_int intvalue))) p;
     Some (True, p) }"

definition WriteBigInt :: "int \<Rightarrow> cpacket \<Rightarrow> (bool \<times> cpacket) option" where
  "WriteBigInt longvalue p = do {
     p \<leftarrow> CheckDataBuffer 8 p;
     let mem = to_le 8 (word_of_int longvalue :: 64 word);
     let lowpart = (of_le (take 4 mem) :: 32 word);
     let highpart = (of_le (drop 4 mem) :: 32 word);
     p \<leftarrow> copy_in (to_le 4 (htonl highpart)) p;
     p \<leftarrow> copy_in (to_le 4 (htonl lowpart)) p;
     Some (True, p) }"

text \<open>\<open>charvalue\<close> is the block at the caller's pointer; reading past it is undefined.\<close>

definition WriteChar :: "byte list \<Rightarrow> int \<Rightarrow> cpacket \<Rightarrow> (bool \<times> cpacket) option" where
  "WriteChar charvalue sz p = do {
     p \<leftarrow> CheckDataBuffer sz p;
     bs \<leftarrow> peek 0 sz charvalue;
     p \<leftarrow> copy_in bs p;
     Some (True, p) }"

text \<open>\<open>stringvalue\<close> is the block at the caller's pointer, with the terminating NUL.\<close>

definition WriteString :: "char list \<Rightarrow> cpacket \<Rightarrow> (bool \<times> cpacket) option" where
  "WriteString stringvalue p = do {
     s \<leftarrow> c_str stringvalue;
     let sz = sint (word_of_nat (length s) :: 32 word);
     (ok, p) \<leftarrow> WriteInt sz p;
     if \<not> ok then Some (False, p)
     else do {
       p \<leftarrow> CheckDataBuffer sz p;
       bs \<leftarrow> peek 0 sz (bytes_of s);
       p \<leftarrow> copy_in bs p;
       Some (True, p) } }"

definition WriteShortString :: "char list \<Rightarrow> cpacket \<Rightarrow> (bool \<times> cpacket) option" where
  "WriteShortString stringvalue p = do {
     s \<leftarrow> c_str stringvalue;
     let sz = sint (word_of_nat (length s) :: 32 word);
     (ok, p) \<leftarrow> WriteShortInt sz p;
     if \<not> ok then Some (False, p)
     else do {
       p \<leftarrow> CheckDataBuffer sz p;
       bs \<leftarrow> peek 0 sz (bytes_of s);
       p \<leftarrow> copy_in bs p;
       Some (True, p) } }"

definition IsEOD :: "cpacket \<Rightarrow> bool" where
  "IsEOD p \<longleftrightarrow> m_nDataLength p = m_nDataPointer p"

section \<open>Receiving and sending\<close>

definition hangul_check_error :: string where
  "hangul_check_error =
     [CHR 0xEC, CHR 0xB2, CHR 0xB4, CHR 0xED, CHR 0x81, CHR 0xAC, CHR '' '',
      CHR 0xEC, CHR 0x98, CHR 0xA4, CHR 0xEB, CHR 0xA5, CHR 0x98]"

text \<open>The header: 0xFF 0xFF, version, length of the whole packet, category, command, 0.\<close>

definition header_size :: nat where "header_size = 10"

definition packet_header :: "int \<Rightarrow> cpacket \<Rightarrow> byte list" where
  "packet_header len p =
     [0xFF, 0xFF, PROTOCOL_VER] @ to_le 4 (htonl (word_of_int len)) @
     [word_of_int (m_nCategory p), word_of_int (m_nCommand p), 0]"

text \<open>
  The rest of both receive functions after the checks of the first three header bytes: the
  length field, category and command, the allocation, and the loop that fills the buffer.
  \<open>who\<close> is the name the function logs.
\<close>

definition set_received :: "int \<Rightarrow> byte list \<Rightarrow> cpacket \<Rightarrow> cpacket" where
  "set_received len got p =
     p\<lparr>m_nDataLength := len, m_nDataPointer := int (length got),
       m_strData := Some (map Some got @ replicate (nat len - length got) None)\<rparr>"

definition receive_body ::
  "env \<Rightarrow> string \<Rightarrow> byte list \<Rightarrow> cpacket \<Rightarrow> world \<Rightarrow> (bool \<times> cpacket \<times> world) option" where
  "receive_body e who header p w = do {
     let fd = m_nClientSockfd p;
     let packetlength = ntohl (of_le (take 4 (drop 3 header)));
     let p = p\<lparr>m_nCategory := sint (header ! 7), m_nCommand := sint (header ! 8)\<rparr>;
     len \<leftarrow> c_int (sint packetlength - 10);
     if len < 0
     then do {
       w \<leftarrow> WriteErrorLog e who fd (L3 (''length '' @ hangul_check_error)) w;
       Some (False, p\<lparr>m_nDataLength := len\<rparr>, w) }
     else case read_all (sys_read e fd) (nat len) w of
            (got, Some r, w) \<Rightarrow> do {
              w \<leftarrow> WriteErrorLog e who fd (L3 ''read()'') w;
              Some (False, set_received len got p, w) }
          | (got, None, w) \<Rightarrow> Some (True, set_received len got p, w) }"

definition ReceivePacket :: "env \<Rightarrow> cpacket \<Rightarrow> world \<Rightarrow> (bool \<times> cpacket \<times> world) option" where
  "ReceivePacket e p w = do {
     let fd = m_nClientSockfd p;
     let who = ''CPacket::ReceivePacket'';
     let (r, w) = sys_read e fd header_size w;
     let header = (case r of None \<Rightarrow> [] | Some bs \<Rightarrow> bs);
     if length header \<noteq> header_size
     then do {
       w \<leftarrow> WriteErrorLog e who fd (L3 ''header read()'') w;
       Some (False, p, w) }
     else if header ! 0 \<noteq> 0xFF \<or> header ! 1 \<noteq> 0xFF
     then do {
       w \<leftarrow> WriteErrorLog e who fd (L3 (''header '' @ hangul_check_error)) w;
       Some (False, p, w) }
     else if header ! 2 \<noteq> PROTOCOL_VER
     then do {
       w \<leftarrow> WriteErrorLog e who fd (L3 (''version '' @ hangul_check_error)) w;
       Some (False, p, w) }
     else do {
       (ok, p, w) \<leftarrow> receive_body e who header p w;
       if \<not> ok then Some (False, p, w)
       else do {
         w \<leftarrow> WriteLog e who fd (L1 (m_nCommand p)) w;
         Some (True, p\<lparr>m_nDataPointer := 0\<rparr>, w) } } }"

text \<open>
  \<open>FD_SET\<close> outside \<open>[0, FD_SETSIZE)\<close> is undefined. A wrong magic number is logged and then
  accepted: this function has no \<open>return\<close> there.
\<close>

definition FD_SETSIZE :: int where "FD_SETSIZE = 1024"

definition sys_select :: "env \<Rightarrow> int \<Rightarrow> world \<Rightarrow> (int \<times> world) option" where
  "sys_select e fd w =
     (if 0 \<le> fd \<and> fd < FD_SETSIZE then Some (e_select e (tick w), w\<lparr>tick := Suc (tick w)\<rparr>) else None)"

definition ReceivePacket_Select ::
  "env \<Rightarrow> cpacket \<Rightarrow> world \<Rightarrow> (bool \<times> cpacket \<times> world) option" where
  "ReceivePacket_Select e p w = do {
     let fd = m_nClientSockfd p;
     let who = ''CPacket::ReceivePacket_Select()'';
     (result, w) \<leftarrow> sys_select e fd w;
     if result = 0
     then do {
       w \<leftarrow> WriteErrorLog e ''CPacket::ReceivePacket_Select() - RECEIVE TIMEOUT'' fd L0 w;
       Some (False, p, w) }
     else if result = - 1
     then do {
       w \<leftarrow> WriteErrorLog e ''CPacket::ReceivePacket_Select() - SOCKET CLOSE'' fd L0 w;
       Some (False, p, w) }
     else do {
       let (r, w) = sys_read e fd header_size w;
       let header = (case r of None \<Rightarrow> [] | Some bs \<Rightarrow> bs);
       if length header \<noteq> header_size
       then do {
         w \<leftarrow> WriteErrorLog e who fd (L3 ''header read()'') w;
         Some (False, p, w) }
       else do {
         w \<leftarrow> (if header ! 0 \<noteq> 0xFF \<or> header ! 1 \<noteq> 0xFF
               then WriteErrorLog e ''CPacket::ReceivePacket_Select'' fd
                      (L3 (''header '' @ hangul_check_error)) w
               else Some w);
         if header ! 2 \<noteq> PROTOCOL_VER
         then do {
           w \<leftarrow> WriteErrorLog e who fd (L3 (''version '' @ hangul_check_error)) w;
           Some (False, p, w) }
         else do {
           (ok, p, w) \<leftarrow> receive_body e who header p w;
           if \<not> ok then Some (False, p, w)
           else do {
             w \<leftarrow> (if m_logflag p \<noteq> 0 then WriteLog e who fd (L1 (m_nCommand p)) w else Some w);
             Some (True, p\<lparr>m_nDataPointer := 0\<rparr>, w) } } } } }"

definition SendPacket :: "env \<Rightarrow> cpacket \<Rightarrow> world \<Rightarrow> (bool \<times> world) option" where
  "SendPacket e p w =
     (if m_nCategory p = 0 \<or> m_nCommand p = 0 then Some (False, w)
      else do {
        let fd = m_nClientSockfd p;
        let (nsend, w) = sys_write e fd (packet_header (m_nDataPointer p + 10) p) w;
        if nsend \<noteq> 10
        then do {
          w \<leftarrow> WriteErrorLog e ''CPacket::SendPacket header length '' fd (L1 nsend) w;
          w \<leftarrow> WriteErrorLog e ''CPacket::SendPacket'' fd (L3 ''header write()'') w;
          Some (False, w) }
        else do {
          data \<leftarrow> Option.bind (peek 0 (max 0 (m_nDataPointer p)) (data_cells p)) those;
          case write_all (sys_write e fd) PACKET_SIZE data w of
            (Some r, w) \<Rightarrow> do {
              w \<leftarrow> WriteErrorLog e ''CPacket::SendPacket'' fd (L3 ''write()'') w;
              Some (False, w) }
          | (None, w) \<Rightarrow> Some (True, w) } })"

end
