(* ===== verification/PacketWrite.thy ===== *)
theory PacketWrite
  imports Packet
begin

text \<open>
  The write side of \<open>CPacket\<close>. Abstractly a packet being filled is the list of bytes written so
  far, and every \<open>Write\<close> operation appends the encoding of its argument; the buffer, its
  doubling and the pointer implement that list up to \<open>2 ^ 30\<close> bytes.
\<close>

section \<open>The invariant and the abstraction\<close>

definition wr_ok :: "cpacket \<Rightarrow> bool" where
  "wr_ok p \<longleftrightarrow> 0 \<le> m_nDataPointer p \<and> m_nDataPointer p \<le> m_nDataLength p \<and>
     m_nDataLength p \<le> INT_MAX \<and> int (length (data_cells p)) = m_nDataLength p \<and>
     (m_nDataLength p = 0 \<or> 8 \<le> m_nDataLength p) \<and>
     None \<notin> set (take (nat (m_nDataPointer p)) (data_cells p))"

definition payload :: "cpacket \<Rightarrow> byte list" where
  "payload p = map the (take (nat (m_nDataPointer p)) (data_cells p))"

definition same_id :: "cpacket \<Rightarrow> cpacket \<Rightarrow> bool" where
  "same_id p q \<longleftrightarrow> m_nCategory q = m_nCategory p \<and> m_nCommand q = m_nCommand p \<and>
     m_nClientSockfd q = m_nClientSockfd p \<and> m_logflag q = m_logflag p"

definition appended :: "cpacket \<Rightarrow> cpacket \<Rightarrow> byte list \<Rightarrow> bool" where
  "appended p q bs \<longleftrightarrow> wr_ok q \<and> payload q = payload p @ bs \<and> same_id p q"

lemma length_payload: "wr_ok p \<Longrightarrow> int (length (payload p)) = m_nDataPointer p"
  by (auto simp: wr_ok_def payload_def min_def)

lemma map_Some_the: "None \<notin> set xs \<Longrightarrow> map Some (map the xs) = xs"
  by (induction xs) auto

lemma map_Some_payload:
  "wr_ok p \<Longrightarrow> take (nat (m_nDataPointer p)) (data_cells p) = map Some (payload p)"
  unfolding wr_ok_def payload_def by (metis map_Some_the)

lemma appended_refl: "wr_ok p \<Longrightarrow> appended p p []"
  by (simp add: appended_def same_id_def)

lemma appended_trans: "appended p q bs \<Longrightarrow> appended q r cs \<Longrightarrow> appended p r (bs @ cs)"
  by (simp add: appended_def same_id_def)

lemma wr_ok_new [simp]: "wr_ok (InitPacket3 cat cmd fd (CPacket_new junk))"
  and wr_ok_new4 [simp]: "wr_ok (InitPacket4 cat cmd fd lf (CPacket_new junk))"
  and payload_new [simp]: "payload (InitPacket3 cat cmd fd (CPacket_new junk)) = []"
  and payload_new4 [simp]: "payload (InitPacket4 cat cmd fd lf (CPacket_new junk)) = []"
  by (simp_all add: wr_ok_def payload_def InitPacket3_def InitPacket4_def CPacket_new_def
      data_cells_def INT_MAX_def)

lemma init_sock [simp]:
  "m_nClientSockfd (InitPacket1 fd p) = fd" "m_nClientSockfd (InitPacket2 fd lf p) = fd"
  "m_nClientSockfd (InitPacket3 cat cmd fd p) = fd" "m_nClientSockfd (InitPacket4 cat cmd fd lf p) = fd"
  by (simp_all add: InitPacket1_def InitPacket2_def InitPacket3_def InitPacket4_def)

section \<open>Growing the buffer\<close>

lemma fresh_block_Some:
  "8 \<le> n \<Longrightarrow> \<exists>b. fresh_block n = Some b \<and> int (length b) = n"
  by (auto simp: fresh_block_def poke_def)

lemma next_length_pos: "wr_ok p \<Longrightarrow> 8 \<le> next_length p \<and> m_nDataLength p \<le> next_length p"
  by (auto simp: wr_ok_def next_length_def BUFFER_BASE_SIZE_def)

lemma grow_ok:
  assumes p: "wr_ok p" and le: "next_length p \<le> INT_MAX"
  shows "\<exists>q. grow p = Some q \<and> appended p q [] \<and> m_nDataLength q = next_length p \<and>
    m_nDataPointer q = m_nDataPointer p"
proof -
  from next_length_pos [OF p] obtain b where
    b: "fresh_block (next_length p) = Some b" "int (length b) = next_length p"
    using fresh_block_Some by blast
  let ?ptr = "m_nDataPointer p"
  have ptr: "0 \<le> ?ptr" "?ptr \<le> next_length p" "int (length (data_cells p)) = m_nDataLength p"
    "?ptr \<le> m_nDataLength p"
    using p next_length_pos [OF p] by (auto simp: wr_ok_def)
  let ?blk = "take (nat ?ptr) (data_cells p) @ drop (nat ?ptr) b"
  have "grow p = Some (p\<lparr>m_nDataLength := next_length p, m_strData := Some ?blk\<rparr>)"
  proof (cases "m_strData p")
    case None
    then have "?ptr = 0" using ptr by (auto simp: data_cells_def)
    with None b show ?thesis by (simp add: grow_def data_cells_def)
  next
    case (Some old)
    then have old: "data_cells p = old" by (simp add: data_cells_def)
    have "peek 0 ?ptr old = Some (take (nat ?ptr) old)"
      using ptr old by (simp add: peek_def)
    moreover have "poke 0 (take (nat ?ptr) old) b = Some (take (nat ?ptr) old @ drop (nat ?ptr) b)"
    proof -
      have "length (take (nat ?ptr) old) = nat ?ptr" using ptr old by simp
      then show ?thesis using ptr b by (simp add: poke_def)
    qed
    ultimately show ?thesis using Some b old by (simp add: grow_def)
  qed
  moreover have "take (nat ?ptr) ?blk = take (nat ?ptr) (data_cells p)" "length ?blk = length b"
    using ptr b by (auto simp: min_def)
  ultimately show ?thesis
    using p b ptr le next_length_pos [OF p]
    by (auto simp: appended_def wr_ok_def payload_def data_cells_def same_id_def)
qed

text \<open>
  The loop always makes room, keeps what is written, and never allocates more than twice what
  is needed (or the base size).
\<close>

lemma CheckDataBuffer_ok:
  "wr_ok p \<Longrightarrow> 0 \<le> n \<Longrightarrow> m_nDataPointer p + n \<le> 2 ^ 30 \<Longrightarrow>
   \<exists>q. CheckDataBuffer n p = Some q \<and> appended p q [] \<and> m_nDataPointer q = m_nDataPointer p \<and>
     m_nDataPointer q + n \<le> m_nDataLength q \<and>
     m_nDataLength q \<le> max (m_nDataLength p) (max BUFFER_BASE_SIZE (2 * (m_nDataPointer p + n)))"
proof (induction n p rule: CheckDataBuffer.induct)
  case (1 n p)
  have rng: "c_int (m_nDataLength p - m_nDataPointer p) =
      Some (m_nDataLength p - m_nDataPointer p)"
    using "1.prems"(1) by (auto simp: wr_ok_def c_int_def INT_MAX_def)
  show ?case
  proof (cases "m_nDataLength p - m_nDataPointer p < n")
    case False
    then show ?thesis
      using "1.prems" rng
      by (subst CheckDataBuffer.simps) (auto simp: appended_refl)
  next
    case small: True
    have nl: "0 \<le> m_nDataLength p" "next_length p \<le> INT_MAX"
      "next_length p \<le> max BUFFER_BASE_SIZE (2 * (m_nDataPointer p + n))"
      using "1.prems" small
      by (auto simp: wr_ok_def next_length_def INT_MAX_def BUFFER_BASE_SIZE_def)
    obtain q where q: "grow p = Some q" "appended p q []" "m_nDataLength q = next_length p"
      "m_nDataPointer q = m_nDataPointer p"
      using grow_ok [OF "1.prems"(1) nl(2)] by auto
    have "\<exists>r. CheckDataBuffer n q = Some r \<and> appended q r [] \<and>
        m_nDataPointer r = m_nDataPointer q \<and> m_nDataPointer r + n \<le> m_nDataLength r \<and>
        m_nDataLength r \<le> max (m_nDataLength q) (max BUFFER_BASE_SIZE (2 * (m_nDataPointer q + n)))"
      using "1.IH" [OF rng small _ q(1)] nl "1.prems" q by (auto simp: appended_def)
    then obtain r where r: "CheckDataBuffer n q = Some r" "appended q r []"
        "m_nDataPointer r = m_nDataPointer q" "m_nDataPointer r + n \<le> m_nDataLength r"
        "m_nDataLength r \<le> max (m_nDataLength q) (max BUFFER_BASE_SIZE (2 * (m_nDataPointer q + n)))"
      by blast
    have "CheckDataBuffer n p = CheckDataBuffer n q"
      using rng small nl q(1) by (simp add: CheckDataBuffer.simps [of n p])
    moreover have "appended p r []" using appended_trans [OF q(2) r(2)] by simp
    ultimately show ?thesis using r q nl by auto
  qed
qed

text \<open>
  The limit is sharp: for a buffer grown by the loop itself, the code overflows \<open>m_nDataLength\<close>
  exactly when more than \<open>2 ^ 30\<close> bytes are asked for.
\<close>

definition doubled :: "cpacket \<Rightarrow> bool" where
  "doubled p \<longleftrightarrow> m_nDataLength p = 0 \<or> (\<exists>k. m_nDataLength p = 2048 * 2 ^ k)"

lemma doubled_limit:
  assumes "m_nDataLength p = 2048 * 2 ^ k" "m_nDataLength p \<le> INT_MAX" "\<not> 2 * m_nDataLength p \<le> INT_MAX"
  shows "m_nDataLength p = 2 ^ 30"
proof -
  have len: "m_nDataLength p = 2 ^ (11 + k)" using assms(1) by (simp add: power_add)
  have "(2::int) ^ (11 + k) < 2 ^ 31" using assms(2) len by (simp add: INT_MAX_def)
  then have "11 + k < 31" by (simp only: power_strict_increasing_iff)
  moreover have "(2::int) ^ 31 \<le> 2 ^ (12 + k)"
    using assms(3) len by (simp add: INT_MAX_def power_add)
  then have "31 \<le> 12 + k" by (subst (asm) power_increasing_iff) auto
  ultimately have "11 + k = 30" by simp
  with len show ?thesis by simp
qed

lemma CheckDataBuffer_overflow:
  "wr_ok p \<Longrightarrow> doubled p \<Longrightarrow> 2 ^ 30 < m_nDataPointer p + n \<Longrightarrow> CheckDataBuffer n p = None"
proof (induction n p rule: CheckDataBuffer.induct)
  case (1 n p)
  have rng: "c_int (m_nDataLength p - m_nDataPointer p) =
      Some (m_nDataLength p - m_nDataPointer p)"
    using "1.prems"(1) by (auto simp: wr_ok_def c_int_def INT_MAX_def)
  have len: "0 \<le> m_nDataLength p" "m_nDataLength p \<le> INT_MAX"
    using "1.prems"(1) by (auto simp: wr_ok_def)
  show ?case
  proof (cases "next_length p \<le> INT_MAX")
    case False
    then obtain k where "m_nDataLength p = 2048 * 2 ^ k" "m_nDataLength p \<noteq> 0"
      using "1.prems"(2) by (auto simp: doubled_def next_length_def BUFFER_BASE_SIZE_def INT_MAX_def)
    then have "m_nDataLength p = 2 ^ 30"
      using doubled_limit [of p k] False len by (simp add: next_length_def mult.commute)
    with "1.prems"(3) rng False show ?thesis by (simp add: CheckDataBuffer.simps [of n p])
  next
    case True
    have small: "m_nDataLength p - m_nDataPointer p < n"
    proof (cases "m_nDataLength p = 0")
      case True
      with "1.prems" show ?thesis by (auto simp: wr_ok_def)
    next
      case False
      with True have "2 * m_nDataLength p \<le> INT_MAX" by (simp add: next_length_def mult.commute)
      with "1.prems"(3) show ?thesis by (simp add: INT_MAX_def)
    qed
    obtain q where q: "grow p = Some q" "appended p q []" "m_nDataLength q = next_length p"
      "m_nDataPointer q = m_nDataPointer p"
      using grow_ok [OF "1.prems"(1) True] by auto
    have "doubled q"
    proof (cases "m_nDataLength p = 0")
      case True
      with q(3) have "m_nDataLength q = 2048 * 2 ^ 0"
        by (simp add: next_length_def BUFFER_BASE_SIZE_def)
      then show ?thesis unfolding doubled_def by blast
    next
      case False
      with "1.prems"(2) obtain k where "m_nDataLength p = 2048 * 2 ^ k"
        by (auto simp: doubled_def)
      with False q(3) have "m_nDataLength q = 2048 * 2 ^ Suc k" by (simp add: next_length_def)
      then show ?thesis unfolding doubled_def by blast
    qed
    with "1.IH" [OF rng small _ q(1)] True len "1.prems" q
    have "CheckDataBuffer n q = None" by (auto simp: appended_def)
    with rng small True len q(1) show ?thesis by (simp add: CheckDataBuffer.simps [of n p])
  qed
qed

section \<open>The write operations append\<close>

lemma copy_in_ok:
  assumes p: "wr_ok p" and room: "m_nDataPointer p + int (length bs) \<le> m_nDataLength p"
  shows "\<exists>q. copy_in bs p = Some q \<and> appended p q bs \<and> m_nDataLength q = m_nDataLength p \<and>
    m_nDataPointer q = m_nDataPointer p + int (length bs)"
proof -
  let ?ptr = "m_nDataPointer p" and ?old = "data_cells p"
  have ptr: "0 \<le> ?ptr" "?ptr + int (length bs) \<le> int (length ?old)"
    using p room by (auto simp: wr_ok_def)
  let ?blk = "take (nat ?ptr) ?old @ map Some bs @ drop (nat ?ptr + length bs) ?old"
  have poke: "poke ?ptr (map Some bs) ?old = Some ?blk"
    using ptr by (simp add: poke_def)
  have "c_int (?ptr + int (length bs)) = Some (?ptr + int (length bs))"
    using p room by (auto simp: wr_ok_def c_int_def INT_MAX_def)
  with poke have eq: "copy_in bs p =
      Some (p\<lparr>m_strData := Some ?blk, m_nDataPointer := ?ptr + int (length bs)\<rparr>)"
    by (simp add: copy_in_def)
  have pre: "take (nat (?ptr + int (length bs))) ?blk = take (nat ?ptr) ?old @ map Some bs"
    using ptr take_poke [OF poke] by (simp add: nat_add_distrib)
  have len: "length ?blk = length ?old" using length_poke [OF poke] .
  show ?thesis
    unfolding eq using p room pre len ptr
    by (auto simp: appended_def wr_ok_def payload_def data_cells_def same_id_def comp_def)
qed

lemma room_for:
  assumes "wr_ok p" "length (payload p) + length bs \<le> 2 ^ 30"
  shows "\<exists>q. CheckDataBuffer (int (length bs)) p = Some q \<and> appended p q [] \<and>
    m_nDataPointer q + int (length bs) \<le> m_nDataLength q"
proof -
  have "m_nDataPointer p + int (length bs) \<le> 2 ^ 30"
    using assms(2) length_payload [OF assms(1)] by simp
  with CheckDataBuffer_ok [OF assms(1), of "int (length bs)"] show ?thesis by auto
qed

lemma put_ok:
  assumes "wr_ok p" "length (payload p) + length bs \<le> 2 ^ 30" "n = int (length bs)"
  shows "\<exists>q. Option.bind (CheckDataBuffer n p) (copy_in bs) = Some q \<and> appended p q bs"
proof -
  obtain q where q: "CheckDataBuffer n p = Some q" "appended p q []"
    "m_nDataPointer q + int (length bs) \<le> m_nDataLength q"
    using room_for [OF assms(1,2)] assms(3) by auto
  then obtain r where "copy_in bs q = Some r" "appended q r bs"
    using copy_in_ok [of q bs] by (auto simp: appended_def)
  with q appended_trans [OF q(2)] show ?thesis by fastforce
qed

text \<open>
  What a \<open>Write\<close> operation promises to the code that fills a packet: on a packet with room it
  returns \<open>TRUE\<close> and appends the encoding of its argument.
\<close>

locale field_writer =
  fixes wr :: "'v \<Rightarrow> cpacket \<Rightarrow> (bool \<times> cpacket) option"
    and enc :: "'v \<Rightarrow> byte list"
    and valid :: "'v \<Rightarrow> bool"
  assumes wr_appends: "wr_ok p \<Longrightarrow> valid v \<Longrightarrow> length (payload p) + length (enc v) \<le> 2 ^ 30 \<Longrightarrow>
     \<exists>q. wr v p = Some (True, q) \<and> appended p q (enc v)"

text \<open>Writing several values, as the command functions do, stopping at the first \<open>FALSE\<close>.\<close>

fun write_seq ::
  "('v \<Rightarrow> cpacket \<Rightarrow> (bool \<times> cpacket) option) \<Rightarrow> 'v list \<Rightarrow> cpacket \<Rightarrow> (bool \<times> cpacket) option" where
  "write_seq wr [] p = Some (True, p)"
| "write_seq wr (v # vs) p = do {
     (ok, p) \<leftarrow> wr v p;
     if \<not> ok then Some (False, p) else write_seq wr vs p }"

context field_writer begin

lemma write_seq_appends:
  "wr_ok p \<Longrightarrow> (\<forall>v\<in>set vs. valid v) \<Longrightarrow>
   length (payload p) + length (concat (map enc vs)) \<le> 2 ^ 30 \<Longrightarrow>
   \<exists>q. write_seq wr vs p = Some (True, q) \<and> appended p q (concat (map enc vs))"
proof (induction vs arbitrary: p)
  case Nil
  then show ?case by (simp add: appended_refl)
next
  case (Cons v vs)
  then obtain q where q: "wr v p = Some (True, q)" "appended p q (enc v)"
    using wr_appends [of p v] by auto
  with Cons.prems have "wr_ok q" "length (payload q) + length (concat (map enc vs)) \<le> 2 ^ 30"
    by (auto simp: appended_def)
  with Cons.IH [of q] Cons.prems obtain r where
    "write_seq wr vs q = Some (True, r)" "appended q r (concat (map enc vs))"
    by auto
  with q appended_trans [OF q(2)] show ?case by auto
qed

end

text \<open>The encodings.\<close>

definition enc_tiny :: "int \<Rightarrow> byte list" where "enc_tiny v = [word_of_int v]"
definition enc_short :: "int \<Rightarrow> byte list" where "enc_short v = be16 (word_of_int v)"
definition enc_int :: "int \<Rightarrow> byte list" where "enc_int v = be32 (word_of_int v)"
definition enc_big :: "int \<Rightarrow> byte list" where "enc_big v = rev (to_le 8 (word_of_int v :: 64 word))"
definition enc_str :: "string \<Rightarrow> byte list" where
  "enc_str s = enc_int (int (length s)) @ bytes_of s"
definition enc_short_str :: "string \<Rightarrow> byte list" where
  "enc_short_str s = enc_short (int (length s)) @ bytes_of s"

lemma length_enc [simp]:
  "length (enc_tiny v) = 1" "length (enc_short v) = 2" "length (enc_int v) = 4"
  "length (enc_big v) = 8" "length (enc_str s) = 4 + length s"
  "length (enc_short_str s) = 2 + length s"
  by (simp_all add: enc_tiny_def enc_short_def enc_int_def enc_big_def enc_str_def enc_short_str_def)

interpretation tiny_writer: field_writer WriteTinyInt enc_tiny "\<lambda>_. True"
proof
  fix p and v :: int
  assume "wr_ok p" "length (payload p) + length (enc_tiny v) \<le> 2 ^ 30"
  with put_ok [of p "enc_tiny v" 1] show
    "\<exists>q. WriteTinyInt v p = Some (True, q) \<and> appended p q (enc_tiny v)"
    by (auto simp: WriteTinyInt_def enc_tiny_def bind_eq_Some_conv)
qed

interpretation short_writer: field_writer WriteShortInt enc_short "\<lambda>_. True"
proof
  fix p and v :: int
  assume "wr_ok p" "length (payload p) + length (enc_short v) \<le> 2 ^ 30"
  with put_ok [of p "enc_short v" 2] show
    "\<exists>q. WriteShortInt v p = Some (True, q) \<and> appended p q (enc_short v)"
    by (auto simp: WriteShortInt_def enc_short_def to_le_htons bind_eq_Some_conv)
qed

interpretation int_writer: field_writer WriteInt enc_int "\<lambda>_. True"
proof
  fix p and v :: int
  assume "wr_ok p" "length (payload p) + length (enc_int v) \<le> 2 ^ 30"
  with put_ok [of p "enc_int v" 4] show
    "\<exists>q. WriteInt v p = Some (True, q) \<and> appended p q (enc_int v)"
    by (auto simp: WriteInt_def enc_int_def to_le_htonl bind_eq_Some_conv)
qed

text \<open>A 64-bit value goes out as its high half, then its low half: eight bytes, big-endian.\<close>

lemma to_le_of_le_take:
  "length bs = 8 \<Longrightarrow>
   to_le 4 (htonl (of_le (drop 4 bs))) @ to_le 4 (htonl (of_le (take 4 bs))) = rev bs"
  by (simp add: to_le_htonl to_le_of_le_n rev_append [symmetric])

interpretation big_writer: field_writer WriteBigInt enc_big "\<lambda>_. True"
proof
  fix p and v :: int
  assume p: "wr_ok p" and le: "length (payload p) + length (enc_big v) \<le> 2 ^ 30"
  let ?mem = "to_le 8 (word_of_int v :: 64 word)"
  let ?hi = "to_le 4 (htonl (of_le (drop 4 ?mem)))" and ?lo = "to_le 4 (htonl (of_le (take 4 ?mem)))"
  obtain q where q: "CheckDataBuffer 8 p = Some q" "appended p q []"
    "m_nDataPointer q + 8 \<le> m_nDataLength q"
    using room_for [OF p, of "enc_big v"] le by auto
  then obtain r where r: "copy_in ?hi q = Some r" "appended q r ?hi"
    "m_nDataLength r = m_nDataLength q" "m_nDataPointer r = m_nDataPointer q + 4"
    using copy_in_ok [of q ?hi] by (auto simp: appended_def)
  then obtain t where t: "copy_in ?lo r = Some t" "appended r t ?lo"
    using copy_in_ok [of r ?lo] q by (auto simp: appended_def)
  have "appended p t (enc_big v)"
    using appended_trans [OF q(2) appended_trans [OF r(2) t(2)]]
    by (simp add: enc_big_def to_le_of_le_take)
  with q r t show "\<exists>q. WriteBigInt v p = Some (True, q) \<and> appended p q (enc_big v)"
    by (simp add: WriteBigInt_def)
qed

text \<open>A string that fits an \<open>int\<close> length; the short form keeps 16 bits of the length.\<close>

lemma size_as_int: "length s \<le> 2 ^ 30 \<Longrightarrow> sint (word_of_nat (length s) :: 32 word) = int (length s)"
proof -
  assume "length s \<le> 2 ^ 30"
  then have "int_range (int (length s))" by simp
  then show ?thesis using sint_word_of_int_32 [of "int (length s)"] by simp
qed

lemma string_body_ok:
  assumes wr: "field_writer wr enc (\<lambda>_. True)"
    and p: "wr_ok p" and blk: "c_str blk = Some s"
    and le: "length (payload p) + (length (enc (int (length s))) + length s) \<le> 2 ^ 30"
  shows "\<exists>q r. wr (int (length s)) p = Some (True, q) \<and>
    Option.bind (CheckDataBuffer (int (length s)) q) (copy_in (bytes_of s)) = Some r \<and>
    appended p r (enc (int (length s)) @ bytes_of s)"
proof -
  obtain q where q: "wr (int (length s)) p = Some (True, q)" "appended p q (enc (int (length s)))"
    using field_writer.wr_appends [OF wr p, of "int (length s)"] le by auto
  then have "wr_ok q" "length (payload q) + length (bytes_of s) \<le> 2 ^ 30"
    using le by (auto simp: appended_def)
  from put_ok [OF this, of "int (length s)"] obtain r where
    "Option.bind (CheckDataBuffer (int (length s)) q) (copy_in (bytes_of s)) = Some r"
    "appended q r (bytes_of s)"
    by auto
  with q appended_trans [OF q(2)] show ?thesis by blast
qed

definition str_arg :: "char list \<Rightarrow> string" where
  "str_arg blk = (case c_str blk of None \<Rightarrow> [] | Some s \<Rightarrow> s)"

lemma peek_all_bytes: "peek 0 (int (length s)) (bytes_of s) = Some (bytes_of s)"
  by (simp add: peek_all)

interpretation str_writer: field_writer WriteString "\<lambda>blk. enc_str (str_arg blk)" "\<lambda>blk. c_str blk \<noteq> None"
proof
  fix p blk
  assume p: "wr_ok p" and "c_str blk \<noteq> None"
    and le: "length (payload p) + length (enc_str (str_arg blk)) \<le> 2 ^ 30"
  then obtain s where s: "c_str blk = Some s" by auto
  with le have le': "length (payload p) + (length (enc_int (int (length s))) + length s) \<le> 2 ^ 30"
    by (simp add: str_arg_def)
  then have sz: "sint (word_of_nat (length s) :: 32 word) = int (length s)"
    by (intro size_as_int) simp
  from string_body_ok [OF int_writer.field_writer_axioms p s le'] obtain q r where
    "WriteInt (int (length s)) p = Some (True, q)"
    "Option.bind (CheckDataBuffer (int (length s)) q) (copy_in (bytes_of s)) = Some r"
    "appended p r (enc_str s)"
    by (auto simp: enc_str_def)
  with s sz show "\<exists>q. WriteString blk p = Some (True, q) \<and> appended p q (enc_str (str_arg blk))"
    by (auto simp: WriteString_def str_arg_def bind_eq_Some_conv peek_all_bytes)
qed

interpretation short_str_writer:
  field_writer WriteShortString "\<lambda>blk. enc_short_str (str_arg blk)" "\<lambda>blk. c_str blk \<noteq> None"
proof
  fix p blk
  assume p: "wr_ok p" and "c_str blk \<noteq> None"
    and le: "length (payload p) + length (enc_short_str (str_arg blk)) \<le> 2 ^ 30"
  then obtain s where s: "c_str blk = Some s" by auto
  with le have le': "length (payload p) + (length (enc_short (int (length s))) + length s) \<le> 2 ^ 30"
    by (simp add: str_arg_def)
  then have sz: "sint (word_of_nat (length s) :: 32 word) = int (length s)"
    by (intro size_as_int) simp
  from string_body_ok [OF short_writer.field_writer_axioms p s le'] obtain q r where
    "WriteShortInt (int (length s)) p = Some (True, q)"
    "Option.bind (CheckDataBuffer (int (length s)) q) (copy_in (bytes_of s)) = Some r"
    "appended p r (enc_short_str s)"
    by (auto simp: enc_short_str_def)
  with s sz show
    "\<exists>q. WriteShortString blk p = Some (True, q) \<and> appended p q (enc_short_str (str_arg blk))"
    by (auto simp: WriteShortString_def str_arg_def bind_eq_Some_conv peek_all_bytes)
qed

end
