(* ===== verification/PacketRead.thy ===== *)
theory PacketRead
  imports PacketWrite
begin

text \<open>
  The read side of \<open>CPacket\<close>. Abstractly a received packet is the list of bytes not read yet; a
  \<open>Read\<close> operation takes a prefix of it or, when too little is left, logs, returns \<open>FALSE\<close> and
  takes nothing. The content comes from the network, so nothing is assumed of it.
\<close>

section \<open>The invariant and the abstraction\<close>

definition rd_ok :: "cpacket \<Rightarrow> bool" where
  "rd_ok p \<longleftrightarrow> 0 \<le> m_nDataPointer p \<and> m_nDataPointer p \<le> m_nDataLength p \<and>
     m_nDataLength p \<le> INT_MAX \<and> int (length (data_cells p)) = m_nDataLength p \<and>
     None \<notin> set (data_cells p)"

definition remaining :: "cpacket \<Rightarrow> byte list" where
  "remaining p = map the (drop (nat (m_nDataPointer p)) (data_cells p))"

definition taken :: "cpacket \<Rightarrow> cpacket \<Rightarrow> byte list \<Rightarrow> bool" where
  "taken p q rest \<longleftrightarrow> rd_ok q \<and> remaining q = rest \<and> same_id p q"

definition shrunk :: "cpacket \<Rightarrow> cpacket \<Rightarrow> bool" where
  "shrunk p q \<longleftrightarrow> (\<exists>k. taken p q (drop k (remaining p)))"

lemma length_remaining: "rd_ok p \<Longrightarrow> int (length (remaining p)) = m_nDataLength p - m_nDataPointer p"
  by (auto simp: rd_ok_def remaining_def)

lemma same_id_refl [simp]: "same_id p p"
  by (simp add: same_id_def)

lemma same_id_trans: "same_id p q \<Longrightarrow> same_id q r \<Longrightarrow> same_id p r"
  by (simp add: same_id_def)

lemma same_id_sock: "same_id p q \<Longrightarrow> m_nClientSockfd q = m_nClientSockfd p"
  by (simp add: same_id_def)

lemma IsEOD_remaining: "rd_ok p \<Longrightarrow> IsEOD p \<longleftrightarrow> remaining p = []"
  using length_remaining [of p] by (auto simp: IsEOD_def)

lemma CheckDataExists_eq:
  assumes "rd_ok p" "log_ok e w"
  shows "CheckDataExists e n p w =
    (if n \<le> int (length (remaining p)) then Some (True, w)
     else Some (False, err_logged e ''CPacket::CheckDataExists'' (m_nClientSockfd p) (L1 n) w))"
proof -
  have "c_int (m_nDataLength p - m_nDataPointer p) = Some (m_nDataLength p - m_nDataPointer p)"
    using assms(1) by (auto simp: rd_ok_def c_int_def INT_MAX_def)
  then show ?thesis
    using length_remaining [OF assms(1)] assms(2) by (simp add: CheckDataExists_def)
qed

lemma copy_out_ok:
  assumes p: "rd_ok p" and n: "0 \<le> n" "n \<le> int (length (remaining p))"
  shows "copy_out n p = Some (take (nat n) (remaining p))"
proof -
  have "peek (m_nDataPointer p) n (data_cells p) =
      Some (take (nat n) (drop (nat (m_nDataPointer p)) (data_cells p)))"
    using p n length_remaining [OF p] by (auto simp: rd_ok_def peek_def)
  moreover have "drop (nat (m_nDataPointer p)) (data_cells p) = map Some (remaining p)"
  proof -
    have "None \<notin> set (drop (nat (m_nDataPointer p)) (data_cells p))"
      using p by (auto simp: rd_ok_def dest: in_set_dropD)
    then show ?thesis unfolding remaining_def by (rule map_Some_the [symmetric])
  qed
  ultimately show ?thesis by (simp add: copy_out_def take_map)
qed

lemma advance_ok:
  assumes p: "rd_ok p" and n: "0 \<le> n" "n \<le> int (length (remaining p))"
  shows "taken p (advance n p) (drop (nat n) (remaining p))"
  using p n length_remaining [OF p]
  by (auto simp: taken_def rd_ok_def advance_def remaining_def data_cells_def same_id_def
      drop_map nat_add_distrib add.commute)

lemma shrunk_refl: "rd_ok p \<Longrightarrow> shrunk p p"
  unfolding shrunk_def taken_def by (rule exI [of _ 0]) simp

lemma shrunk_trans: "shrunk p q \<Longrightarrow> shrunk q r \<Longrightarrow> shrunk p r"
  unfolding shrunk_def taken_def by (metis drop_drop same_id_trans)

lemma shrunk_rd_ok: "shrunk p q \<Longrightarrow> rd_ok q"
  by (auto simp: shrunk_def taken_def)

lemma shrunk_same_id: "shrunk p q \<Longrightarrow> same_id p q"
  by (auto simp: shrunk_def taken_def)

lemma shrunk_advance: "rd_ok p \<Longrightarrow> 0 \<le> n \<Longrightarrow> n \<le> int (length (remaining p)) \<Longrightarrow> shrunk p (advance n p)"
  unfolding shrunk_def using advance_ok by blast

section \<open>Each operation on a received packet, on both branches\<close>

definition too_short :: "env \<Rightarrow> cpacket \<Rightarrow> int \<Rightarrow> world \<Rightarrow> world" where
  "too_short e p n w =
     err_logged e ''CPacket::CheckDataExists'' (m_nClientSockfd p) (L1 n) w"

lemma ReadTinyInt_eq:
  assumes "rd_ok p" "log_ok e w"
  shows "ReadTinyInt e v p w =
    (if 1 \<le> length (remaining p)
     then Some (True, sint (of_le (take 1 (remaining p)) :: byte), advance 1 p, w)
     else Some (False, v, p, too_short e p 1 w))"
  using assms by (simp add: ReadTinyInt_def CheckDataExists_eq copy_out_ok too_short_def)

lemma ReadShortInt_eq:
  assumes "rd_ok p" "log_ok e w"
  shows "ReadShortInt e v p w =
    (if 2 \<le> length (remaining p)
     then Some (True, uint (ntohs (of_le (take 2 (remaining p)))), advance 2 p, w)
     else Some (False, v, p, too_short e p 2 w))"
  using assms by (simp add: ReadShortInt_def CheckDataExists_eq copy_out_ok too_short_def)

lemma ReadInt_eq:
  assumes "rd_ok p" "log_ok e w"
  shows "ReadInt e v p w =
    (if 4 \<le> length (remaining p)
     then Some (True, sint (ntohl (of_le (take 4 (remaining p)))), advance 4 p, w)
     else Some (False, v, p, too_short e p 4 w))"
  using assms by (simp add: ReadInt_def CheckDataExists_eq copy_out_ok too_short_def)

lemma ReadChar_eq:
  assumes "rd_ok p" "log_ok e w"
  shows "ReadChar e n p w =
    (if n < 0 then Some (False, [], p, w)
     else if n \<le> int (length (remaining p))
     then Some (True, take (nat n) (remaining p) @ [0], advance n p, w)
     else Some (False, [], p, too_short e p n w))"
  using assms by (simp add: ReadChar_def CheckDataExists_eq copy_out_ok too_short_def)

text \<open>What the two string readers do once the size has been read.\<close>

definition read_sized ::
  "env \<Rightarrow> string \<Rightarrow> int \<Rightarrow> int \<Rightarrow> cpacket \<Rightarrow> world \<Rightarrow> bool \<times> byte list \<times> cpacket \<times> world" where
  "read_sized e who maxsize sz p w =
     (if int (length (remaining p)) < sz then (False, [], p, too_short e p sz w)
      else if sz < 0 \<or> maxsize < sz
      then (False, [], p, err_logged e who (m_nClientSockfd p) (L1 sz) w)
      else (True, take (nat sz) (remaining p) @ [0], advance sz p, w))"

lemma ReadString_eq:
  assumes "rd_ok p" "log_ok e w"
  shows "ReadString e maxsize p w =
    (if 4 \<le> length (remaining p)
     then Some (read_sized e ''CPacket::ReadString'' maxsize
                  (sint (ntohl (of_le (take 4 (remaining p))))) (advance 4 p) w)
     else Some (False, [], p, too_short e p 4 w))"
  using assms advance_ok [OF assms(1), of 4]
  by (auto simp: ReadString_def ReadInt_eq read_sized_def CheckDataExists_eq copy_out_ok
      taken_def too_short_def)

lemma ReadShortString_eq:
  assumes "rd_ok p" "log_ok e w"
  shows "ReadShortString e maxsize p w =
    (if 2 \<le> length (remaining p)
     then Some (read_sized e ''CPacket::ReadShortString'' maxsize
                  (uint (ntohs (of_le (take 2 (remaining p))))) (advance 2 p) w)
     else Some (False, [], p, too_short e p 2 w))"
  using assms advance_ok [OF assms(1), of 2]
  by (auto simp: ReadShortString_def ReadShortInt_eq read_sized_def CheckDataExists_eq copy_out_ok
      taken_def too_short_def)

lemma ReadBigInt_eq:
  assumes "rd_ok p" "log_ok e w"
  shows "ReadBigInt e v p w =
    (if 8 \<le> length (remaining p)
     then Some (True, sint (of_le (rev (take 8 (remaining p))) :: 64 word), advance 8 p, w)
     else if 4 \<le> length (remaining p)
     then Some (False, v, advance 4 p, too_short e (advance 4 p) 4 w)
     else Some (False, v, p, too_short e p 4 w))"
proof -
  have adv: "4 \<le> length (remaining p) \<Longrightarrow>
      rd_ok (advance 4 p) \<and> remaining (advance 4 p) = drop 4 (remaining p)"
    using advance_ok [OF assms(1), of 4] by (simp add: taken_def)
  have "advance 4 (advance 4 p) = advance 8 p" by (simp add: advance_def)
  moreover have half: "to_le 4 (word_of_int (sint (ntohl (of_le bs))) :: 32 word) = rev bs"
    if "length bs = 4" for bs
    using that by (simp add: ntohl_def bswap_of_le to_le_of_le_n)
  moreover have "take 8 (remaining p) = take 4 (remaining p) @ take 4 (drop 4 (remaining p))"
    by (simp add: take_add [symmetric])
  ultimately show ?thesis
    using assms adv by (auto simp: ReadBigInt_def ReadInt_eq)
qed

section \<open>The contract of a reader\<close>

text \<open>
  On any content: the operation ends without undefined behaviour, what is left is a suffix of
  what was there, and nothing but the log changes. On the encoding of a valid value: it
  returns that value and takes exactly its encoding.
\<close>

locale field_reader =
  fixes rd :: "env \<Rightarrow> cpacket \<Rightarrow> world \<Rightarrow> (bool \<times> 'o \<times> cpacket \<times> world) option"
    and enc :: "'v \<Rightarrow> byte list"
    and out :: "'v \<Rightarrow> 'o"
    and valid :: "'v \<Rightarrow> bool"
  assumes rd_total: "rd_ok p \<Longrightarrow> log_ok e w \<Longrightarrow>
      \<exists>ok v q w1. rd e p w = Some (ok, v, q, w1) \<and> shrunk p q \<and> calm w w1"
    and rd_takes: "rd_ok p \<Longrightarrow> log_ok e w \<Longrightarrow> valid v \<Longrightarrow> remaining p = enc v @ rest \<Longrightarrow>
      \<exists>q. rd e p w = Some (True, out v, q, w) \<and> taken p q rest"

section \<open>The readers meet it\<close>

lemma too_short_calm [simp]: "calm w (too_short e p n w)"
  by (simp add: too_short_def)

text \<open>A decoder of a fixed number of bytes, given by its equation, meets the contract.\<close>

lemma fixed_reader:
  assumes eq: "\<And>e p w. rd_ok p \<Longrightarrow> log_ok e w \<Longrightarrow> rd e p w =
      (if n \<le> length (remaining p)
       then Some (True, decode (take n (remaining p)), advance (int n) p, w)
       else Some (False, dflt, p, too_short e p (int n) w))"
    and len: "\<And>v. length (enc v) = n" and inv: "\<And>v. decode (enc v) = out v"
  shows "field_reader rd enc out (\<lambda>_. True)"
proof
  fix p e w
  assume p: "rd_ok p" "log_ok e w"
  show "\<exists>ok v q w1. rd e p w = Some (ok, v, q, w1) \<and> shrunk p q \<and> calm w w1"
    using shrunk_advance [OF p(1), of "int n"] shrunk_refl [OF p(1)] by (simp add: eq [OF p] ex_bool_eq)
next
  fix p e w v rest
  assume p: "rd_ok p" "log_ok e w" and r: "remaining p = enc v @ rest"
  then have "taken p (advance (int n) p) (drop n (remaining p))"
    using advance_ok [OF p(1), of "int n"] len by simp
  then show "\<exists>q. rd e p w = Some (True, out v, q, w) \<and> taken p q rest"
    using r len inv by (simp add: eq [OF p])
qed

definition out_tiny :: "int \<Rightarrow> int" where "out_tiny v = sint (word_of_int v :: 8 word)"
definition out_short :: "int \<Rightarrow> int" where "out_short v = v mod 2 ^ 16"
definition out_int :: "int \<Rightarrow> int" where "out_int v = sint (word_of_int v :: 32 word)"
definition out_big :: "int \<Rightarrow> int" where "out_big v = sint (word_of_int v :: 64 word)"

lemma out_int_id [simp]: "int_range v \<Longrightarrow> out_int v = v"
  by (simp add: out_int_def sint_word_of_int_32)

lemma out_big_id: "- (2 ^ 63) \<le> v \<Longrightarrow> v < 2 ^ 63 \<Longrightarrow> out_big v = v"
  unfolding out_big_def by transfer (simp add: signed_take_bit_int_eq_self)

lemma out_tiny_id: "- 128 \<le> v \<Longrightarrow> v < 128 \<Longrightarrow> out_tiny v = v"
  unfolding out_tiny_def by transfer (simp add: signed_take_bit_int_eq_self)

lemma out_short_id: "0 \<le> v \<Longrightarrow> v < 2 ^ 16 \<Longrightarrow> out_short v = v"
  by (simp add: out_short_def)

interpretation tiny_reader:
  field_reader "\<lambda>e p w. ReadTinyInt e v0 p w" enc_tiny out_tiny "\<lambda>_. True" for v0
  by (rule fixed_reader [where n = 1 and dflt = v0 and decode = "\<lambda>bs. sint (of_le bs :: byte)"])
    (simp_all add: ReadTinyInt_eq enc_tiny_def out_tiny_def)

interpretation short_reader:
  field_reader "\<lambda>e p w. ReadShortInt e v0 p w" enc_short out_short "\<lambda>_. True" for v0
  by (rule fixed_reader [where n = 2 and dflt = v0 and decode = "\<lambda>bs. uint (ntohs (of_le bs))"])
    (simp_all add: ReadShortInt_eq enc_short_def ntohs_of_be16 out_short_def uint_word_of_int)

interpretation int_reader:
  field_reader "\<lambda>e p w. ReadInt e v0 p w" enc_int out_int "\<lambda>_. True" for v0
  by (rule fixed_reader [where n = 4 and dflt = v0 and decode = "\<lambda>bs. sint (ntohl (of_le bs))"])
    (simp_all add: ReadInt_eq enc_int_def ntohl_of_be32 out_int_def)

lemma read_sized_total:
  assumes p: "rd_ok p" and s: "read_sized e who maxsize sz p w = (ok, v, q, w1)"
  shows "shrunk p q \<and> calm w w1 \<and> int (length v) \<le> max 0 (maxsize + 1) \<and> (ok \<longleftrightarrow> v \<noteq> [])"
  using s shrunk_refl [OF p] shrunk_advance [OF p, of sz]
  by (auto simp: read_sized_def split: if_splits)

lemma read_sized_after:
  assumes p: "rd_ok p" and n: "0 \<le> n" "n \<le> int (length (remaining p))"
  shows "\<exists>ok v q w1. read_sized e who maxsize sz (advance n p) w = (ok, v, q, w1) \<and>
    shrunk p q \<and> calm w w1 \<and> int (length v) \<le> max 0 (maxsize + 1) \<and> (ok \<longleftrightarrow> v \<noteq> [])"
proof -
  have adv: "shrunk p (advance n p)" using shrunk_advance [OF p n] .
  obtain ok v q w1 where s: "read_sized e who maxsize sz (advance n p) w = (ok, v, q, w1)"
    by (metis prod_cases4)
  from read_sized_total [OF shrunk_rd_ok [OF adv] s] shrunk_trans [OF adv] s show ?thesis by simp
qed

text \<open>On any content, at most \<open>maxsize\<close> bytes and the terminating 0 are stored.\<close>

lemma ReadString_total:
  assumes p: "rd_ok p" "log_ok e w"
  shows "\<exists>ok v q w1. ReadString e maxsize p w = Some (ok, v, q, w1) \<and> shrunk p q \<and> calm w w1 \<and>
    int (length v) \<le> max 0 (maxsize + 1) \<and> (ok \<longleftrightarrow> v \<noteq> [])"
  using read_sized_after [OF p(1), of 4 e "''CPacket::ReadString''" maxsize
      "sint (ntohl (of_le (take 4 (remaining p))))" w] shrunk_refl [OF p(1)]
  by (simp add: ReadString_eq [OF p])

lemma ReadShortString_total:
  assumes p: "rd_ok p" "log_ok e w"
  shows "\<exists>ok v q w1. ReadShortString e maxsize p w = Some (ok, v, q, w1) \<and> shrunk p q \<and> calm w w1 \<and>
    int (length v) \<le> max 0 (maxsize + 1) \<and> (ok \<longleftrightarrow> v \<noteq> [])"
  using read_sized_after [OF p(1), of 2 e "''CPacket::ReadShortString''" maxsize
      "uint (ntohs (of_le (take 2 (remaining p))))" w] shrunk_refl [OF p(1)]
  by (simp add: ReadShortString_eq [OF p])

text \<open>A sized read of an encoded string.\<close>

lemma read_sized_takes:
  assumes p: "rd_ok p" and r: "remaining p = bytes_of s @ rest"
    and le: "int (length s) \<le> maxsize"
  shows "\<exists>q. read_sized e who maxsize (int (length s)) p w = (True, bytes_of s @ [0], q, w) \<and>
    taken p q rest"
  using advance_ok [OF p, of "int (length s)"] r le by (auto simp: read_sized_def)

interpretation str_reader:
  field_reader "\<lambda>e p w. ReadString e maxsize p w" "\<lambda>blk. enc_str (str_arg blk)"
    "\<lambda>blk. bytes_of (str_arg blk) @ [0]" "\<lambda>blk. int (length (str_arg blk)) \<le> min maxsize INT_MAX"
    for maxsize
proof
  fix p e w
  assume "rd_ok p" "log_ok e w"
  from ReadString_total [OF this, of maxsize] show "\<exists>ok v q w1.
      ReadString e maxsize p w = Some (ok, v, q, w1) \<and> shrunk p q \<and> calm w w1"
    by blast
next
  fix p e w v rest
  let ?s = "str_arg v"
  assume p: "rd_ok p" "log_ok e w" and le: "int (length ?s) \<le> min maxsize INT_MAX"
    and r: "remaining p = enc_str ?s @ rest"
  have adv: "taken p (advance 4 p) (bytes_of ?s @ rest)"
    using advance_ok [OF p(1), of 4] r by (simp add: enc_str_def)
  from read_sized_takes [of "advance 4 p" ?s rest maxsize e "''CPacket::ReadString''" w] adv le obtain q where
    "read_sized e ''CPacket::ReadString'' maxsize (int (length ?s)) (advance 4 p) w =
       (True, bytes_of ?s @ [0], q, w)" "taken (advance 4 p) q rest"
    by (auto simp: taken_def)
  moreover have "sint (ntohl (of_le (take 4 (remaining p)))) = int (length ?s)"
    using r le sint_word_of_int_32 [of "int (length ?s)"]
    by (simp add: enc_str_def enc_int_def ntohl_of_be32 INT_MAX_def)
  ultimately show "\<exists>q. ReadString e maxsize p w = Some (True, bytes_of ?s @ [0], q, w) \<and> taken p q rest"
    using adv r by (auto simp: ReadString_eq [OF p] taken_def intro: same_id_trans)
qed

interpretation short_str_reader:
  field_reader "\<lambda>e p w. ReadShortString e maxsize p w" "\<lambda>blk. enc_short_str (str_arg blk)"
    "\<lambda>blk. bytes_of (str_arg blk) @ [0]" "\<lambda>blk. int (length (str_arg blk)) \<le> min maxsize 65535"
    for maxsize
proof
  fix p e w
  assume "rd_ok p" "log_ok e w"
  from ReadShortString_total [OF this, of maxsize] show "\<exists>ok v q w1.
      ReadShortString e maxsize p w = Some (ok, v, q, w1) \<and> shrunk p q \<and> calm w w1"
    by blast
next
  fix p e w v rest
  let ?s = "str_arg v"
  assume p: "rd_ok p" "log_ok e w" and le: "int (length ?s) \<le> min maxsize 65535"
    and r: "remaining p = enc_short_str ?s @ rest"
  have adv: "taken p (advance 2 p) (bytes_of ?s @ rest)"
    using advance_ok [OF p(1), of 2] r by (simp add: enc_short_str_def)
  from read_sized_takes [of "advance 2 p" ?s rest maxsize e "''CPacket::ReadShortString''" w] adv le obtain q where
    "read_sized e ''CPacket::ReadShortString'' maxsize (int (length ?s)) (advance 2 p) w =
       (True, bytes_of ?s @ [0], q, w)" "taken (advance 2 p) q rest"
    by (auto simp: taken_def)
  moreover have "uint (ntohs (of_le (take 2 (remaining p)))) = int (length ?s)"
    using r le by (simp add: enc_short_str_def enc_short_def ntohs_of_be16 unsigned_of_nat take_bit_nat_eq_self)
  ultimately show
    "\<exists>q. ReadShortString e maxsize p w = Some (True, bytes_of ?s @ [0], q, w) \<and> taken p q rest"
    using adv r by (auto simp: ReadShortString_eq [OF p] taken_def intro: same_id_trans)
qed

interpretation big_reader:
  field_reader "\<lambda>e p w. ReadBigInt e v0 p w" enc_big out_big "\<lambda>_. True" for v0
proof
  fix p e w
  assume p: "rd_ok p" "log_ok e w"
  show "\<exists>ok v q w1. ReadBigInt e v0 p w = Some (ok, v, q, w1) \<and> shrunk p q \<and> calm w w1"
    using shrunk_advance [OF p(1), of 4] shrunk_advance [OF p(1), of 8] shrunk_refl [OF p(1)]
    by (simp add: ReadBigInt_eq [OF p] ex_bool_eq)
next
  fix p e w v rest
  assume p: "rd_ok p" "log_ok e w" and r: "remaining p = enc_big v @ rest"
  then have "taken p (advance 8 p) rest" using advance_ok [OF p(1), of 8] by simp
  with r show "\<exists>q. ReadBigInt e v0 p w = Some (True, out_big v, q, w) \<and> taken p q rest"
    by (simp add: ReadBigInt_eq [OF p] enc_big_def out_big_def of_le_to_le_full)
qed

end
