(* ===== verification/PacketMessage.thy ===== *)
theory PacketMessage
  imports PacketRead
begin

text \<open>
  Whole messages: a list of fields of the six kinds, written by the matching \<open>Write\<close> operations
  and read back by the matching \<open>Read\<close> operations.
\<close>

section \<open>Fields and the operations on them\<close>

datatype kind = KTiny | KShort | KInt | KBig | KStr int | KShortStr int

datatype field = FTiny int | FShort int | FInt int | FBig int
  | FStr int "char list" | FShortStr int "char list"

datatype val = VInt int | VBytes "byte list"

fun field_kind :: "field \<Rightarrow> kind" where
  "field_kind (FTiny v) = KTiny"
| "field_kind (FShort v) = KShort"
| "field_kind (FInt v) = KInt"
| "field_kind (FBig v) = KBig"
| "field_kind (FStr maxsize blk) = KStr maxsize"
| "field_kind (FShortStr maxsize blk) = KShortStr maxsize"

fun enc_field :: "field \<Rightarrow> byte list" where
  "enc_field (FTiny v) = enc_tiny v"
| "enc_field (FShort v) = enc_short v"
| "enc_field (FInt v) = enc_int v"
| "enc_field (FBig v) = enc_big v"
| "enc_field (FStr maxsize blk) = enc_str (str_arg blk)"
| "enc_field (FShortStr maxsize blk) = enc_short_str (str_arg blk)"

text \<open>The value a reader gets: integers reduced to their width, strings with their NUL.\<close>

fun out_field :: "field \<Rightarrow> val" where
  "out_field (FTiny v) = VInt (out_tiny v)"
| "out_field (FShort v) = VInt (out_short v)"
| "out_field (FInt v) = VInt (out_int v)"
| "out_field (FBig v) = VInt (out_big v)"
| "out_field (FStr maxsize blk) = VBytes (bytes_of (str_arg blk) @ [0])"
| "out_field (FShortStr maxsize blk) = VBytes (bytes_of (str_arg blk) @ [0])"

fun field_ok :: "field \<Rightarrow> bool" where
  "field_ok (FStr maxsize blk) \<longleftrightarrow>
     c_str blk \<noteq> None \<and> int (length (str_arg blk)) \<le> min maxsize INT_MAX"
| "field_ok (FShortStr maxsize blk) \<longleftrightarrow>
     c_str blk \<noteq> None \<and> int (length (str_arg blk)) \<le> min maxsize 65535"
| "field_ok _ \<longleftrightarrow> True"

fun write_field :: "field \<Rightarrow> cpacket \<Rightarrow> (bool \<times> cpacket) option" where
  "write_field (FTiny v) p = WriteTinyInt v p"
| "write_field (FShort v) p = WriteShortInt v p"
| "write_field (FInt v) p = WriteInt v p"
| "write_field (FBig v) p = WriteBigInt v p"
| "write_field (FStr maxsize blk) p = WriteString blk p"
| "write_field (FShortStr maxsize blk) p = WriteShortString blk p"

definition tag ::
  "('o \<Rightarrow> val) \<Rightarrow> (bool \<times> 'o \<times> cpacket \<times> world) option \<Rightarrow> (bool \<times> val \<times> cpacket \<times> world) option" where
  "tag f r = map_option (\<lambda>(ok, v, p, w). (ok, f v, p, w)) r"

fun read_field ::
  "kind \<Rightarrow> env \<Rightarrow> cpacket \<Rightarrow> world \<Rightarrow> (bool \<times> val \<times> cpacket \<times> world) option" where
  "read_field KTiny e p w = tag VInt (ReadTinyInt e 0 p w)"
| "read_field KShort e p w = tag VInt (ReadShortInt e 0 p w)"
| "read_field KInt e p w = tag VInt (ReadInt e 0 p w)"
| "read_field KBig e p w = tag VInt (ReadBigInt e 0 p w)"
| "read_field (KStr maxsize) e p w = tag VBytes (ReadString e maxsize p w)"
| "read_field (KShortStr maxsize) e p w = tag VBytes (ReadShortString e maxsize p w)"

text \<open>A run of reads, stopping at the first that returns \<open>FALSE\<close>.\<close>

fun read_seq ::
  "('k \<Rightarrow> env \<Rightarrow> cpacket \<Rightarrow> world \<Rightarrow> (bool \<times> 'o \<times> cpacket \<times> world) option) \<Rightarrow> env \<Rightarrow> 'k list \<Rightarrow>
    cpacket \<Rightarrow> world \<Rightarrow> (bool \<times> 'o list \<times> cpacket \<times> world) option" where
  "read_seq rd e [] p w = Some (True, [], p, w)"
| "read_seq rd e (k # ks) p w = do {
     (ok, v, p, w) \<leftarrow> rd k e p w;
     if \<not> ok then Some (False, [], p, w)
     else do {
       (ok, vs, p, w) \<leftarrow> read_seq rd e ks p w;
       Some (ok, v # vs, p, w) } }"

section \<open>Codecs\<close>

text \<open>
  A family of readers indexed by kind, each of which meets the contract of a reader for the
  values of its kind, and a writer of the same values.
\<close>

locale message_codec = field_writer wr enc valid
  for wr :: "'v \<Rightarrow> cpacket \<Rightarrow> (bool \<times> cpacket) option" and enc and valid +
  fixes rd :: "'k \<Rightarrow> env \<Rightarrow> cpacket \<Rightarrow> world \<Rightarrow> (bool \<times> 'o \<times> cpacket \<times> world) option"
    and kind_of :: "'v \<Rightarrow> 'k"
    and out :: "'v \<Rightarrow> 'o"
  assumes reader: "field_reader (rd k) enc out (\<lambda>v. valid v \<and> kind_of v = k)"
begin

lemma read_seq_total:
  "rd_ok p \<Longrightarrow> log_ok e w \<Longrightarrow>
   \<exists>ok vs q w1. read_seq rd e ks p w = Some (ok, vs, q, w1) \<and> shrunk p q \<and> calm w w1"
proof (induction ks arbitrary: p w)
  case Nil
  then show ?case by (simp add: shrunk_refl ex_bool_eq)
next
  case (Cons k ks)
  from field_reader.rd_total [OF reader Cons.prems, of k] obtain ok v q w1 where
    q: "rd k e p w = Some (ok, v, q, w1)" "shrunk p q" "calm w w1"
    by blast
  then have "rd_ok q" "log_ok e w1"
    using Cons.prems by (auto simp: shrunk_rd_ok calm_def log_ok_def)
  from Cons.IH [OF this] obtain ok' vs r w2 where
    r: "read_seq rd e ks q w1 = Some (ok', vs, r, w2)" "shrunk q r" "calm w1 w2"
    by blast
  show ?case
    using q r shrunk_trans [OF q(2) r(2)] calm_trans [OF q(3) r(3)]
    by (cases ok) (simp_all add: ex_bool_eq)
qed

lemma read_seq_takes:
  "rd_ok p \<Longrightarrow> log_ok e w \<Longrightarrow> (\<forall>v\<in>set vs. valid v) \<Longrightarrow>
   remaining p = concat (map enc vs) @ rest \<Longrightarrow>
   \<exists>q. read_seq rd e (map kind_of vs) p w = Some (True, map out vs, q, w) \<and> taken p q rest"
proof (induction vs arbitrary: p)
  case Nil
  then show ?case by (simp add: taken_def)
next
  case (Cons v vs)
  then obtain q where q: "rd (kind_of v) e p w = Some (True, out v, q, w)"
      "taken p q (concat (map enc vs) @ rest)"
    using field_reader.rd_takes [OF reader, of p e w v "kind_of v" "concat (map enc vs) @ rest"]
    by auto
  with Cons.IH [of q] Cons.prems obtain r where
    "read_seq rd e (map kind_of vs) q w = Some (True, map out vs, r, w)" "taken q r rest"
    by (auto simp: taken_def)
  with q show ?case by (auto simp: taken_def intro: same_id_trans)
qed

text \<open>What was written is what is read, to the end of the packet.\<close>

lemma message_roundtrip:
  assumes "wr_ok p" "payload p = []" "\<forall>v\<in>set vs. valid v"
    and "length (concat (map enc vs)) \<le> 2 ^ 30"
  shows "\<exists>q. write_seq wr vs p = Some (True, q) \<and> wr_ok q \<and> payload q = concat (map enc vs) \<and>
    same_id p q \<and>
    (\<forall>r e w. rd_ok r \<longrightarrow> remaining r = payload q \<longrightarrow> log_ok e w \<longrightarrow>
      (\<exists>s. read_seq rd e (map kind_of vs) r w = Some (True, map out vs, s, w) \<and> IsEOD s))"
proof -
  obtain q where q: "write_seq wr vs p = Some (True, q)" "appended p q (concat (map enc vs))"
    using write_seq_appends [of p vs] assms by auto
  have "\<exists>s. read_seq rd e (map kind_of vs) r w = Some (True, map out vs, s, w) \<and> IsEOD s"
    if "rd_ok r" "remaining r = payload q" "log_ok e w" for r e w
    using read_seq_takes [OF that(1,3) assms(3), of "[]"] that(2) q(2) assms(2)
    by (auto simp: appended_def taken_def IsEOD_remaining)
  with q assms(2) show ?thesis by (auto simp: appended_def)
qed

end

lemma tag_Some [simp]: "tag f (Some (ok, v, p, w)) = Some (ok, f v, p, w)"
  by (simp add: tag_def)

lemma tag_total:
  "\<exists>ok v q w1. r = Some (ok, v, q, w1) \<and> P q w1 \<Longrightarrow> \<exists>ok v q w1. tag f r = Some (ok, v, q, w1) \<and> P q w1"
  by auto

lemma read_field_reader: "field_reader (read_field k) enc_field out_field (\<lambda>v. field_ok v \<and> field_kind v = k)"
proof
  fix p e w
  assume p: "rd_ok p" "log_ok e w"
  show "\<exists>ok v q w1. read_field k e p w = Some (ok, v, q, w1) \<and> shrunk p q \<and> calm w w1"
    using tiny_reader.rd_total [OF p] short_reader.rd_total [OF p] int_reader.rd_total [OF p]
      big_reader.rd_total [OF p] str_reader.rd_total [OF p] short_str_reader.rd_total [OF p]
    by (cases k) (simp_all only: read_field.simps tag_total)
next
  fix p e w v rest
  assume p: "rd_ok p" "log_ok e w" and v: "field_ok v \<and> field_kind v = k"
    and r: "remaining p = enc_field v @ rest"
  show "\<exists>q. read_field k e p w = Some (True, out_field v, q, w) \<and> taken p q rest"
  proof (cases v)
    case (FTiny n)
    with v r tiny_reader.rd_takes [OF p TrueI, of n rest 0] show ?thesis by auto
  next
    case (FShort n)
    with v r short_reader.rd_takes [OF p TrueI, of n rest 0] show ?thesis by auto
  next
    case (FInt n)
    with v r int_reader.rd_takes [OF p TrueI, of n rest 0] show ?thesis by auto
  next
    case (FBig n)
    with v r big_reader.rd_takes [OF p TrueI, of n rest 0] show ?thesis by auto
  next
    case (FStr m blk)
    with v r str_reader.rd_takes [OF p, of blk m rest] show ?thesis by auto
  next
    case (FShortStr m blk)
    with v r short_str_reader.rd_takes [OF p, of blk m rest] show ?thesis by auto
  qed
qed

lemma write_field_writer: "field_writer write_field enc_field field_ok"
proof
  fix p v
  assume p: "wr_ok p" and v: "field_ok v" and le: "length (payload p) + length (enc_field v) \<le> 2 ^ 30"
  show "\<exists>q. write_field v p = Some (True, q) \<and> appended p q (enc_field v)"
  proof (cases v)
    case (FStr m blk)
    with v le str_writer.wr_appends [OF p, of blk] show ?thesis by simp
  next
    case (FShortStr m blk)
    with v le short_str_writer.wr_appends [OF p, of blk] show ?thesis by simp
  qed (use p le in \<open>simp_all only: write_field.simps enc_field.simps tiny_writer.wr_appends
    short_writer.wr_appends int_writer.wr_appends big_writer.wr_appends\<close>)
qed

interpretation cpacket_message: message_codec write_field enc_field field_ok read_field field_kind out_field
  by (intro message_codec.intro message_codec_axioms.intro write_field_writer read_field_reader)

end
