(* ===== verification/PacketWire.thy ===== *)
theory PacketWire
  imports PacketMessage
begin

text \<open>
  \<open>CPacket\<close> on the wire: the frame format, what the receive functions take from a connection
  and what \<open>SendPacket\<close> puts on it, for every segmentation of the stream and every failure.
\<close>

section \<open>Frames\<close>

definition wire_frame :: "byte \<Rightarrow> byte \<Rightarrow> byte \<Rightarrow> byte \<Rightarrow> byte \<Rightarrow> byte list \<Rightarrow> byte list" where
  "wire_frame m1 m2 cat cmd rsv data =
     [m1, m2, PROTOCOL_VER] @ be32 (word_of_nat (length data + 10)) @ [cat, cmd, rsv] @ data"

text \<open>A frame with the magic number, as \<open>ReceivePacket\<close> demands and \<open>SendPacket\<close> produces.\<close>

abbreviation good_frame :: "byte \<Rightarrow> byte \<Rightarrow> byte \<Rightarrow> byte list \<Rightarrow> byte list" where
  "good_frame \<equiv> wire_frame 0xFF 0xFF"

section \<open>Steps that touch one descriptor only\<close>

definition writes_to :: "int \<Rightarrow> event \<Rightarrow> bool" where
  "writes_to fd ev \<longleftrightarrow> (\<exists>bs. ev = EvWrite fd bs)"

definition io :: "int \<Rightarrow> world \<Rightarrow> world \<Rightarrow> bool" where
  "io fd w w1 \<longleftrightarrow> AList.delete fd (fds w1) = AList.delete fd (fds w) \<and> open_fds w1 = open_fds w \<and>
     m_strLogPath w1 = m_strLogPath w \<and> is_up fd w1 = is_up fd w \<and> tick w \<le> tick w1 \<and>
     (\<exists>t. trace w1 = trace w @ t \<and> (\<forall>ev\<in>set t. writes_to fd ev))"

lemma io_refl [simp]: "io fd w w"
  by (simp add: io_def)

lemma io_trans: "io fd w w1 \<Longrightarrow> io fd w1 w2 \<Longrightarrow> io fd w w2"
  by (fastforce simp: io_def)

lemma calm_io: "calm w w1 \<Longrightarrow> io fd w w1"
  by (simp add: calm_def io_def is_up_def)

lemma io_log_ok: "io fd w w1 \<Longrightarrow> log_ok e w1 = log_ok e w"
  by (simp add: io_def log_ok_def)

lemma io_logged [simp]:
  "io fd w w1 \<Longrightarrow> io fd w (logged e m s a w1)" "io fd w w1 \<Longrightarrow> io fd w (err_logged e m s a w1)"
  by (blast intro: io_trans calm_io logged_calm)+

text \<open>The same without anything written.\<close>

definition quiet :: "int \<Rightarrow> world \<Rightarrow> world \<Rightarrow> bool" where
  "quiet fd w w1 \<longleftrightarrow> io fd w w1 \<and> trace w1 = trace w"

lemma quiet_refl [simp]: "quiet fd w w"
  by (simp add: quiet_def)

lemma quiet_trans: "quiet fd w w1 \<Longrightarrow> quiet fd w1 w2 \<Longrightarrow> quiet fd w w2"
  by (auto simp: quiet_def intro: io_trans)

lemma calm_quiet: "calm w w1 \<Longrightarrow> quiet fd w w1"
  by (simp add: quiet_def calm_io) (simp add: calm_def)

lemma quiet_logged [simp]:
  "quiet fd w w1 \<Longrightarrow> quiet fd w (logged e m s a w1)"
  "quiet fd w w1 \<Longrightarrow> quiet fd w (err_logged e m s a w1)"
  by (simp_all add: quiet_def)

lemma quiet_keeps:
  "quiet fd w w1 \<Longrightarrow> log_ok e w1 = log_ok e w" "quiet fd w w1 \<Longrightarrow> sent fd' w1 = sent fd' w"
  by (auto simp: quiet_def io_log_ok sent_def)

lemma is_up_update:
  "map_of al fd = Some c \<Longrightarrow>
     (\<exists>d. map_of (AList.update fd (c\<lparr>rx := xs\<rparr>) al) fd = Some d \<and> up d) = up c"
  by (simp add: update_conv')

lemma sys_read_quiet: "sys_read e fd n w = (r, w1) \<Longrightarrow> quiet fd w w1"
  by (auto simp: sys_read_def quiet_def io_def is_up_def Let_def map_of_keys update_conv'
      split: option.splits if_splits io_ans.splits)

lemma sys_write_io: "sys_write e fd bs w = (r, w1) \<Longrightarrow> io fd w w1"
  by (auto simp: sys_write_def io_def is_up_def Let_def emit_def writes_to_def
      split: option.splits if_splits io_ans.splits)

text \<open>The transfer loops keep what each call keeps.\<close>

lemma read_all_keeps:
  assumes step: "\<And>n w r w1. rd n w = (r, w1) \<Longrightarrow> R w w1"
    and refl: "\<And>w. R w w" and trans: "\<And>u v w. R u v \<Longrightarrow> R v w \<Longrightarrow> R u w"
  shows "read_all rd n w = (got, st, w1) \<Longrightarrow> R w w1"
proof (induction n arbitrary: w got rule: less_induct)
  case (less n)
  obtain r w2 where r: "rd n w = (r, w2)" by (cases "rd n w")
  show ?case
  proof (cases "n = 0 \<or> r = None \<or> r = Some []")
    case True
    with less.prems r step [OF r] refl show ?thesis
      by (auto simp: read_all.simps [of rd n w] split: if_splits)
  next
    case False
    then obtain bs g where "r = Some bs" "n - length bs < n"
      and g: "read_all rd (n - length bs) w2 = (g, st, w1)"
      using less.prems r by (cases r) (auto simp: read_all.simps [of rd n w] split: prod.splits)
    with less.IH [OF _ g] trans [OF step [OF r]] show ?thesis by blast
  qed
qed

lemma write_all_keeps:
  assumes step: "\<And>bs w r w1. wr bs w = (r, w1) \<Longrightarrow> R w w1"
    and refl: "\<And>w. R w w" and trans: "\<And>u v w. R u v \<Longrightarrow> R v w \<Longrightarrow> R u w"
  shows "write_all wr chunk bs w = (st, w1) \<Longrightarrow> R w w1"
proof (induction bs arbitrary: w rule: length_induct)
  case (1 bs)
  obtain r w2 where r: "wr (take chunk bs) w = (r, w2)" by (cases "wr (take chunk bs) w")
  show ?case
  proof (cases "bs = [] \<or> r < 1")
    case True
    with "1.prems" r step [OF r] refl show ?thesis
      by (auto simp: write_all.simps [of wr chunk bs w] split: if_splits)
  next
    case False
    then have "length (drop (nat r) bs) < length bs"
      and "write_all wr chunk (drop (nat r) bs) w2 = (st, w1)"
      using "1.prems" r by (auto simp: write_all.simps [of wr chunk bs w])
    with "1.IH" trans [OF step [OF r]] show ?thesis by blast
  qed
qed

lemma read_all_quiet: "read_all (sys_read e fd) n w = (got, st, w1) \<Longrightarrow> quiet fd w w1"
  by (erule read_all_keeps [where R = "quiet fd", rotated 3])
    (auto intro: sys_read_quiet quiet_trans)

lemma write_all_io: "write_all (sys_write e fd) chunk bs w = (st, w1) \<Longrightarrow> io fd w w1"
  by (erule write_all_keeps [where R = "io fd", rotated 3]) (auto intro: sys_write_io io_trans)

section \<open>Receiving\<close>

text \<open>The length a header announces, as the code reads it into an \<open>int\<close>.\<close>

definition frame_len :: "byte list \<Rightarrow> int" where
  "frame_len header = sint (ntohl (of_le (take 4 (drop 3 header))))"

lemma frame_len_range: "- (2 ^ 31) \<le> frame_len header" "frame_len header < 2 ^ 31"
  unfolding frame_len_def by (rule sint_int_range)+

text \<open>The packet object once a frame is in it.\<close>

definition received :: "byte \<Rightarrow> byte \<Rightarrow> byte list \<Rightarrow> cpacket \<Rightarrow> cpacket" where
  "received cat cmd data p =
     p\<lparr>m_nCategory := sint cat, m_nCommand := sint cmd, m_nDataLength := int (length data),
       m_nDataPointer := 0, m_strData := Some (map Some data)\<rparr>"

lemma received_ok:
  assumes "int (length data) \<le> INT_MAX"
  shows "rd_ok (received cat cmd data p)" "remaining (received cat cmd data p) = data"
    "m_nClientSockfd (received cat cmd data p) = m_nClientSockfd p"
    "m_nCategory (received cat cmd data p) = sint cat" "m_nCommand (received cat cmd data p) = sint cmd"
  using assms by (auto simp: rd_ok_def remaining_def received_def data_cells_def comp_def)

lemma set_received_full:
  "length data = nat len \<Longrightarrow> 0 \<le> len \<Longrightarrow>
   (set_received len data (p\<lparr>m_nCategory := sint cat, m_nCommand := sint cmd\<rparr>))\<lparr>m_nDataPointer := 0\<rparr> =
     received cat cmd data p"
  by (simp add: set_received_def received_def)

lemma receive_body_UB:
  "log_ok e w \<Longrightarrow> receive_body e who header p w = None \<longleftrightarrow> frame_len header < 10 - 2 ^ 31"
proof -
  assume log: "log_ok e w"
  let ?fd = "m_nClientSockfd p"
  have lt: "frame_len header < 2 ^ 31" by (rule frame_len_range)
  obtain got st w1 where r: "read_all (sys_read e ?fd) (nat (frame_len header - 10)) w = (got, st, w1)"
    by (metis prod_cases3)
  from read_all_quiet [OF r] log have "log_ok e w1" by (simp add: quiet_keeps)
  with r log lt show ?thesis
    by (auto simp: receive_body_def frame_len_def [symmetric] c_int_def Let_def split: option.splits)
qed

lemma receive_body_sound:
  assumes b: "receive_body e who header p w = Some (ok, q, w1)" and log: "log_ok e w"
  shows "quiet (m_nClientSockfd p) w w1 \<and> m_nClientSockfd q = m_nClientSockfd p \<and> m_logflag q = m_logflag p \<and>
    (ok \<longrightarrow> (\<exists>data. int (length data) + 10 = frame_len header \<and>
       pending (m_nClientSockfd p) w = data @ pending (m_nClientSockfd p) w1 \<and>
       q\<lparr>m_nDataPointer := 0\<rparr> = received (header ! 7) (header ! 8) data p))"
proof -
  let ?fd = "m_nClientSockfd p"
  obtain got st w2 where r: "read_all (sys_read e ?fd) (nat (frame_len header - 10)) w = (got, st, w2)"
    by (metis prod_cases3)
  have q: "quiet ?fd w w2" using read_all_quiet [OF r] .
  with log have log2: "log_ok e w2" by (simp add: quiet_keeps)
  show ?thesis
  proof (cases "frame_len header - 10 < 0")
    case True
    with b log show ?thesis
      by (auto simp: receive_body_def frame_len_def Let_def c_int_eq_Some bind_eq_Some_conv calm_quiet)
  next
    case False
    with b r have "st = None \<longleftrightarrow> ok" and
      st: "if ok then q = set_received (frame_len header - 10) got
               (p\<lparr>m_nCategory := sint (header ! 7), m_nCommand := sint (header ! 8)\<rparr>) \<and> w1 = w2
           else q = set_received (frame_len header - 10) got
               (p\<lparr>m_nCategory := sint (header ! 7), m_nCommand := sint (header ! 8)\<rparr>) \<and>
             w1 = err_logged e who ?fd (L3 ''read()'') w2"
      using log2
      by (auto simp: receive_body_def frame_len_def Let_def c_int_eq_Some bind_eq_Some_conv
          split: option.splits)
    with sock_src.read_all_sound [OF r] False q show ?thesis
      by (cases ok) (auto simp: set_received_def received_def intro!: exI [of _ got])
  qed
qed

lemma receive_body_complete:
  assumes log: "log_ok e w" and live: "can_read e (m_nClientSockfd p) w"
    and len: "frame_len header = int (length data) + 10"
    and pend: "pending (m_nClientSockfd p) w = data @ rest"
  shows "\<exists>q w1. receive_body e who header p w = Some (True, q, w1) \<and>
    q\<lparr>m_nDataPointer := 0\<rparr> = received (header ! 7) (header ! 8) data p \<and>
    m_nClientSockfd q = m_nClientSockfd p \<and> m_logflag q = m_logflag p \<and> m_nCommand q = sint (header ! 8) \<and>
    pending (m_nClientSockfd p) w1 = rest \<and> quiet (m_nClientSockfd p) w w1"
proof -
  let ?fd = "m_nClientSockfd p"
  have "length data \<le> length (pending ?fd w)" using pend by simp
  from sock_src.read_all_complete [OF live this] pend obtain w1 where
    w1: "read_all (sys_read e ?fd) (length data) w = (data, None, w1)" "pending ?fd w1 = rest"
    by auto
  have "int (length data) + 10 < 2 ^ 31" unfolding len [symmetric] by (rule frame_len_range)
  with w1 read_all_quiet [OF w1(1)] len show ?thesis
    by (auto simp: receive_body_def frame_len_def Let_def set_received_def received_def)
qed

text \<open>A frame against the ten bytes the first \<open>read\<close> takes.\<close>

lemma length_wire_frame [simp]: "length (wire_frame m1 m2 cat cmd rsv data) = length data + 10"
  by (simp add: wire_frame_def)

lemma wire_frame_header:
  assumes "int (length data) + 10 \<le> INT_MAX"
    and h_def: "h = take 10 (wire_frame m1 m2 cat cmd rsv data)"
  shows "h ! 0 = m1" "h ! 1 = m2" "h ! 2 = PROTOCOL_VER" "h ! 7 = cat" "h ! 8 = cmd" "length h = 10"
    "frame_len h = int (length data) + 10" "wire_frame m1 m2 cat cmd rsv data = h @ data"
proof -
  let ?be = "be32 (word_of_nat (length data + 10))"
  have h: "h = [m1, m2, PROTOCOL_VER] @ ?be @ [cat, cmd, rsv]"
    by (simp add: h_def wire_frame_def)
  show "h ! 0 = m1" "h ! 1 = m2" "h ! 2 = PROTOCOL_VER" "h ! 7 = cat" "h ! 8 = cmd" "length h = 10"
    "wire_frame m1 m2 cat cmd rsv data = h @ data"
    unfolding h by (simp_all add: nth_append wire_frame_def)
  have "take 4 (drop 3 h) = ?be" unfolding h by simp
  then have "frame_len h = sint (word_of_nat (length data + 10) :: 32 word)"
    by (simp only: frame_len_def ntohl_of_be32)
  also have "\<dots> = int (length data + 10)"
    using sint_word_of_int_32 [of "int (length data + 10)"] assms(1) by (simp add: INT_MAX_def)
  finally show "frame_len h = int (length data) + 10" by simp
qed

lemma list10: "length h = 10 \<Longrightarrow>
   h = [h!0, h!1, h!2] @ take 4 (drop 3 h) @ [h!7, h!8, h!9]"
  by (auto simp: list_eq_iff_nth_eq less_Suc_eq nth_append numeral_eq_Suc)

lemma header_is_frame:
  assumes h: "length h = 10" "h ! 2 = PROTOCOL_VER" and len: "int (length data) + 10 = frame_len h"
  shows "h @ data = wire_frame (h ! 0) (h ! 1) (h ! 7) (h ! 8) (h ! 9) data"
proof -
  let ?l = "take 4 (drop 3 h)"
  have "ntohl (of_le ?l) = word_of_nat (length data + 10)"
  proof -
    have "ntohl (of_le ?l) = word_of_int (sint (ntohl (of_le ?l)))" by simp
    also have "\<dots> = word_of_nat (length data + 10)"
      unfolding frame_len_def [symmetric] len [symmetric] by simp
    finally show ?thesis .
  qed
  then have "be32 (word_of_nat (length data + 10)) = be32 (ntohl (of_le ?l))" by simp
  also have "\<dots> = ?l" using h(1) by (simp add: ntohl_def bswap_of_le to_le_of_le_n)
  finally show ?thesis using list10 [OF h(1)] h(2) by (simp add: wire_frame_def)
qed

text \<open>The first \<open>read\<close>.\<close>

lemma sys_read_first:
  assumes "can_read e fd w" "e_read e (tick w) = IoReady k" "n \<le> k"
  shows "\<exists>w1. sys_read e fd n w = (Some (take n (pending fd w)), w1) \<and>
    pending fd w1 = drop n (pending fd w) \<and> can_read e fd w1"
  using assms by (auto simp: sys_read_def can_read_def is_up_def pending_def update_conv' min_def)

definition got_bytes :: "byte list option \<Rightarrow> byte list" where
  "got_bytes r = (case r of None \<Rightarrow> [] | Some bs \<Rightarrow> bs)"

lemma got_bytes_simps [simp]: "got_bytes None = []" "got_bytes (Some bs) = bs"
  by (simp_all add: got_bytes_def)

lemma sys_read_got:
  assumes r: "sys_read e fd n w = (r, w1)"
  shows "pending fd w = got_bytes r @ pending fd w1" "quiet fd w w1"
proof -
  show "pending fd w = got_bytes r @ pending fd w1"
    using r sock_src.rd_some [of e fd n w _ w1] sock_src.rd_none [of e fd n w w1]
    by (cases r) auto
  show "quiet fd w w1" using sys_read_quiet [OF r] .
qed

lemma quiet_log_ok: "quiet fd w w1 \<Longrightarrow> log_ok e w \<Longrightarrow> log_ok e w1"
  by (simp add: quiet_def io_def log_ok_def)

text \<open>The checks on the first three bytes.\<close>

definition good_version :: "byte list \<Rightarrow> bool" where
  "good_version h \<longleftrightarrow> length h = 10 \<and> h ! 2 = PROTOCOL_VER"

definition good_header :: "byte list \<Rightarrow> bool" where
  "good_header h \<longleftrightarrow> good_version h \<and> h ! 0 = 0xFF \<and> h ! 1 = 0xFF"

lemma ReceivePacket_bad:
  assumes rd: "sys_read e (m_nClientSockfd p) header_size w = (x, w2)" and log: "log_ok e w2"
    and bad: "\<not> good_header (got_bytes x)"
  shows "\<exists>m. ReceivePacket e p w =
    Some (False, p, err_logged e ''CPacket::ReceivePacket'' (m_nClientSockfd p) (L3 m) w2)"
  unfolding ReceivePacket_def Let_def rd
  using log bad
  by (auto simp: header_size_def got_bytes_def [symmetric] good_header_def good_version_def)

lemma ReceivePacket_good:
  assumes rd: "sys_read e (m_nClientSockfd p) header_size w = (x, w2)"
    and good: "good_header (got_bytes x)"
  shows "ReceivePacket e p w =
    (case receive_body e ''CPacket::ReceivePacket'' (got_bytes x) p w2 of
       None \<Rightarrow> None
     | Some (ok, q, w3) \<Rightarrow>
         if \<not> ok then Some (False, q, w3)
         else map_option (\<lambda>w. (True, q\<lparr>m_nDataPointer := 0\<rparr>, w))
           (WriteLog e ''CPacket::ReceivePacket'' (m_nClientSockfd p) (L1 (m_nCommand q)) w3))"
  unfolding ReceivePacket_def Let_def rd
  using good
  by (auto simp: header_size_def got_bytes_def [symmetric] good_header_def good_version_def
      map_option_case split: option.splits)

theorem ReceivePacket_sound:
  assumes r: "ReceivePacket e p w = Some (ok, q, w1)" and log: "log_ok e w"
  shows "quiet (m_nClientSockfd p) w w1 \<and> m_nClientSockfd q = m_nClientSockfd p \<and>
    m_logflag q = m_logflag p \<and>
    (ok \<longrightarrow> (\<exists>cat cmd rsv data. int (length data) + 10 \<le> INT_MAX \<and>
       pending (m_nClientSockfd p) w = good_frame cat cmd rsv data @ pending (m_nClientSockfd p) w1 \<and>
       q = received cat cmd data p))"
proof -
  let ?fd = "m_nClientSockfd p"
  obtain x w2 where rd: "sys_read e ?fd header_size w = (x, w2)" by (metis prod.exhaust)
  note got = sys_read_got [OF rd]
  have log2: "log_ok e w2" using quiet_log_ok [OF got(2) log] .
  let ?h = "got_bytes x"
  show ?thesis
  proof (cases "good_header ?h")
    case False
    from ReceivePacket_bad [OF rd log2 this] r got(2) show ?thesis by auto
  next
    case True
    from r obtain p' w3 where b: "receive_body e ''CPacket::ReceivePacket'' ?h p w2 = Some (ok, p', w3)"
      unfolding ReceivePacket_good [OF rd True] by (auto split: option.splits if_splits)
    note sound = receive_body_sound [OF b log2]
    then have quiet: "quiet ?fd w w3" using quiet_trans [OF got(2)] by blast
    have w1: "(if ok then q = p'\<lparr>m_nDataPointer := 0\<rparr> \<and>
         w1 = logged e ''CPacket::ReceivePacket'' ?fd (L1 (m_nCommand p')) w3 else q = p' \<and> w1 = w3)"
      using r b quiet_log_ok [OF quiet log]
      unfolding ReceivePacket_good [OF rd True] by (auto split: if_splits)
    show ?thesis
    proof (cases ok)
      case False
      with sound quiet w1 show ?thesis by simp
    next
      case ok: True
      with sound w1 obtain data where d: "int (length data) + 10 = frame_len ?h"
        "pending ?fd w2 = data @ pending ?fd w1" "q = received (?h ! 7) (?h ! 8) data p"
        by auto
      have "?h @ data = good_frame (?h ! 7) (?h ! 8) (?h ! 9) data"
        using header_is_frame [of ?h data] True d(1) by (simp add: good_header_def good_version_def)
      with got(1) d(2) have "pending ?fd w = good_frame (?h ! 7) (?h ! 8) (?h ! 9) data @ pending ?fd w1"
        by (metis append.assoc)
      moreover have "int (length data) + 10 \<le> INT_MAX"
        using d(1) frame_len_range [of ?h] by (simp add: INT_MAX_def)
      moreover have "quiet ?fd w w1" using quiet w1 ok by simp
      moreover have "m_nClientSockfd q = ?fd" "m_logflag q = m_logflag p"
        using d(3) by (simp_all add: received_def)
      ultimately show ?thesis using d(3) by blast
    qed
  qed
qed

theorem ReceivePacket_complete:
  assumes log: "log_ok e w" and live: "can_read e (m_nClientSockfd p) w"
    and first: "e_read e (tick w) = IoReady k" "10 \<le> k"
    and pend: "pending (m_nClientSockfd p) w = good_frame cat cmd rsv data @ rest"
    and len: "int (length data) + 10 \<le> INT_MAX"
  shows "\<exists>w1. ReceivePacket e p w = Some (True, received cat cmd data p, w1) \<and>
    pending (m_nClientSockfd p) w1 = rest \<and> quiet (m_nClientSockfd p) w w1"
proof -
  let ?fd = "m_nClientSockfd p"
  let ?h = "take 10 (good_frame cat cmd rsv data)"
  note h = wire_frame_header [OF len refl, of "0xFF" "0xFF" cat cmd rsv]
  have dr: "drop 10 (good_frame cat cmd rsv data) = data" by (simp add: wire_frame_def)
  obtain w2 where rd: "sys_read e ?fd header_size w = (Some ?h, w2)"
    "pending ?fd w2 = data @ rest" "can_read e ?fd w2"
    using sys_read_first [OF live first] pend dr by (auto simp: header_size_def)
  have q2: "quiet ?fd w w2" using sys_read_quiet [OF rd(1)] .
  have good: "good_header (got_bytes (Some ?h))"
    using h by (simp only: good_header_def good_version_def got_bytes_simps)
  from receive_body_complete [OF quiet_log_ok [OF q2 log] rd(3), of ?h data rest] rd(2) h
  obtain q w3 where b: "receive_body e ''CPacket::ReceivePacket'' ?h p w2 = Some (True, q, w3)"
      "q\<lparr>m_nDataPointer := 0\<rparr> = received cat cmd data p" "pending ?fd w3 = rest" "quiet ?fd w2 w3"
    by metis
  have "quiet ?fd w w3" using quiet_trans [OF q2 b(4)] .
  with b ReceivePacket_good [OF rd(1) good] quiet_log_ok [OF this log] show ?thesis by simp
qed

text \<open>The only frames that leave the defined behaviour of the code.\<close>

theorem ReceivePacket_undefined:
  assumes r: "ReceivePacket e p w = None" and log: "log_ok e w"
  shows "\<exists>h rest. pending (m_nClientSockfd p) w = h @ rest \<and> good_header h \<and> frame_len h < 10 - 2 ^ 31"
proof -
  let ?fd = "m_nClientSockfd p"
  obtain x w2 where rd: "sys_read e ?fd header_size w = (x, w2)" by (metis prod.exhaust)
  note got = sys_read_got [OF rd]
  have log2: "log_ok e w2" using quiet_log_ok [OF got(2) log] .
  have good: "good_header (got_bytes x)"
    using r ReceivePacket_bad [OF rd log2] by fastforce
  have "receive_body e ''CPacket::ReceivePacket'' (got_bytes x) p w2 = None"
  proof (rule ccontr)
    assume "receive_body e ''CPacket::ReceivePacket'' (got_bytes x) p w2 \<noteq> None"
    then obtain ok q w3 where b: "receive_body e ''CPacket::ReceivePacket'' (got_bytes x) p w2 = Some (ok, q, w3)"
      by auto
    with receive_body_sound [OF b log2] have "log_ok e w3" using quiet_log_ok log2 by blast
    with r b show False unfolding ReceivePacket_good [OF rd good] by (auto split: if_splits)
  qed
  with receive_body_UB [OF log2] good got(1) show ?thesis by blast
qed

text \<open>
  A valid frame whose header does not arrive in one piece is refused: the header is read with
  a single \<open>read\<close>.
\<close>

theorem ReceivePacket_split_header:
  assumes log: "log_ok e w" and first: "e_read e (tick w) = IoReady k" "k < 10"
  shows "\<exists>w1. ReceivePacket e p w = Some (False, p, w1) \<and> quiet (m_nClientSockfd p) w w1"
proof -
  let ?fd = "m_nClientSockfd p"
  obtain x w2 where rd: "sys_read e ?fd header_size w = (x, w2)" by (metis prod.exhaust)
  then have "length (got_bytes x) < 10"
    using first by (auto simp: sys_read_def header_size_def Let_def split: option.splits if_splits)
  then have "\<not> good_header (got_bytes x)" by (simp add: good_header_def good_version_def)
  with ReceivePacket_bad [OF rd quiet_log_ok [OF _ log]] sys_read_got [OF rd] show ?thesis
    by fastforce
qed

section \<open>Receiving with a timeout\<close>

lemma sys_select_calm: "sys_select e fd w = Some (r, w1) \<Longrightarrow> calm w w1 \<and> tick w1 = Suc (tick w)"
  by (auto simp: sys_select_def calm_def split: if_splits)

lemma Select_bad:
  assumes sel: "sys_select e (m_nClientSockfd p) w = Some (r, w1)" and log: "log_ok e w"
    and rd: "sys_read e (m_nClientSockfd p) header_size w1 = (x, w2)"
    and bad: "r = 0 \<or> r = - 1 \<or> \<not> good_version (got_bytes x)"
  shows "\<exists>w3. ReceivePacket_Select e p w = Some (False, p, w3) \<and> quiet (m_nClientSockfd p) w w3"
proof -
  have q1: "quiet (m_nClientSockfd p) w w1" using sys_select_calm [OF sel] calm_quiet by blast
  have q2: "quiet (m_nClientSockfd p) w w2" using quiet_trans [OF q1 sys_read_got(2) [OF rd]] .
  show ?thesis
    unfolding ReceivePacket_Select_def Let_def sel bind.bind_lunit
    using bad quiet_log_ok [OF q1 log] quiet_log_ok [OF q2 log] q1 q2 rd
    by (auto simp: header_size_def got_bytes_def [symmetric] good_version_def)
qed

text \<open>The world after the magic number has been looked at: a wrong one is logged, no more.\<close>

definition magic_logged :: "env \<Rightarrow> int \<Rightarrow> byte list \<Rightarrow> world \<Rightarrow> world" where
  "magic_logged e fd h w =
     (if good_header h then w
      else err_logged e ''CPacket::ReceivePacket_Select'' fd (L3 (''header '' @ hangul_check_error)) w)"

lemma magic_logged_calm: "calm w (magic_logged e fd h w)"
  by (simp add: magic_logged_def)

lemma Select_good:
  assumes sel: "sys_select e (m_nClientSockfd p) w = Some (r, w1)" and log: "log_ok e w"
    and rd: "sys_read e (m_nClientSockfd p) header_size w1 = (x, w2)"
    and good: "r \<noteq> 0" "r \<noteq> - 1" "good_version (got_bytes x)"
  shows "ReceivePacket_Select e p w =
    (case receive_body e ''CPacket::ReceivePacket_Select()'' (got_bytes x) p
            (magic_logged e (m_nClientSockfd p) (got_bytes x) w2) of
       None \<Rightarrow> None
     | Some (ok, q, w3) \<Rightarrow>
         if \<not> ok then Some (False, q, w3)
         else map_option (\<lambda>w. (True, q\<lparr>m_nDataPointer := 0\<rparr>, w))
           (if m_logflag q \<noteq> 0
            then WriteLog e ''CPacket::ReceivePacket_Select()'' (m_nClientSockfd p) (L1 (m_nCommand q)) w3
            else Some w3))"
proof -
  have q1: "quiet (m_nClientSockfd p) w w1" using sys_select_calm [OF sel] calm_quiet by blast
  have q2: "quiet (m_nClientSockfd p) w w2" using quiet_trans [OF q1 sys_read_got(2) [OF rd]] .
  show ?thesis
    unfolding ReceivePacket_Select_def Let_def sel bind.bind_lunit
    using good quiet_log_ok [OF q2 log] rd
    by (auto simp: header_size_def got_bytes_def [symmetric] good_version_def good_header_def
        magic_logged_def map_option_case split: option.splits)
qed

lemma select_ok: "0 \<le> fd \<Longrightarrow> fd < 1024 \<Longrightarrow> \<exists>r w1. sys_select e fd w = Some (r, w1)"
  by (simp add: sys_select_def FD_SETSIZE_def)

lemma Select_start:
  assumes sel: "sys_select e fd w = Some (r, w1)" and rd: "sys_read e fd header_size w1 = (x, w2)"
  shows "pending fd w = got_bytes x @ pending fd (magic_logged e fd h w2)"
    "quiet fd w (magic_logged e fd h w2)"
proof -
  have c: "calm w w1" "calm w2 (magic_logged e fd h w2)"
    using sys_select_calm [OF sel] magic_logged_calm by auto
  show "quiet fd w (magic_logged e fd h w2)"
    using c sys_read_got(2) [OF rd] by (meson calm_quiet quiet_trans)
  show "pending fd w = got_bytes x @ pending fd (magic_logged e fd h w2)"
    using c sys_read_got(1) [OF rd] calm_keeps(4) by metis
qed

theorem ReceivePacket_Select_sound:
  assumes r: "ReceivePacket_Select e p w = Some (ok, q, w1)" and log: "log_ok e w"
  shows "quiet (m_nClientSockfd p) w w1 \<and> m_nClientSockfd q = m_nClientSockfd p \<and>
    m_logflag q = m_logflag p \<and>
    (ok \<longrightarrow> (\<exists>m1 m2 cat cmd rsv data. int (length data) + 10 \<le> INT_MAX \<and>
       pending (m_nClientSockfd p) w =
         wire_frame m1 m2 cat cmd rsv data @ pending (m_nClientSockfd p) w1 \<and>
       q = received cat cmd data p))"
proof -
  let ?fd = "m_nClientSockfd p" and ?who = "''CPacket::ReceivePacket_Select()''"
  obtain s w0 where sel: "sys_select e ?fd w = Some (s, w0)"
    using r by (cases "sys_select e ?fd w") (auto simp: ReceivePacket_Select_def Let_def)
  obtain x w2 where rd: "sys_read e ?fd header_size w0 = (x, w2)" by (metis prod.exhaust)
  let ?h = "got_bytes x"
  let ?w2 = "magic_logged e ?fd ?h w2"
  note start = Select_start [OF sel rd, of ?h]
  have log2: "log_ok e ?w2" using quiet_log_ok [OF start(2) log] .
  show ?thesis
  proof (cases "s \<noteq> 0 \<and> s \<noteq> - 1 \<and> good_version ?h")
    case False
    with Select_bad [OF sel log rd] r show ?thesis by fastforce
  next
    case True
    then have s: "s \<noteq> 0" "s \<noteq> - 1" "good_version ?h" by auto
    note eq = Select_good [OF sel log rd s]
    from r obtain p' w3 where b: "receive_body e ?who ?h p ?w2 = Some (ok, p', w3)"
      unfolding eq by (auto split: option.splits if_splits)
    note sound = receive_body_sound [OF b log2]
    then have quiet: "quiet ?fd w w3" using quiet_trans [OF start(2)] by blast
    have w1: "(if ok then q = p'\<lparr>m_nDataPointer := 0\<rparr> \<and>
         w1 = (if m_logflag p' \<noteq> 0 then logged e ?who ?fd (L1 (m_nCommand p')) w3 else w3)
       else q = p' \<and> w1 = w3)"
      using r b quiet_log_ok [OF quiet log] unfolding eq by (auto split: if_splits)
    show ?thesis
    proof (cases ok)
      case False
      with sound quiet w1 show ?thesis by simp
    next
      case ok: True
      have "pending ?fd w1 = pending ?fd w3" "quiet ?fd w w1" using quiet w1 ok by auto
      with ok sound w1 obtain data where d: "int (length data) + 10 = frame_len ?h"
        "pending ?fd ?w2 = data @ pending ?fd w1" "q = received (?h ! 7) (?h ! 8) data p"
        by auto
      have "?h @ data = wire_frame (?h ! 0) (?h ! 1) (?h ! 7) (?h ! 8) (?h ! 9) data"
        using header_is_frame [of ?h data] s d(1) by (simp add: good_version_def)
      with start(1) d(2) have "pending ?fd w =
          wire_frame (?h ! 0) (?h ! 1) (?h ! 7) (?h ! 8) (?h ! 9) data @ pending ?fd w1"
        by (metis append.assoc)
      moreover have "int (length data) + 10 \<le> INT_MAX"
        using d(1) frame_len_range [of ?h] by (simp add: INT_MAX_def)
      moreover have "m_nClientSockfd q = ?fd" "m_logflag q = m_logflag p"
        using d(3) by (simp_all add: received_def)
      ultimately show ?thesis using d(3) \<open>quiet ?fd w w1\<close> by blast
    qed
  qed
qed

text \<open>Whatever the result, the stream is consumed from its front.\<close>

lemma receive_body_suffix:
  assumes "receive_body e who h p w = Some (ok, q, w1)" "log_ok e w"
  shows "\<exists>pre. pending (m_nClientSockfd p) w = pre @ pending (m_nClientSockfd p) w1"
proof -
  let ?fd = "m_nClientSockfd p"
  obtain got st w2 where r: "read_all (sys_read e ?fd) (nat (frame_len h - 10)) w = (got, st, w2)"
    by (metis prod_cases3)
  have "log_ok e w2" using quiet_log_ok [OF read_all_quiet [OF r] assms(2)] .
  then have "pending ?fd w1 = pending ?fd w2 \<or> pending ?fd w1 = pending ?fd w"
    using assms r
    by (cases st) (auto simp: receive_body_def frame_len_def Let_def c_int_eq_Some bind_eq_Some_conv
        split: if_splits)
  with sock_src.read_all_sound [OF r] show ?thesis by (metis append_Nil)
qed

lemma ReceivePacket_Select_suffix:
  assumes r: "ReceivePacket_Select e p w = Some (ok, q, w1)" and log: "log_ok e w"
  shows "\<exists>pre. pending (m_nClientSockfd p) w = pre @ pending (m_nClientSockfd p) w1"
proof -
  let ?fd = "m_nClientSockfd p" and ?who = "''CPacket::ReceivePacket_Select()''"
  obtain s w0 where sel: "sys_select e ?fd w = Some (s, w0)"
    using r by (cases "sys_select e ?fd w") (auto simp: ReceivePacket_Select_def Let_def)
  obtain x w2 where rd: "sys_read e ?fd header_size w0 = (x, w2)" by (metis prod.exhaust)
  let ?h = "got_bytes x"
  let ?w2 = "magic_logged e ?fd ?h w2"
  note start = Select_start [OF sel rd, of ?h]
  have log2: "log_ok e ?w2" using quiet_log_ok [OF start(2) log] .
  have c: "calm w w0" using sys_select_calm [OF sel] by blast
  have log0: "log_ok e w0" "log_ok e w2"
    using calm_quiet [OF c] quiet_log_ok [OF _ log] sys_read_got(2) [OF rd] quiet_log_ok by blast+
  show ?thesis
  proof (cases "s = 0 \<or> s = - 1")
    case True
    with r log0 have "pending ?fd w1 = pending ?fd w0"
      unfolding ReceivePacket_Select_def Let_def sel bind.bind_lunit by auto
    then show ?thesis using calm_keeps(4) [OF c] by (metis append_Nil)
  next
    case s: False
    show ?thesis
    proof (cases "good_version ?h")
      case False
      with r s rd log0 have "pending ?fd w1 = pending ?fd w2"
        unfolding ReceivePacket_Select_def Let_def sel bind.bind_lunit
        by (auto simp: header_size_def got_bytes_def [symmetric] good_version_def split: if_splits)
      then show ?thesis using calm_keeps(4) [OF c] sys_read_got(1) [OF rd] by metis
    next
      case True
      with s have g: "s \<noteq> 0" "s \<noteq> - 1" "good_version ?h" by auto
      from r obtain p' w3 where b: "receive_body e ?who ?h p ?w2 = Some (ok, p', w3)"
        "pending ?fd w1 = pending ?fd w3"
        unfolding Select_good [OF sel log rd g]
        by (auto simp: WriteLog_def append_line_def wrote_line_def pending_def split: option.splits if_splits)
      from receive_body_suffix [OF b(1) log2] start(1) b(2) show ?thesis by (metis append.assoc)
    qed
  qed
qed

text \<open>Complete on frames with any two bytes in place of the magic number.\<close>

theorem ReceivePacket_Select_complete:
  assumes log: "log_ok e w" and live: "can_read e (m_nClientSockfd p) w"
    and fd: "0 \<le> m_nClientSockfd p" "m_nClientSockfd p < 1024"
    and sel: "e_select e (tick w) \<noteq> 0" "e_select e (tick w) \<noteq> - 1"
    and first: "e_read e (Suc (tick w)) = IoReady k" "10 \<le> k"
    and pend: "pending (m_nClientSockfd p) w = wire_frame m1 m2 cat cmd rsv data @ rest"
    and len: "int (length data) + 10 \<le> INT_MAX"
  shows "\<exists>w1. ReceivePacket_Select e p w = Some (True, received cat cmd data p, w1) \<and>
    pending (m_nClientSockfd p) w1 = rest \<and> quiet (m_nClientSockfd p) w w1"
proof -
  let ?fd = "m_nClientSockfd p" and ?who = "''CPacket::ReceivePacket_Select()''"
  let ?h = "take 10 (wire_frame m1 m2 cat cmd rsv data)"
  note h = wire_frame_header [OF len refl, of m1 m2 cat cmd rsv]
  have dr: "drop 10 (wire_frame m1 m2 cat cmd rsv data) = data" by (simp add: wire_frame_def)
  obtain w0 where s: "sys_select e ?fd w = Some (e_select e (tick w), w0)"
    using fd by (simp add: sys_select_def FD_SETSIZE_def)
  note c0 = sys_select_calm [OF s]
  have live0: "can_read e ?fd w0" "e_read e (tick w0) = IoReady k" "pending ?fd w0 = pending ?fd w"
    using c0 calm_can_read [OF _ live] first(1) calm_keeps(4) by auto
  obtain w2 where rd: "sys_read e ?fd header_size w0 = (Some ?h, w2)"
    "pending ?fd w2 = data @ rest" "can_read e ?fd w2"
    using sys_read_first [OF live0(1,2) first(2)] live0(3) pend dr by (auto simp: header_size_def)
  let ?w2 = "magic_logged e ?fd ?h w2"
  have good: "good_version (got_bytes (Some ?h))"
    using h by (simp only: good_version_def got_bytes_simps)
  note start = Select_start [OF s rd(1), of ?h]
  have w2: "can_read e ?fd ?w2" "pending ?fd ?w2 = data @ rest"
    using rd(2) calm_can_read [OF magic_logged_calm rd(3)] calm_keeps(4) [OF magic_logged_calm] by auto
  from receive_body_complete [OF quiet_log_ok [OF start(2) log] w2(1), of ?h data rest] w2(2) h
  obtain q w3 where b: "receive_body e ?who ?h p ?w2 = Some (True, q, w3)"
      "q\<lparr>m_nDataPointer := 0\<rparr> = received cat cmd data p" "pending ?fd w3 = rest" "quiet ?fd ?w2 w3"
    by metis
  have "quiet ?fd w w3" using quiet_trans [OF start(2) b(4)] .
  with b Select_good [OF s log rd(1) sel good] quiet_log_ok [OF this log] show ?thesis
    by auto
qed

theorem ReceivePacket_Select_undefined:
  assumes r: "ReceivePacket_Select e p w = None" and log: "log_ok e w"
    and fd: "0 \<le> m_nClientSockfd p" "m_nClientSockfd p < 1024"
  shows "\<exists>h rest. pending (m_nClientSockfd p) w = h @ rest \<and> good_version h \<and> frame_len h < 10 - 2 ^ 31"
proof -
  let ?fd = "m_nClientSockfd p" and ?who = "''CPacket::ReceivePacket_Select()''"
  from fd obtain s w0 where sel: "sys_select e ?fd w = Some (s, w0)" using select_ok by blast
  obtain x w2 where rd: "sys_read e ?fd header_size w0 = (x, w2)" by (metis prod.exhaust)
  let ?h = "got_bytes x"
  let ?w2 = "magic_logged e ?fd ?h w2"
  note start = Select_start [OF sel rd, of ?h]
  have log2: "log_ok e ?w2" using quiet_log_ok [OF start(2) log] .
  have s: "s \<noteq> 0" "s \<noteq> - 1" "good_version ?h" using Select_bad [OF sel log rd] r by fastforce+
  note eq = Select_good [OF sel log rd s]
  have "receive_body e ?who ?h p ?w2 = None"
  proof (rule ccontr)
    assume "receive_body e ?who ?h p ?w2 \<noteq> None"
    then obtain ok q w3 where b: "receive_body e ?who ?h p ?w2 = Some (ok, q, w3)" by auto
    with receive_body_sound [OF b log2] have "log_ok e w3" using quiet_log_ok log2 by blast
    with r b show False unfolding eq by (auto split: if_splits)
  qed
  with receive_body_UB [OF log2] s start(1) show ?thesis by blast
qed

section \<open>Sending\<close>

definition sent_frame :: "cpacket \<Rightarrow> byte list" where
  "sent_frame p =
     good_frame (word_of_int (m_nCategory p)) (word_of_int (m_nCommand p)) 0 (payload p)"

lemma packet_header_frame:
  "wr_ok p \<Longrightarrow> packet_header (m_nDataPointer p + 10) p @ payload p = sent_frame p"
  "length (packet_header n p) = 10"
  by (simp_all add: packet_header_def sent_frame_def wire_frame_def to_le_htonl length_payload [symmetric])

lemma peek_payload:
  "wr_ok p \<Longrightarrow> Option.bind (peek 0 (max 0 (m_nDataPointer p)) (data_cells p)) those = Some (payload p)"
  using map_Some_payload [of p] by (auto simp: wr_ok_def peek_def max_def)

text \<open>For every behaviour of the connection: a prefix of the frame goes out, all of it on \<open>TRUE\<close>.\<close>

theorem SendPacket_sound:
  assumes p: "wr_ok p" and log: "log_ok e w"
  shows "\<exists>ok w1. SendPacket e p w = Some (ok, w1) \<and> io (m_nClientSockfd p) w w1 \<and>
    (\<exists>k. sent (m_nClientSockfd p) w1 = sent (m_nClientSockfd p) w @ take k (sent_frame p)) \<and>
    (ok \<longrightarrow> sent (m_nClientSockfd p) w1 = sent (m_nClientSockfd p) w @ sent_frame p)"
proof (cases "m_nCategory p = 0 \<or> m_nCommand p = 0")
  case True
  then show ?thesis by (auto simp: SendPacket_def Let_def intro: exI [of _ 0])
next
  case False
  let ?fd = "m_nClientSockfd p" and ?h = "packet_header (m_nDataPointer p + 10) p"
  obtain n w1 where wr: "sys_write e ?fd ?h w = (n, w1)" by (metis prod.exhaust)
  note hdr = packet_header_frame(1) [OF p, symmetric] packet_header_frame(2)
  have s1: "n \<le> 10" "sent ?fd w1 = sent ?fd w @ take (nat n) ?h"
    using sock_snk.wr_sent [OF wr] hdr(2) by auto
  have io1: "io ?fd w w1" using sys_write_io [OF wr] .
  have log1: "log_ok e w1" using io1 log by (simp add: io_def log_ok_def)
  show ?thesis
  proof (cases "n = 10")
    case n: False
    then have "take (nat n) ?h = take (nat n) (sent_frame p)" using s1 hdr by simp
    with False n wr log1 s1 io1 show ?thesis
      by (auto simp: SendPacket_def Let_def intro!: exI [of _ "nat n"])
  next
    case n: True
    obtain st w2 where w2: "write_all (sys_write e ?fd) PACKET_SIZE (payload p) w1 = (st, w2)"
      by (metis prod.exhaust)
    have io2: "io ?fd w w2" using io_trans [OF io1 write_all_io [OF w2]] .
    have log2: "log_ok e w2" using io2 log by (simp add: io_def log_ok_def)
    from sock_snk.write_all_sound [OF w2] obtain k where
      k: "sent ?fd w2 = sent ?fd w1 @ take k (payload p)" "st = None \<longrightarrow> sent ?fd w2 = sent ?fd w1 @ payload p"
      by blast
    have "sent ?fd w2 = sent ?fd w @ take (10 + k) (sent_frame p)"
      using k(1) s1(2) n hdr by simp
    moreover have "st = None \<longrightarrow> sent ?fd w2 = sent ?fd w @ sent_frame p"
      using k(2) s1(2) n hdr by simp
    ultimately show ?thesis
      using False n wr w2 log2 io2 peek_payload [OF p]
      by (cases st) (auto simp: SendPacket_def Let_def)
  qed
qed

theorem SendPacket_complete:
  assumes p: "wr_ok p" and log: "log_ok e w" and live: "can_write e (m_nClientSockfd p) w"
    and first: "e_write e (tick w) = IoReady k" "10 \<le> k"
    and id: "m_nCategory p \<noteq> 0" "m_nCommand p \<noteq> 0"
  shows "\<exists>w1. SendPacket e p w = Some (True, w1) \<and> io (m_nClientSockfd p) w w1 \<and>
    sent (m_nClientSockfd p) w1 = sent (m_nClientSockfd p) w @ sent_frame p"
proof -
  let ?fd = "m_nClientSockfd p" and ?h = "packet_header (m_nDataPointer p + 10) p"
  note hdr = packet_header_frame(2) [of "m_nDataPointer p + 10" p]
  obtain w1 where wr: "sys_write e ?fd ?h w = (10, w1)" and live1: "can_write e ?fd w1"
    using live first hdr
    by (auto simp: sys_write_def can_write_def is_up_def emit_def Let_def min_def)
  obtain w2 where "write_all (sys_write e ?fd) PACKET_SIZE (payload p) w1 = (None, w2)"
    using sock_snk.write_all_complete [OF live1, of PACKET_SIZE "payload p"] by (auto simp: PACKET_SIZE_def)
  with wr id peek_payload [OF p] have "SendPacket e p w = Some (True, w2)"
    by (simp add: SendPacket_def Let_def)
  with SendPacket_sound [OF p log] show ?thesis by auto
qed

end
