(* ===== verification/RestClient.thy ===== *)
theory RestClient
  imports MiscUtil
begin

text \<open>
  \<open>RestClient\<close> (RestClient.cpp, RestClient.h): HTTP requests through the curl library. The
  library is the environment: for every transfer it says whether a handle is created, how it
  calls the two callbacks, the result code and the HTTP status. A request that is made is the
  event \<open>EvHttp\<close> with its method, URL, header lines and uploaded body.
\<close>

section \<open>Data\<close>

text \<open>\<open>response.code\<close> has no initialiser: \<open>None\<close> until it is assigned.\<close>

record response =
  res_code :: "int option"
  res_body :: string

text \<open>The data pointer, as the block it points at, and the bytes left.\<close>

record upload_object =
  up_data :: string
  up_length :: nat

datatype 'a run = Returned 'a | Exited int

definition no_response :: response where
  "no_response = \<lparr>res_code = None, res_body = []\<rparr>"

section \<open>Callbacks\<close>

definition size_mul :: "nat \<Rightarrow> nat \<Rightarrow> nat" where
  "size_mul sz nmemb = unat (word_of_nat sz * word_of_nat nmemb :: 64 word)"

definition write_callback :: "string \<Rightarrow> nat \<Rightarrow> nat \<Rightarrow> response \<Rightarrow> (nat \<times> response) option" where
  "write_callback dat sz nmemb r = do {
     piece \<leftarrow> peek 0 (int (size_mul sz nmemb)) dat;
     Some (size_mul sz nmemb, r\<lparr>res_body := res_body r @ piece\<rparr>) }"

text \<open>The bytes stored at \<open>data\<close>, the return value is their number.\<close>

definition read_callback :: "nat \<Rightarrow> nat \<Rightarrow> upload_object \<Rightarrow> (string \<times> upload_object) option" where
  "read_callback sz nmemb u = do {
     let curl_size = size_mul sz nmemb;
     let copy_size = (if up_length u < curl_size then up_length u else curl_size);
     out \<leftarrow> peek 0 (int copy_size) (up_data u);
     Some (out, u\<lparr>up_length := up_length u - copy_size, up_data := drop copy_size (up_data u)\<rparr>) }"

text \<open>What the library does with them: each piece of the answer once, in order; each buffer filled.\<close>

fun deliver :: "string list \<Rightarrow> response \<Rightarrow> response option" where
  "deliver [] r = Some r"
| "deliver (piece # pieces) r = do {
     (n, r) \<leftarrow> write_callback piece 1 (length piece) r;
     if n \<noteq> length piece then Some r else deliver pieces r }"

fun upload :: "nat list \<Rightarrow> upload_object \<Rightarrow> (string \<times> upload_object) option" where
  "upload [] u = Some ([], u)"
| "upload (n # ns) u = do {
     (out, u) \<leftarrow> read_callback 1 n u;
     (rest, u) \<leftarrow> upload ns u;
     Some (out @ rest, u) }"

section \<open>Requests\<close>

definition header_lines :: "(string \<times> string) list \<Rightarrow> string list" where
  "header_lines header = map (\<lambda>(k, v). takeWhile (\<lambda>c. c \<noteq> NUL) (k @ '': '' @ v)) header"

definition url_arg :: "string \<Rightarrow> string" where
  "url_arg url = takeWhile (\<lambda>c. c \<noteq> NUL) url"

definition get ::
  "env \<Rightarrow> string \<Rightarrow> (string \<times> string) list \<Rightarrow> world \<Rightarrow> (response \<times> world) option" where
  "get e url header w = (
     let run = e_curl e (tick w) (url_arg url) in
     if \<not> curl_init run then Some (no_response, w\<lparr>tick := Suc (tick w)\<rparr>)
     else do {
       r \<leftarrow> deliver (curl_body run) no_response;
       Some (r\<lparr>res_code := Some (sint (word_of_int (curl_code run) :: 32 word))\<rparr>,
             emit (EvHttp ''GET'' (url_arg url) (header_lines header) []) w) })"

text \<open>The other three end the process when the transfer fails.\<close>

definition finish_transfer ::
  "curl_run \<Rightarrow> response \<Rightarrow> world \<Rightarrow> (response run \<times> world) option" where
  "finish_transfer run r w =
     (if curl_res run \<noteq> 0 then Some (Exited 1, w)
      else Some (Returned (r\<lparr>res_code := Some (sint (word_of_int (curl_code run) :: 32 word))\<rparr>), w))"

definition post ::
  "env \<Rightarrow> string \<Rightarrow> (string \<times> string) list \<Rightarrow> string \<Rightarrow> world \<Rightarrow> (response run \<times> world) option" where
  "post e url header dat w = (
     let run = e_curl e (tick w) (url_arg url) in
     if \<not> curl_init run then Some (Returned no_response, w\<lparr>tick := Suc (tick w)\<rparr>)
     else do {
       sent \<leftarrow> peek 0 (int (length dat)) (dat @ [NUL]);
       r \<leftarrow> deliver (curl_body run) no_response;
       finish_transfer run r (emit (EvHttp ''POST'' (url_arg url) (header_lines header) sent) w) })"

definition put ::
  "env \<Rightarrow> string \<Rightarrow> (string \<times> string) list \<Rightarrow> string \<Rightarrow> world \<Rightarrow> (response run \<times> world) option" where
  "put e url header dat w = (
     let run = e_curl e (tick w) (url_arg url) in
     if \<not> curl_init run then Some (Returned no_response, w\<lparr>tick := Suc (tick w)\<rparr>)
     else do {
       (sent, up_obj) \<leftarrow> upload (curl_reads run) \<lparr>up_data = dat @ [NUL], up_length = length dat\<rparr>;
       r \<leftarrow> deliver (curl_body run) no_response;
       finish_transfer run r (emit (EvHttp ''PUT'' (url_arg url) (header_lines header) sent) w) })"

definition del ::
  "env \<Rightarrow> string \<Rightarrow> (string \<times> string) list \<Rightarrow> world \<Rightarrow> (response run \<times> world) option" where
  "del e url header w = (
     let run = e_curl e (tick w) (url_arg url) in
     if \<not> curl_init run then Some (Returned no_response, w\<lparr>tick := Suc (tick w)\<rparr>)
     else do {
       r \<leftarrow> deliver (curl_body run) no_response;
       finish_transfer run r (emit (EvHttp ''DELETE'' (url_arg url) (header_lines header) []) w) })"

section \<open>The callbacks move every byte once\<close>

lemma size_mul_one [simp]: "n < 2 ^ 64 \<Longrightarrow> size_mul (Suc 0) n = n"
  by (simp add: size_mul_def unsigned_of_nat take_bit_nat_eq_self)

lemma write_callback_ok:
  "length piece < 2 ^ 64 \<Longrightarrow>
   write_callback piece (Suc 0) (length piece) r = Some (length piece, r\<lparr>res_body := res_body r @ piece\<rparr>)"
  unfolding write_callback_def size_mul_one by (simp add: peek_def)

lemma deliver_ok:
  "\<forall>p\<in>set pieces. length p < 2 ^ 64 \<Longrightarrow> deliver pieces r = Some (r\<lparr>res_body := res_body r @ concat pieces\<rparr>)"
  by (induction pieces arbitrary: r) (auto simp: write_callback_ok)

text \<open>Reading never leaves the block, takes a prefix of what is left, and ends with length 0.\<close>

definition up_ok :: "upload_object \<Rightarrow> bool" where
  "up_ok u \<longleftrightarrow> up_length u < length (up_data u)"

definition to_send :: "upload_object \<Rightarrow> string" where
  "to_send u = take (up_length u) (up_data u)"

lemma read_callback_ok:
  assumes u: "up_ok u"
  shows "\<exists>out v. read_callback sz nmemb u = Some (out, v) \<and> up_ok v \<and> to_send u = out @ to_send v \<and>
    length out = min (up_length u) (size_mul sz nmemb) \<and> up_length v = up_length u - length out"
proof -
  let ?n = "min (up_length u) (size_mul sz nmemb)"
  have n: "(if up_length u < size_mul sz nmemb then up_length u else size_mul sz nmemb) = ?n"
    by (simp add: min_def)
  have le: "?n \<le> length (up_data u)" using u by (simp add: up_ok_def)
  have "read_callback sz nmemb u =
      Some (take ?n (up_data u), u\<lparr>up_length := up_length u - ?n, up_data := drop ?n (up_data u)\<rparr>)"
    unfolding read_callback_def Let_def n using le by (simp add: peek_def)
  moreover have "take (up_length u) (up_data u) = take ?n (up_data u) @ take (up_length u - ?n) (drop ?n (up_data u))"
    by (simp add: take_add [symmetric])
  ultimately show ?thesis using u le by (auto simp: up_ok_def to_send_def)
qed

lemma upload_ok:
  "up_ok u \<Longrightarrow> \<forall>n\<in>set ns. n < 2 ^ 64 \<Longrightarrow>
   \<exists>out v. upload ns u = Some (out, v) \<and> up_ok v \<and> to_send u = out @ to_send v \<and>
     up_length v = up_length u - sum_list ns"
proof (induction ns arbitrary: u)
  case Nil
  then show ?case by simp
next
  case (Cons n ns)
  from read_callback_ok [OF Cons.prems(1), of "Suc 0" n] obtain out v where
    v: "read_callback (Suc 0) n u = Some (out, v)" "up_ok v" "to_send u = out @ to_send v"
       "length out = min (up_length u) n" "up_length v = up_length u - length out"
    using Cons.prems(2) by auto
  from Cons.IH [OF v(2)] Cons.prems(2) obtain rest x where
    "upload ns v = Some (rest, x)" "up_ok x" "to_send v = rest @ to_send x" "up_length x = up_length v - sum_list ns"
    by auto
  with v show ?case by (auto simp: min_def)
qed

text \<open>Every request returns for every behaviour of the library whose pieces fit a \<open>size_t\<close>.\<close>

definition curl_ok :: "curl_run \<Rightarrow> bool" where
  "curl_ok run \<longleftrightarrow> (\<forall>p\<in>set (curl_body run). length p < 2 ^ 64) \<and> (\<forall>n\<in>set (curl_reads run). n < 2 ^ 64)"

lemma get_ok:
  assumes "curl_ok (e_curl e (tick w) (url_arg url))"
  shows "\<exists>r w1. get e url header w = Some (r, w1) \<and> fds w1 = fds w \<and> m_strLogPath w1 = m_strLogPath w \<and>
    sent fd w1 = sent fd w \<and> tick w1 = Suc (tick w) \<and>
    res_body r = (if curl_init (e_curl e (tick w) (url_arg url)) then concat (curl_body (e_curl e (tick w) (url_arg url))) else []) \<and>
    (res_code r = None \<longleftrightarrow> \<not> curl_init (e_curl e (tick w) (url_arg url)))"
  using assms
  by (auto simp: get_def Let_def deliver_ok curl_ok_def no_response_def emit_def sent_def written_def)

lemma put_uploads:
  assumes "curl_ok (e_curl e (tick w) (url_arg url))" "curl_init (e_curl e (tick w) (url_arg url))"
    and "length dat \<le> sum_list (curl_reads (e_curl e (tick w) (url_arg url)))"
  shows "\<exists>r. put e url header dat w =
    Some (r, emit (EvHttp ''PUT'' (url_arg url) (header_lines header) dat) w)"
proof -
  let ?run = "e_curl e (tick w) (url_arg url)" and ?u = "\<lparr>up_data = dat @ [NUL], up_length = length dat\<rparr>"
  have u: "up_ok ?u" "to_send ?u = dat" by (simp_all add: up_ok_def to_send_def)
  from upload_ok [OF u(1)] assms obtain v where
    "upload (curl_reads ?run) ?u = Some (dat, v)"
    using u(2) by (fastforce simp: curl_ok_def to_send_def)
  with assms show ?thesis
    by (auto simp: put_def Let_def deliver_ok curl_ok_def finish_transfer_def)
qed

end
