(* ===== verification/Alive.thy ===== *)
theory Alive
  imports PacketWire RestClient
begin

text \<open>
  main_alive.cpp: the commands the client sends to the manager, each over a connection of its
  own, and the loop of \<open>alive_process_thread\<close> that decides which of them is due.
\<close>

section \<open>Connection information\<close>

text \<open>
  \<open>struct ConnInfo\<close> (main.cpp). \<open>main\<close> sets \<open>ip\<close>, \<open>port\<close> and \<open>server_type\<close> always; the other
  pointers only when the metadata has the value, so \<open>None\<close> is a pointer nobody has set and
  \<open>Some blk\<close> the block of characters it points at.
\<close>

record conninfo =
  ip :: string
  port :: int
  server_type :: int
  external_ip :: "char list option"
  availability_zone :: "char list option"
  host :: "char list option"
  metaname :: "char list option"
  uuid :: "char list option"

section \<open>Connecting\<close>

text \<open>The options set on a new connection: \<open>ling\<close> is on with time 0.\<close>

definition set_options :: "int \<Rightarrow> world \<Rightarrow> world" where
  "set_options fd w =
     sys_setsockopt fd SO_LINGER 0 (sys_setsockopt fd SO_SNDBUF SOCKET_BUFFER_SIZE
       (sys_setsockopt fd SO_RCVBUF SOCKET_BUFFER_SIZE (sys_setsockopt fd TCP_NODELAY 1
         (sys_setsockopt fd SO_KEEPALIVE 1 w))))"

text \<open>The middle component is \<open>*sock\<close>; after a refused connection it is the closed descriptor.\<close>

definition ConnectToServer ::
  "env \<Rightarrow> string \<Rightarrow> int \<Rightarrow> world \<Rightarrow> (bool \<times> int \<times> world) option" where
  "ConnectToServer e addr prt w = (
     let (sock, w) = sys_socket e w in
     if sock = - 1 then Some (False, sock, w)
     else
       let (result, w) = sys_connect e sock addr (word_of_int prt) w in
       if result = - 1
       then do {
         w \<leftarrow> WriteErrorLog e ''ConnectToServer() - NOT CONNECT'' sock L0 w;
         let (_, w) = sys_close e sock w;
         Some (False, sock, w) }
       else do {
         let w = set_options sock w;
         w \<leftarrow> WriteLog e ''ConnectToServer() SUCCESS'' sock L0 w;
         Some (True, sock, w) })"

definition CloseToServer :: "env \<Rightarrow> int \<Rightarrow> world \<Rightarrow> bool \<times> world" where
  "CloseToServer e sock w = (let (r, w) = sys_close e sock w in (r = 0, w))"

text \<open>
  The loop \<open>for (i = 0; i < 100; i++)\<close> every command starts with, \<open>n\<close> the number of rounds left:
  connect while \<open>sock\<close> is 0, leave when it is not. The result says whether the loop was left;
  otherwise the last round has been used up.
\<close>

definition MAX_TRIES :: nat where "MAX_TRIES = 100"

fun connect_tries ::
  "env \<Rightarrow> conninfo \<Rightarrow> nat \<Rightarrow> int \<Rightarrow> world \<Rightarrow> (bool \<times> int \<times> world) option" where
  "connect_tries e c 0 sock w = Some (False, sock, w)"
| "connect_tries e c (Suc n) sock w =
     (if sock \<noteq> 0 then Some (True, sock, w)
      else do {
        (ok, sock, w) \<leftarrow> ConnectToServer e (ip c) (port c) w;
        (sock, w) \<leftarrow> (if ok then Some (sock, w)
                     else do {
                       w \<leftarrow> WriteErrorLog e ''Connect Error'' sock L0 w;
                       Some (0, w) });
        connect_tries e c n sock w })"

section \<open>The parts the commands share\<close>

text \<open>The fields of a request, in the order of the \<open>Write\<close> calls of the command.\<close>

datatype arg = AStr "char list option" | AInt int

fun write_arg :: "arg \<Rightarrow> cpacket \<Rightarrow> (bool \<times> cpacket) option" where
  "write_arg (AStr None) p = None"
| "write_arg (AStr (Some blk)) p = WriteString blk p"
| "write_arg (AInt n) p = WriteInt n p"

definition fail_closing :: "env \<Rightarrow> int \<Rightarrow> world \<Rightarrow> (bool \<times> int \<times> world) option" where
  "fail_closing e sock w = (let (_, w) = CloseToServer e sock w in Some (False, 0, w))"

text \<open>
  The second half of a command: receive the answer, read the error code, check that nothing
  follows. The middle component of the result is \<open>errorcode\<close>.
\<close>

definition await :: "env \<Rightarrow> int \<Rightarrow> world \<Rightarrow> (bool \<times> int \<times> world) option" where
  "await e sock w = do {
     (ok, receive_packet, w) \<leftarrow> ReceivePacket e (InitPacket1 sock (CPacket_new 0)) w;
     if \<not> ok then fail_closing e sock w
     else do {
       (ok, errorcode, receive_packet, w) \<leftarrow> ReadInt e 0 receive_packet w;
       if \<not> ok then fail_closing e sock w
       else if \<not> IsEOD receive_packet then fail_closing e sock w
       else if errorcode = ERR_FAILED then fail_closing e sock w
       else let (_, w) = CloseToServer e sock w in Some (True, errorcode, w) } }"

text \<open>
  From the first \<open>Write\<close> to the check of the error code: every failure closes the connection
  and returns \<open>FALSE\<close>.
\<close>

definition request ::
  "env \<Rightarrow> int \<Rightarrow> int \<Rightarrow> arg list \<Rightarrow> world \<Rightarrow> (bool \<times> int \<times> world) option" where
  "request e command sock args w = do {
     (ok, send_packet) \<leftarrow> write_seq write_arg args
        (InitPacket3 CAT_REQUEST command sock (CPacket_new 0));
     if \<not> ok then fail_closing e sock w
     else do {
       (ok, w) \<leftarrow> SendPacket e send_packet w;
       if \<not> ok then fail_closing e sock w
       else await e sock w } }"

text \<open>The last round of the loop: close whatever \<open>sock\<close> is, log, give up.\<close>

definition give_up :: "env \<Rightarrow> string \<Rightarrow> int \<Rightarrow> world \<Rightarrow> (bool \<times> world) option" where
  "give_up e message sock w = do {
     let (_, w) = CloseToServer e sock w;
     w \<leftarrow> WriteErrorLog e message (- 1) L0 w;
     Some (False, w) }"

section \<open>The commands\<close>

text \<open>
  The addresses of the IPv4 interfaces: \<open>char tmp[64]\<close> for one, \<open>char l_szclient_ips[256]\<close> for
  all. An interface without an address is dereferenced.
\<close>

definition AF_INET :: int where "AF_INET = 2"

fun client_ips :: "ifaddr list \<Rightarrow> string \<Rightarrow> string option" where
  "client_ips [] acc = Some acc"
| "client_ips (ifa # ifas) acc =
     (case ifa_addr ifa of
        None \<Rightarrow> None
      | Some (family, addr) \<Rightarrow>
          (if family = AF_INET \<and> ifa_name ifa \<noteq> ''lo''
           then let tmp = ifa_name ifa @ '':'' @ addr @ '','' in
                if 64 \<le> length tmp \<or> 256 \<le> length acc + length tmp then None
                else client_ips ifas (acc @ tmp)
           else client_ips ifas acc))"

definition sys_getifaddrs :: "env \<Rightarrow> world \<Rightarrow> (ifaddr list \<times> world) option" where
  "sys_getifaddrs e w =
     map_option (\<lambda>ifs. (ifs, w\<lparr>tick := Suc (tick w)\<rparr>)) (e_ifaddrs e (tick w))"

definition terminated :: "string \<Rightarrow> char list" where
  "terminated s = s @ [NUL]"

definition command_heartbeat_report :: "env \<Rightarrow> conninfo \<Rightarrow> world \<Rightarrow> (bool \<times> world) option" where
  "command_heartbeat_report e c w = do {
     (connected, sock, w) \<leftarrow> connect_tries e c MAX_TRIES 0 w;
     if \<not> connected
     then give_up e ''Connect try count exceed - command_heartbeat_report'' sock w
     else do {
       (ifap, w) \<leftarrow> sys_getifaddrs e w;
       l_szclient_ips \<leftarrow> client_ips ifap [];
       (ok, errorcode, w) \<leftarrow> request e REQ_REGISTRY_HEARTBEAT sock
         [AStr (metaname c), AStr (host c), AInt (server_type c), AStr (uuid c),
          AStr (Some (terminated l_szclient_ips)), AStr (availability_zone c),
          AStr (external_ip c)] w;
       if \<not> ok then Some (False, w)
       else do {
         w \<leftarrow> WriteLog e ''CMD HEARTBEAT Response'' sock (L1 errorcode) w;
         Some (True, w) } } }"

definition command_alive_report :: "env \<Rightarrow> conninfo \<Rightarrow> world \<Rightarrow> (bool \<times> world) option" where
  "command_alive_report e c w = do {
     (connected, sock, w) \<leftarrow> connect_tries e c MAX_TRIES 0 w;
     if \<not> connected then give_up e ''Connect try count exceed'' sock w
     else do {
       (ok, errorcode, w) \<leftarrow> request e REQ_ALIVE_STATUS sock [AStr (metaname c), AStr (uuid c)] w;
       Some (ok, w) } }"

text \<open>
  \<open>char external_ip[64]\<close>: \<open>std::copy\<close> of the whole body, then \<open>sprintf\<close> of it as a C string.
  An answer without a code (no curl handle) is tested by \<open>code != 0\<close> on an unset value.
\<close>

definition external_ip_buffer :: "response \<Rightarrow> string option" where
  "external_ip_buffer res = (
     case res_code res of
       None \<Rightarrow> None
     | Some n \<Rightarrow>
         (if n \<noteq> 0
          then let s = takeWhile (\<lambda>c. c \<noteq> NUL) (res_body res) in
               if 64 < length (res_body res) \<or> 64 \<le> length s then None else Some s
          else Some ''none''))"

definition command_metadata_report :: "env \<Rightarrow> conninfo \<Rightarrow> world \<Rightarrow> (bool \<times> world) option" where
  "command_metadata_report e c w = do {
     (connected, sock, w) \<leftarrow> connect_tries e c MAX_TRIES 0 w;
     if \<not> connected
     then give_up e ''Connect try count exceed - command_metadata_report'' sock w
     else do {
       (res, w) \<leftarrow> get e ''http://169.254.169.254/openstack/latest/meta_data.json'' [] w;
       rc \<leftarrow> res_code res;
       let meta_health = (if rc = 0 then 0 else 1);
       (res, w) \<leftarrow> get e ''http://bot.whatismyipaddress.com'' [] w;
       external \<leftarrow> external_ip_buffer res;
       (ok, errorcode, w) \<leftarrow> request e REQ_METADATA_REPORT sock
         [AStr (uuid c), AStr (Some (terminated external)), AInt meta_health] w;
       Some (ok, w) } }"

definition command_refresh_info :: "env \<Rightarrow> conninfo \<Rightarrow> world \<Rightarrow> (bool \<times> world) option" where
  "command_refresh_info e c w = do {
     (connected, sock, w) \<leftarrow> connect_tries e c MAX_TRIES 0 w;
     if \<not> connected
     then do {
       w \<leftarrow> WriteErrorLog e ''Connect try count exceed'' (- 1) L0 w;
       let (_, w) = CloseToServer e sock w;
       Some (False, w) }
     else do {
       let (_, w) = CloseToServer e sock w;
       w \<leftarrow> WriteLog e ''CMD REFRESH_INFO Response'' sock (L1 0) w;
       Some (True, w) } }"

section \<open>The thread\<close>

definition REFRESH_INTERVAL :: nat where "REFRESH_INTERVAL = 60 * 60"
definition METADATA_INTERVAL :: nat where "METADATA_INTERVAL = 60"

record alive_state =
  ret :: bool
  refresh :: nat
  metareport :: nat

definition alive_start :: alive_state where
  "alive_start = \<lparr>ret = False, refresh = 0, metareport = 0\<rparr>"

text \<open>One round of \<open>while(TRUE)\<close>.\<close>

definition alive_round ::
  "env \<Rightarrow> conninfo \<Rightarrow> alive_state \<Rightarrow> world \<Rightarrow> (alive_state \<times> world) option" where
  "alive_round e c s w = do {
     (s, w) \<leftarrow> (if \<not> ret s
                then do {
                  (r, w) \<leftarrow> command_heartbeat_report e c w;
                  Some (s\<lparr>ret := r\<rparr>, w) }
                else Some (s, w));
     (ret2, w) \<leftarrow> command_alive_report e c w;
     (s, w) \<leftarrow> (if refresh s < REFRESH_INTERVAL then Some (s\<lparr>refresh := refresh s + 1\<rparr>, w)
                else do {
                  (r, w) \<leftarrow> command_heartbeat_report e c w;
                  w \<leftarrow> WriteLog e ''Refresh Client Informs packet send'' (- 1) L0 w;
                  Some (s\<lparr>ret := r, refresh := 0\<rparr>, w) });
     (s, w) \<leftarrow> (if metareport s < METADATA_INTERVAL
                then Some (s\<lparr>metareport := metareport s + 1\<rparr>, w)
                else do {
                  (r, w) \<leftarrow> command_metadata_report e c w;
                  w \<leftarrow> WriteLog e ''Metadata healthcheck report'' (- 1) L0 w;
                  Some (s\<lparr>ret := r, metareport := 0\<rparr>, w) });
     Some (s, sys_sleep 1 w) }"

text \<open>The thread never ends: its first \<open>n\<close> rounds.\<close>

fun alive_rounds ::
  "nat \<Rightarrow> env \<Rightarrow> conninfo \<Rightarrow> alive_state \<Rightarrow> world \<Rightarrow> (alive_state \<times> world) option" where
  "alive_rounds 0 e c s w = Some (s, w)"
| "alive_rounds (Suc n) e c s w = do {
     (s, w) \<leftarrow> alive_round e c s w;
     alive_rounds n e c s w }"

definition alive_process_thread ::
  "nat \<Rightarrow> env \<Rightarrow> conninfo \<Rightarrow> world \<Rightarrow> (alive_state \<times> world) option" where
  "alive_process_thread n e c w = do {
     w \<leftarrow> WriteLog e ''Start Alive'' (- 1) L0 w;
     alive_rounds n e c alive_start w }"

end
