(* ===== verification/AliveConnect.thy ===== *)
theory AliveConnect
  imports Alive
begin

text \<open>
  Connecting: what one attempt and the loop of a hundred attempts leave behind, for every
  behaviour of the network. The proofs are about one descriptor at a time: a session opens a
  descriptor that was not in use, touches no other, and closes it.
\<close>

section \<open>Opening and closing a session\<close>

text \<open>No bytes written, the log directory unchanged, time not going back.\<close>

definition still :: "world \<Rightarrow> world \<Rightarrow> bool" where
  "still w w1 \<longleftrightarrow> m_strLogPath w1 = m_strLogPath w \<and> tick w \<le> tick w1 \<and> (\<forall>fd. sent fd w1 = sent fd w)"

lemma still_refl [simp]: "still w w"
  by (simp add: still_def)

lemma still_trans: "still w w1 \<Longrightarrow> still w1 w2 \<Longrightarrow> still w w2"
  by (simp add: still_def)

lemma still_log_ok: "still w w1 \<Longrightarrow> log_ok e w \<Longrightarrow> log_ok e w1"
  by (simp add: still_def log_ok_def)

lemma calm_still: "calm w w1 \<Longrightarrow> still w w1"
  by (simp add: calm_def still_def sent_def)

lemma quiet_still: "quiet fd w w1 \<Longrightarrow> still w w1"
  by (simp add: quiet_def io_def still_def sent_def)

lemma still_logged [simp]:
  "still w w1 \<Longrightarrow> still w (logged e m s a w1)" "still w w1 \<Longrightarrow> still w (err_logged e m s a w1)"
  by (blast intro: still_trans calm_still logged_calm)+

lemma sent_other_event:
  "\<forall>bs. ev \<noteq> EvWrite fd bs \<Longrightarrow> written fd ev = []"
  by (auto simp: written_def split: event.splits)

lemma still_emit:
  "\<forall>fd bs. ev \<noteq> EvWrite fd bs \<Longrightarrow> m_strLogPath w1 = m_strLogPath w \<Longrightarrow> trace w1 = trace w \<Longrightarrow>
   tick w \<le> tick w1 \<Longrightarrow> still w (emit ev w1)"
  by (simp add: still_def emit_def sent_def sent_other_event)

text \<open>An open session on \<open>fd\<close>: the rest of the descriptor table is that of \<open>w\<close>.\<close>

definition session :: "int \<Rightarrow> world \<Rightarrow> world \<Rightarrow> bool" where
  "session fd w w1 \<longleftrightarrow> 0 \<le> fd \<and> fd \<notin> open_fds w \<and> fd \<in> open_fds w1 \<and>
     AList.delete fd (fds w1) = fds w \<and> m_strLogPath w1 = m_strLogPath w \<and> tick w \<le> tick w1"

lemma session_io: "session fd w w1 \<Longrightarrow> io fd w1 w2 \<Longrightarrow> session fd w w2"
  by (simp add: session_def io_def)

lemma session_calm: "session fd w w1 \<Longrightarrow> calm w1 w2 \<Longrightarrow> session fd w w2"
  using session_io calm_io by blast

lemma session_log_ok: "session fd w w1 \<Longrightarrow> log_ok e w \<Longrightarrow> log_ok e w1"
  by (simp add: session_def log_ok_def)

lemma close_still: "sys_close e fd w = (r, w1) \<Longrightarrow> still w w1"
  by (auto simp: sys_close_def still_def emit_def sent_def written_def split: if_splits)

lemma close_session:
  assumes "session fd w w1" "sys_close e fd w1 = (r, w2)"
  shows "fds w2 = fds w" "m_strLogPath w2 = m_strLogPath w" "tick w \<le> tick w2" "\<forall>g. sent g w2 = sent g w1"
  using assms close_still [OF assms(2)]
  by (auto simp: session_def sys_close_def emit_def still_def split: if_splits)

lemma socket_session:
  assumes "sys_socket e w = (fd, w1)" "fd \<noteq> - 1"
  shows "session fd w w1" "still w w1" "fd \<le> int (card (open_fds w))"
proof -
  have fd: "fd = lowest_free (map fst (fds w))"
    and w1: "w1 = emit (EvSocket fd) (w\<lparr>fds := (fd, \<lparr>up = False, rx = []\<rparr>) # fds w\<rparr>)"
    using assms by (auto simp: sys_socket_def Let_def split: if_splits)
  have fresh: "fd \<notin> keys (fds w)"
    using lowest_free_fresh [of "map fst (fds w)"] unfolding fd keys_map_fst .
  show "session fd w w1" unfolding session_def
    using fresh by (simp add: w1 emit_def) (simp add: fd)
  show "still w w1" by (auto simp: w1 intro!: still_emit)
  show "fd \<le> int (card (open_fds w))" using lowest_free_le_card [of "map fst (fds w)"] by (simp add: fd keys_def)
qed

lemma set_options_fds [simp]:
  "fds (set_options fd w) = fds w" "m_strLogPath (set_options fd w) = m_strLogPath w"
  by (simp_all add: set_options_def)

lemma set_options_still: "still w (set_options fd w)" and set_options_tick: "tick w \<le> tick (set_options fd w)"
  by (auto simp: set_options_def sys_setsockopt_def still_def sent_def written_def emit_def)

section \<open>One attempt\<close>

text \<open>The peer's bytes are those it sends on this connection.\<close>

definition connected_to :: "env \<Rightarrow> int \<Rightarrow> world \<Rightarrow> world \<Rightarrow> bool" where
  "connected_to e fd w w1 \<longleftrightarrow> session fd w w1 \<and> still w w1 \<and> is_up fd w1 \<and>
     (\<exists>t\<ge>tick w. pending fd w1 = e_peer e t)"

lemma connect_up:
  assumes s: "session fd w w1" "still w w1" and c: "sys_connect e fd addr prt w1 = (r, w2)"
  shows "session fd w w2 \<and> still w w2 \<and> (r \<noteq> - 1 \<longrightarrow> connected_to e fd w w2)"
proof (cases "e_connect e (tick w1)")
  case False
  then have "w2 = emit (EvConnect fd addr prt False) w1" "r = - 1"
    using c by (auto simp: sys_connect_def)
  moreover have "still w1 (emit (EvConnect fd addr prt False) w1)" by (rule still_emit) auto
  ultimately show ?thesis
    using s by (auto simp: session_def emit_def intro: still_trans)
next
  case True
  let ?c = "\<lparr>up = True, rx = e_peer e (tick w1)\<rparr>"
  have w2: "w2 = emit (EvConnect fd addr prt True) (w1\<lparr>fds := AList.update fd ?c (fds w1)\<rparr>)"
    using c True s(1) by (auto simp: sys_connect_def session_def)
  have "still w1 w2" unfolding w2 by (rule still_emit) auto
  then have st: "still w w2" using s(2) still_trans by blast
  have "session fd w w2" using s(1) unfolding w2 by (simp add: session_def emit_def)
  moreover have "is_up fd w2" "pending fd w2 = e_peer e (tick w1)"
    unfolding w2 by (simp_all add: emit_def is_up_def pending_def update_conv')
  moreover have "tick w \<le> tick w1" using s(1) by (simp add: session_def)
  ultimately show ?thesis using st by (auto simp: connected_to_def)
qed

lemma ConnectToServer_spec:
  assumes log: "log_ok e w"
  shows "\<exists>ok fd w1. ConnectToServer e addr prt w = Some (ok, fd, w1) \<and> still w w1 \<and>
    (if ok then connected_to e fd w w1 else fds w1 = fds w)"
proof -
  obtain fd w1 where s: "sys_socket e w = (fd, w1)" by (metis prod.exhaust)
  show ?thesis
  proof (cases "fd = - 1")
    case True
    have "lowest_free (map fst (fds w)) \<noteq> - 1"
      using lowest_free_nonneg [of "map fst (fds w)"] by linarith
    with True have "w1 = emit (EvSocket (- 1)) w"
      using s by (auto simp: sys_socket_def Let_def split: if_splits)
    moreover have "still w (emit (EvSocket (- 1)) w)" by (rule still_emit) auto
    ultimately show ?thesis using s True by (simp add: ConnectToServer_def emit_def ex_bool_eq)
  next
    case False
    note ses = socket_session [OF s False]
    obtain r w2 where c: "sys_connect e fd addr (word_of_int prt) w1 = (r, w2)" by (metis prod.exhaust)
    note up = connect_up [OF ses(1,2) c]
    have log2: "log_ok e w2" using up log still_log_ok by blast
    show ?thesis
    proof (cases "r = - 1")
      case True
      let ?w3 = "err_logged e ''ConnectToServer() - NOT CONNECT'' fd L0 w2"
      obtain q w4 where cl: "sys_close e fd ?w3 = (q, w4)" by (metis prod.exhaust)
      have "session fd w ?w3" using up session_calm [OF _ logged_calm(2)] by blast
      note closed = close_session [OF this cl]
      have "still w w4" using up close_still [OF cl] still_logged(2) still_trans by blast
      with closed(1) s False c True log2 cl show ?thesis
        by (simp add: ConnectToServer_def ex_bool_eq)
    next
      case ok: False
      let ?w3 = "set_options fd w2"
      let ?w4 = "logged e ''ConnectToServer() SUCCESS'' fd L0 ?w3"
      have co: "connected_to e fd w w2" using up ok by blast
      have log3: "log_ok e ?w3" using log2 by (simp add: log_ok_def)
      have "still w ?w4" using up set_options_still still_trans still_logged(1) by blast
      moreover have "session fd w ?w4"
      proof -
        have "session fd w ?w3" using co set_options_tick [of w2 fd]
          by (auto simp: connected_to_def session_def)
        then show ?thesis using session_calm [OF _ logged_calm(1)] by blast
      qed
      moreover have "is_up fd ?w4" "pending fd ?w4 = pending fd w2"
        using co by (simp_all add: connected_to_def is_up_def pending_def)
      ultimately have "connected_to e fd w ?w4" using co by (auto simp: connected_to_def)
      with s False c ok log3 show ?thesis
        by (simp add: ConnectToServer_def ex_bool_eq connected_to_def)
    qed
  qed
qed

section \<open>A hundred attempts\<close>

text \<open>
  A connection that gets descriptor 0 looks like no connection: the loop goes on and the
  descriptor stays open. That is all that can be lost; with 0 in use nothing is.
\<close>

definition keeps :: "world \<Rightarrow> world \<Rightarrow> bool" where
  "keeps w w1 \<longleftrightarrow> still w w1 \<and> AList.delete 0 (fds w1) = AList.delete 0 (fds w) \<and>
     (0 \<in> open_fds w \<longrightarrow> fds w1 = fds w)"

lemma keeps_refl [simp]: "keeps w w"
  by (simp add: keeps_def)

lemma keeps_trans: "keeps w w1 \<Longrightarrow> keeps w1 w2 \<Longrightarrow> keeps w w2"
  unfolding keeps_def using still_trans by auto

lemma keepsI: "still w w1 \<Longrightarrow> fds w1 = fds w \<Longrightarrow> keeps w w1"
  by (simp add: keeps_def)

text \<open>The loop has used up its attempts: nothing is open, or the last attempt has been
  connected and nobody has looked.\<close>

definition late :: "int \<Rightarrow> world \<Rightarrow> world \<Rightarrow> bool" where
  "late fd w w1 \<longleftrightarrow> still w w1 \<and> (if fd = 0 then fds w1 = fds w else session fd w w1)"

lemma connect_tries_spec:
  "log_ok e w \<Longrightarrow>
   \<exists>conn fd w0 w1. connect_tries e c n 0 w = Some (conn, fd, w1) \<and> keeps w w0 \<and>
     (if conn then connected_to e fd w0 w1 \<and> fd \<noteq> 0 else late fd w0 w1)"
proof (induction n arbitrary: w)
  case 0
  then show ?case by (auto simp: late_def ex_bool_eq intro: exI [of _ w])
next
  case (Suc n)
  from ConnectToServer_spec [OF Suc.prems] obtain ok fd w1 where
    c: "ConnectToServer e (ip c) (port c) w = Some (ok, fd, w1)" "still w w1"
       "if ok then connected_to e fd w w1 else fds w1 = fds w"
    by blast
  have log1: "log_ok e w1" using still_log_ok [OF c(2) Suc.prems] .
  show ?case
  proof (cases "ok \<and> fd \<noteq> 0")
    case True
    with c have "connected_to e fd w w1" by simp
    then have "connected_to e fd w w1" "late fd w w1"
      using c(2) True by (simp_all add: late_def connected_to_def)
    with c(1) True show ?thesis
      by (cases n) (auto simp: ex_bool_eq intro: exI [of _ w])
  next
    case again: False
    let ?w2 = "if ok then w1 else err_logged e ''Connect Error'' fd L0 w1"
    have keep: "keeps w ?w2"
    proof (cases ok)
      case True
      with again c have "session 0 w w1" by (auto simp: connected_to_def)
      then have "0 \<notin> open_fds w" "AList.delete 0 (fds w1) = fds w" by (auto simp: session_def)
      with True c(2) show ?thesis by (simp add: keeps_def)
    next
      case False
      with c show ?thesis by (simp add: keepsI)
    qed
    have "log_ok e ?w2" using log1 by simp
    from Suc.IH [OF this] obtain conn fd' w0 w3 where
      IH: "connect_tries e c n 0 ?w2 = Some (conn, fd', w3)" "keeps ?w2 w0"
        "if conn then connected_to e fd' w0 w3 \<and> fd' \<noteq> 0 else late fd' w0 w3"
      by blast
    have "connect_tries e c (Suc n) 0 w = Some (conn, fd', w3)"
      using c(1) again log1 IH(1) by (cases ok) simp_all
    with keeps_trans [OF keep IH(2)] IH(3) show ?thesis by blast
  qed
qed

text \<open>When sockets are to be had and connections are accepted the first attempt succeeds.\<close>

definition friendly :: "env \<Rightarrow> nat \<Rightarrow> bool" where
  "friendly e t0 \<longleftrightarrow> (\<forall>t\<ge>t0. e_socket e t \<and> e_connect e t \<and> (\<exists>k\<ge>10. e_read e t = IoReady k) \<and>
     (\<exists>k\<ge>10. e_write e t = IoReady k))"

lemma friendly_later: "friendly e t0 \<Longrightarrow> t0 \<le> t1 \<Longrightarrow> friendly e t1"
  by (simp add: friendly_def)

lemma ConnectToServer_friendly:
  assumes log: "log_ok e w" and fr: "friendly e (tick w)"
  shows "\<exists>w1. ConnectToServer e addr prt w = Some (True, lowest_free (map fst (fds w)), w1) \<and>
    connected_to e (lowest_free (map fst (fds w))) w w1"
proof -
  let ?fd = "lowest_free (map fst (fds w))"
  have "e_socket e (tick w)" using fr by (simp add: friendly_def)
  then obtain w1 where s: "sys_socket e w = (?fd, w1)" by (simp add: sys_socket_def Let_def)
  have ne: "?fd \<noteq> - 1" using lowest_free_nonneg [of "map fst (fds w)"] by linarith
  note ses = socket_session [OF s ne]
  obtain w2 where c: "sys_connect e ?fd addr (word_of_int prt) w1 = (0, w2)"
    using fr ses by (auto simp: sys_connect_def friendly_def session_def)
  note up = connect_up [OF ses(1,2) c]
  then have "log_ok e (set_options ?fd w2)"
    using still_log_ok [OF _ log] by (auto simp: log_ok_def)
  with s ne c have "\<exists>w3. ConnectToServer e addr prt w = Some (True, ?fd, w3)"
    by (simp add: ConnectToServer_def)
  with ConnectToServer_spec [OF log, of addr prt] show ?thesis by auto
qed

lemma connect_tries_friendly:
  assumes "log_ok e w" "friendly e (tick w)" "0 \<in> open_fds w" "2 \<le> n"
  shows "\<exists>fd w1. connect_tries e c n 0 w = Some (True, fd, w1) \<and> connected_to e fd w w1 \<and> fd \<noteq> 0"
proof -
  let ?fd = "lowest_free (map fst (fds w))"
  obtain m where n: "n = Suc (Suc m)" using assms(4) by (metis le_Suc_ex add_2_eq_Suc)
  from ConnectToServer_friendly [OF assms(1,2), of "ip c" "port c"] obtain w1 where
    c: "ConnectToServer e (ip c) (port c) w = Some (True, ?fd, w1)" "connected_to e ?fd w w1"
    by blast
  then have "?fd \<noteq> 0" using assms(3) by (auto simp: connected_to_def session_def)
  with c n show ?thesis by (auto simp: ex_bool_eq)
qed

end
