(* ===== verification/AliveRequest.thy ===== *)
theory AliveRequest
  imports AliveConnect
begin

text \<open>
  One request over an open connection, and the four commands. For every behaviour of the
  network the descriptor is closed again and nothing but a prefix of the request has been
  sent; \<open>TRUE\<close> means that the whole request went out and a well-formed answer came back.
\<close>

section \<open>The arguments\<close>

fun arg_ok :: "arg \<Rightarrow> bool" where
  "arg_ok (AStr None) \<longleftrightarrow> False"
| "arg_ok (AStr (Some blk)) \<longleftrightarrow> c_str blk \<noteq> None"
| "arg_ok (AInt n) \<longleftrightarrow> True"

fun enc_arg :: "arg \<Rightarrow> byte list" where
  "enc_arg (AStr None) = []"
| "enc_arg (AStr (Some blk)) = enc_str (str_arg blk)"
| "enc_arg (AInt n) = enc_int n"

interpretation arg_writer: field_writer write_arg enc_arg arg_ok
proof
  fix p v
  assume p: "wr_ok p" "arg_ok v" "length (payload p) + length (enc_arg v) \<le> 2 ^ 30"
  show "\<exists>q. write_arg v p = Some (True, q) \<and> appended p q (enc_arg v)"
  proof (cases v)
    case (AStr b)
    with p str_writer.wr_appends [of p] show ?thesis by (cases b) auto
  next
    case (AInt n)
    with p int_writer.wr_appends [of p n] show ?thesis by simp
  qed
qed

definition args_ok :: "arg list \<Rightarrow> bool" where
  "args_ok args \<longleftrightarrow> (\<forall>a\<in>set args. arg_ok a) \<and> length (concat (map enc_arg args)) \<le> 2 ^ 30"

text \<open>The frame of a request.\<close>

definition request_frame :: "int \<Rightarrow> arg list \<Rightarrow> byte list" where
  "request_frame command args = good_frame 1 (word_of_int command) 0 (concat (map enc_arg args))"

text \<open>An answer with an error code, and the peers that do not reach the signed overflow.\<close>

definition answers :: "env \<Rightarrow> nat \<Rightarrow> int \<Rightarrow> bool" where
  "answers e t errorcode \<longleftrightarrow>
     (\<exists>cat cmd rsv v rest. e_peer e t = good_frame cat cmd rsv (be32 v) @ rest \<and> errorcode = sint v)"

definition sane_peers :: "env \<Rightarrow> bool" where
  "sane_peers e \<longleftrightarrow>
     (\<forall>t h rest. e_peer e t = h @ rest \<longrightarrow> good_header h \<longrightarrow> 10 - 2 ^ 31 \<le> frame_len h)"

section \<open>The session around a request\<close>

lemma io_sent_other: "io fd w w1 \<Longrightarrow> g \<noteq> fd \<Longrightarrow> sent g w1 = sent g w"
proof -
  assume "io fd w w1" "g \<noteq> fd"
  then obtain t where t: "trace w1 = trace w @ t" "\<forall>ev\<in>set t. writes_to fd ev"
    by (auto simp: io_def)
  from t(2) \<open>g \<noteq> fd\<close> have "concat (map (written g) t) = []"
    by (auto simp: writes_to_def written_def)
  with t(1) show ?thesis by (simp add: sent_def)
qed

text \<open>What is left of a session that has sent \<open>bs\<close> on \<open>fd\<close> and is closed.\<close>

definition closed_after :: "int \<Rightarrow> byte list \<Rightarrow> world \<Rightarrow> world \<Rightarrow> bool" where
  "closed_after fd bs w w1 \<longleftrightarrow> fds w1 = fds w \<and> m_strLogPath w1 = m_strLogPath w \<and> tick w \<le> tick w1 \<and>
     sent fd w1 = sent fd w @ bs \<and> (\<forall>g. g \<noteq> fd \<longrightarrow> sent g w1 = sent g w)"

lemma closed_after_logged [simp]:
  "closed_after fd bs w w1 \<Longrightarrow> closed_after fd bs w (logged e m s a w1)"
  "closed_after fd bs w w1 \<Longrightarrow> closed_after fd bs w (err_logged e m s a w1)"
  using logged_calm(1) [of w1] logged_calm(2) [of w1]
  by (auto simp: closed_after_def calm_def intro: order_trans)

text \<open>An open session that has sent \<open>bs\<close>.\<close>

definition sent_in :: "int \<Rightarrow> byte list \<Rightarrow> world \<Rightarrow> world \<Rightarrow> bool" where
  "sent_in fd bs w w1 \<longleftrightarrow> session fd w w1 \<and> sent fd w1 = sent fd w @ bs \<and>
     (\<forall>g. g \<noteq> fd \<longrightarrow> sent g w1 = sent g w)"

lemma sent_in_calm: "sent_in fd bs w w1 \<Longrightarrow> calm w1 w2 \<Longrightarrow> sent_in fd bs w w2"
  using session_calm [of fd w w1 w2] by (auto simp: sent_in_def calm_def sent_def)

lemma sent_in_quiet: "sent_in fd bs w w1 \<Longrightarrow> quiet fd w1 w2 \<Longrightarrow> sent_in fd bs w w2"
  using session_io [of fd w w1 w2] by (auto simp: sent_in_def quiet_def sent_def)

lemma sent_in_log_ok: "sent_in fd bs w w1 \<Longrightarrow> log_ok e w \<Longrightarrow> log_ok e w1"
  by (simp add: sent_in_def session_def log_ok_def)

lemma connected_sent_in: "connected_to e fd w w1 \<Longrightarrow> sent_in fd [] w w1"
  by (simp add: connected_to_def sent_in_def still_def)

lemma CloseToServer_session:
  assumes "sent_in fd bs w w1"
  shows "\<exists>r w2. CloseToServer e fd w1 = (r, w2) \<and> closed_after fd bs w w2"
proof -
  obtain r w2 where c: "sys_close e fd w1 = (r, w2)" by (metis prod.exhaust)
  with assms close_session [of fd w w1 e r w2] show ?thesis
    by (auto simp: CloseToServer_def sent_in_def closed_after_def)
qed

lemma fail_closing_session:
  "sent_in fd bs w w1 \<Longrightarrow> \<exists>w2. fail_closing e fd w1 = Some (False, 0, w2) \<and> closed_after fd bs w w2"
  using CloseToServer_session [of fd bs w w1 e] by (auto simp: fail_closing_def)

section \<open>The answer\<close>

text \<open>Reading the error code of a received packet, and the end of it.\<close>

lemma be32_of_le: "length bs = 4 \<Longrightarrow> be32 (ntohl (of_le bs)) = bs"
  by (simp add: ntohl_def bswap_of_le to_le_of_le_n)

lemma ReadInt_received:
  assumes "int (length dat) \<le> INT_MAX" "log_ok e w"
  shows "\<exists>ok v q w1. ReadInt e 0 (received cat cmd dat p) w = Some (ok, v, q, w1) \<and> calm w w1 \<and>
    (ok \<and> IsEOD q \<longleftrightarrow> length dat = 4) \<and> (ok \<longrightarrow> length dat = 4 \<longrightarrow> dat = be32 (ntohl (of_le dat)) \<and>
      v = sint (ntohl (of_le dat)))"
proof (cases "4 \<le> length dat")
  case False
  with ReadInt_eq [OF received_ok(1) [OF assms(1)] assms(2)] received_ok [OF assms(1)]
  show ?thesis by (simp add: ex_bool_eq)
next
  case True
  let ?p = "received cat cmd dat p"
  have "taken ?p (advance 4 ?p) (drop 4 dat)"
    using advance_ok [OF received_ok(1) [OF assms(1)], of 4] received_ok [OF assms(1)] True by simp
  then have "IsEOD (advance 4 ?p) \<longleftrightarrow> length dat = 4"
    using True IsEOD_remaining [of "advance 4 ?p"] by (auto simp: taken_def)
  with True ReadInt_eq [OF received_ok(1) [OF assms(1)] assms(2)] received_ok [OF assms(1)]
  show ?thesis by (auto simp: ex_bool_eq be32_of_le)
qed

lemma await_spec:
  assumes log: "log_ok e w1" and s: "sent_in fd bs w w1" and pend: "pending fd w1 = e_peer e t"
    and peers: "sane_peers e"
  shows "\<exists>ok ec w2. await e fd w1 = Some (ok, ec, w2) \<and> closed_after fd bs w w2 \<and>
    (ok \<longrightarrow> answers e t ec \<and> ec \<noteq> ERR_FAILED)"
proof -
  let ?p = "InitPacket1 fd (CPacket_new 0)"
  obtain ok q w2 where r: "ReceivePacket e ?p w1 = Some (ok, q, w2)"
    using ReceivePacket_undefined [of e ?p w1] log peers pend
    by (cases "ReceivePacket e ?p w1") (fastforce simp: sane_peers_def)+
  note sound = ReceivePacket_sound [OF r log, simplified]
  have s2: "sent_in fd bs w w2" using sent_in_quiet [OF s] sound by blast
  have log2: "log_ok e w2" using quiet_log_ok [OF _ log] sound by blast
  note fail2 = fail_closing_session [OF s2, of e]
  show ?thesis
  proof (cases ok)
    case False
    with r fail2 show ?thesis by (auto simp: await_def)
  next
    case True
    with sound obtain cat cmd rsv dat where
      d: "int (length dat) + 10 \<le> INT_MAX" "e_peer e t = good_frame cat cmd rsv dat @ pending fd w2"
         "q = received cat cmd dat ?p"
      unfolding pend by blast
    from ReadInt_received [of dat e w2 cat cmd ?p] d(1) log2 obtain ok' v p' w3 where
      v: "ReadInt e 0 q w2 = Some (ok', v, p', w3)" "calm w2 w3"
         "ok' \<and> IsEOD p' \<longleftrightarrow> length dat = 4"
         "ok' \<longrightarrow> length dat = 4 \<longrightarrow> dat = be32 (ntohl (of_le dat)) \<and> v = sint (ntohl (of_le dat))"
      unfolding d(3) by auto
    have s3: "sent_in fd bs w w3" using sent_in_calm [OF s2 v(2)] .
    note fail3 = fail_closing_session [OF s3, of e] and close3 = CloseToServer_session [OF s3, of e]
    show ?thesis
    proof (cases "ok' \<and> IsEOD p' \<and> v \<noteq> ERR_FAILED")
      case False
      with r True v(1) fail3 show ?thesis by (auto simp: await_def)
    next
      case all: True
      then have "answers e t v" using v(3,4) d(2) unfolding answers_def by metis
      with r True v(1) all close3 show ?thesis by (auto simp: await_def)
    qed
  qed
qed

section \<open>The request\<close>

lemma write_all_fds:
  "write_all (sys_write e fd) chunk bs w = (st, w1) \<Longrightarrow> fds w1 = fds w"
  by (erule write_all_keeps [where R = "\<lambda>u v. fds v = fds u", rotated 3]) (auto dest: sys_write_fds)

lemma SendPacket_fds:
  assumes "SendPacket e p w = Some (ok, w1)"
  shows "fds w1 = fds w"
proof (cases "m_nCategory p = 0 \<or> m_nCommand p = 0")
  case True
  with assms show ?thesis by (auto simp: SendPacket_def)
next
  case False
  let ?fd = "m_nClientSockfd p"
  have log: "fds w2 = fds w1" if "WriteErrorLog e m s a w1 = Some w2" for m s a w1 w2
    using that by (auto simp: WriteErrorLog_def append_line_def wrote_line_def split: if_splits)
  obtain n w2 where wr: "sys_write e ?fd (packet_header (m_nDataPointer p + 10) p) w = (n, w2)"
    by (metis prod.exhaust)
  let ?data = "Option.bind (peek 0 (max 0 (m_nDataPointer p)) (data_cells p)) those"
  show ?thesis
  proof (cases "n = 10 \<and> ?data \<noteq> None")
    case True
    then obtain d where d: "?data = Some d" by auto
    obtain st w3 where w3: "write_all (sys_write e ?fd) PACKET_SIZE d w2 = (st, w3)" by (metis prod.exhaust)
    with assms False True d write_all_fds [OF w3] sys_write_fds [OF wr]
    show ?thesis unfolding SendPacket_def Let_def wr
      by (auto simp: bind_eq_Some_conv dest!: log split: option.splits)
  next
    case False': False
    with assms False sys_write_fds [OF wr] show ?thesis
      unfolding SendPacket_def Let_def wr
      by (cases "n = 10") (auto simp del: bind_eq_None_conv dest!: log simp: bind_eq_Some_conv)
  qed
qed

lemma sent_in_sends:
  "sent_in fd [] w w1 \<Longrightarrow> io fd w1 w2 \<Longrightarrow> sent fd w2 = sent fd w1 @ bs \<Longrightarrow> sent_in fd bs w w2"
  using session_io io_sent_other by (auto simp: sent_in_def)

lemma word_category [simp]: "word_of_int CAT_REQUEST = (1 :: byte)"
  by (simp add: CAT_REQUEST_def)

lemma written_request:
  assumes "args_ok args"
  shows "\<exists>q. write_seq write_arg args (InitPacket3 CAT_REQUEST command fd (CPacket_new 0)) = Some (True, q) \<and>
    wr_ok q \<and> m_nClientSockfd q = fd \<and> m_nCategory q = CAT_REQUEST \<and> m_nCommand q = command \<and>
    sent_frame q = request_frame command args"
proof -
  let ?p = "InitPacket3 CAT_REQUEST command fd (CPacket_new 0)"
  from arg_writer.write_seq_appends [of ?p args] assms obtain q where
    q: "write_seq write_arg args ?p = Some (True, q)" "appended ?p q (concat (map enc_arg args))"
    by (auto simp: args_ok_def)
  have "same_id ?p q" "wr_ok q" "payload q = concat (map enc_arg args)"
    using q(2) by (simp_all add: appended_def)
  then have "m_nClientSockfd q = fd \<and> m_nCategory q = CAT_REQUEST \<and> m_nCommand q = command"
    by (simp add: same_id_def InitPacket3_def)
  with q(1) \<open>wr_ok q\<close> \<open>payload q = _\<close> show ?thesis
    by (auto simp: sent_frame_def request_frame_def)
qed

text \<open>
  The outcome of a command on an open connection. \<open>TRUE\<close>: the whole frame is sent, the peer has
  answered. \<open>FALSE\<close>: a prefix of the frame is sent. In both cases the descriptor is closed.
\<close>

definition request_result ::
  "env \<Rightarrow> int \<Rightarrow> byte list \<Rightarrow> world \<Rightarrow> bool \<Rightarrow> int \<Rightarrow> world \<Rightarrow> bool" where
  "request_result e fd frame w ok ec w1 \<longleftrightarrow>
     (\<exists>k. closed_after fd (take k frame) w w1) \<and>
     (ok \<longrightarrow> closed_after fd frame w w1 \<and> ec \<noteq> ERR_FAILED \<and> (\<exists>t\<ge>tick w. answers e t ec))"

lemma request_spec:
  assumes log: "log_ok e w" and c: "connected_to e fd w w1" and args: "args_ok args"
    and peers: "sane_peers e"
  shows "\<exists>ok ec w2. request e command fd args w1 = Some (ok, ec, w2) \<and>
    request_result e fd (request_frame command args) w ok ec w2"
proof -
  let ?f = "request_frame command args"
  have s1: "sent_in fd [] w w1" using connected_sent_in [OF c] .
  have log1: "log_ok e w1" using sent_in_log_ok [OF s1 log] .
  from c obtain t where t: "tick w \<le> t" "pending fd w1 = e_peer e t" by (auto simp: connected_to_def)
  from written_request [OF args] obtain q where
    q: "write_seq write_arg args (InitPacket3 CAT_REQUEST command fd (CPacket_new 0)) = Some (True, q)"
       "wr_ok q" "m_nClientSockfd q = fd" "sent_frame q = ?f"
    by blast
  from SendPacket_sound [OF q(2) log1, unfolded q(3,4)] obtain ok w2 k where
    snd: "SendPacket e q w1 = Some (ok, w2)" "io fd w1 w2" "sent fd w2 = sent fd w1 @ take k ?f"
         "ok \<longrightarrow> sent fd w2 = sent fd w1 @ ?f"
    by blast
  show ?thesis
  proof (cases ok)
    case False
    from fail_closing_session [OF sent_in_sends [OF s1 snd(2,3)], of e] q(1) snd(1) False show ?thesis
      by (auto simp: request_def request_result_def)
  next
    case True
    then have s2: "sent_in fd ?f w w2" using sent_in_sends [OF s1 snd(2)] snd(4) by simp
    have "pending fd w2 = e_peer e t" using SendPacket_fds [OF snd(1)] t(2) by (simp add: pending_def)
    from await_spec [OF sent_in_log_ok [OF s2 log] s2 this peers] obtain ok' ec w3 where
      "await e fd w2 = Some (ok', ec, w3)" "closed_after fd ?f w w3"
      "ok' \<longrightarrow> answers e t ec \<and> ec \<noteq> ERR_FAILED"
      by auto
    with q(1) snd(1) True t(1) show ?thesis
      by (auto simp: request_def request_result_def intro: exI [of _ "length ?f"])
  qed
qed

section \<open>When the network is friendly\<close>

definition acknowledges :: "env \<Rightarrow> nat \<Rightarrow> bool" where
  "acknowledges e t0 \<longleftrightarrow> (\<forall>t\<ge>t0. \<exists>ec. answers e t ec \<and> ec \<noteq> ERR_FAILED)"

lemma friendly_can:
  assumes "friendly e (tick w)" "is_up fd w"
  shows "can_read e fd w" "can_write e fd w"
    "\<exists>k. e_read e (tick w) = IoReady k \<and> 10 \<le> k" "\<exists>k. e_write e (tick w) = IoReady k \<and> 10 \<le> k"
  using assms by (fastforce simp: friendly_def can_read_def can_write_def)+

lemma await_complete:
  assumes log: "log_ok e w1" and s: "sent_in fd bs w w1" and up: "is_up fd w1"
    and pend: "pending fd w1 = good_frame cat cmd rsv (be32 v) @ rest"
    and fr: "friendly e (tick w1)" and ok: "sint v \<noteq> ERR_FAILED"
  shows "\<exists>w2. await e fd w1 = Some (True, sint v, w2) \<and> closed_after fd bs w w2"
proof -
  let ?p = "InitPacket1 fd (CPacket_new 0)" and ?q = "received cat cmd (be32 v)"
  note can = friendly_can [OF fr up]
  from can(3) obtain k where k: "e_read e (tick w1) = IoReady k" "10 \<le> k" by blast
  from ReceivePacket_complete [OF log _ k, of ?p cat cmd rsv "be32 v" rest] can(1) pend obtain w2 where
    r: "ReceivePacket e ?p w1 = Some (True, ?q ?p, w2)" "quiet fd w1 w2"
    by (auto simp: INT_MAX_def)
  have s2: "sent_in fd bs w w2" using sent_in_quiet [OF s r(2)] .
  have log2: "log_ok e w2" using quiet_log_ok [OF r(2) log] .
  note rec = received_ok [of "be32 v" cat cmd ?p]
  have "ReadInt e 0 (?q ?p) w2 = Some (True, sint v, advance 4 (?q ?p), w2)"
    using rec log2 by (simp add: ReadInt_eq INT_MAX_def ntohl_of_be32)
  moreover have "IsEOD (advance 4 (?q ?p))" by (simp add: IsEOD_def advance_def received_def)
  ultimately show ?thesis
    using r(1) ok CloseToServer_session [OF s2, of e] by (auto simp: await_def)
qed

lemma request_complete:
  assumes log: "log_ok e w" and c: "connected_to e fd w w1" and args: "args_ok args"
    and cmd: "command \<noteq> 0" and fr: "friendly e (tick w)" and ack: "acknowledges e (tick w)"
  shows "\<exists>ec w2. request e command fd args w1 = Some (True, ec, w2) \<and>
    closed_after fd (request_frame command args) w w2"
proof -
  let ?f = "request_frame command args"
  have s1: "sent_in fd [] w w1" using connected_sent_in [OF c] .
  have log1: "log_ok e w1" using sent_in_log_ok [OF s1 log] .
  from c ack obtain t ec where t: "pending fd w1 = e_peer e t" "answers e t ec" "ec \<noteq> ERR_FAILED"
    unfolding connected_to_def acknowledges_def by metis
  then obtain cat cm rsv v rest where
    peer: "pending fd w1 = good_frame cat cm rsv (be32 v) @ rest" "sint v \<noteq> ERR_FAILED"
    by (auto simp: answers_def)
  have w1: "is_up fd w1" "tick w \<le> tick w1" using c by (auto simp: connected_to_def session_def)
  from written_request [OF args] obtain q where
    q: "write_seq write_arg args (InitPacket3 CAT_REQUEST command fd (CPacket_new 0)) = Some (True, q)"
       "wr_ok q" "m_nClientSockfd q = fd" "sent_frame q = ?f"
       "m_nCategory q = CAT_REQUEST" "m_nCommand q = command"
    by blast
  have id: "m_nCategory q \<noteq> 0" "m_nCommand q \<noteq> 0" using q(5,6) cmd by (simp_all add: CAT_REQUEST_def)
  note can = friendly_can [OF friendly_later [OF fr w1(2)] w1(1)]
  from can(4) obtain k where k: "e_write e (tick w1) = IoReady k" "10 \<le> k" by blast
  from SendPacket_complete [OF q(2) log1 _ k id] can(2) q(3,4) obtain w2 where
    snd: "SendPacket e q w1 = Some (True, w2)" "io fd w1 w2" "sent fd w2 = sent fd w1 @ ?f"
    by auto
  have s2: "sent_in fd ?f w w2" using sent_in_sends [OF s1 snd(2,3)] .
  have f2: "fds w2 = fds w1" using SendPacket_fds [OF snd(1)] .
  have "tick w \<le> tick w2" using s2 by (simp add: sent_in_def session_def)
  with await_complete [OF sent_in_log_ok [OF s2 log] s2 _ _ friendly_later [OF fr]] f2 peer w1(1)
  show ?thesis using q(1) snd(1) by (fastforce simp: request_def is_up_def pending_def)
qed

end
