(* ===== verification/AliveCommands.thy ===== *)
theory AliveCommands
  imports AliveRequest
begin

text \<open>
  The four commands and the rounds of \<open>alive_process_thread\<close>: they return for every behaviour
  of the network, they leave the descriptor table as they found it, descriptor 0 apart, and
  they send a prefix of their frame, all of it when they return \<open>TRUE\<close>.
\<close>

section \<open>What a command may do\<close>

definition only_zero :: "world \<Rightarrow> world \<Rightarrow> bool" where
  "only_zero w w1 \<longleftrightarrow> AList.delete 0 (fds w1) = AList.delete 0 (fds w)"

definition gave_up :: "world \<Rightarrow> world \<Rightarrow> bool" where
  "gave_up w w1 \<longleftrightarrow> still w w1 \<and> only_zero w w1"

definition exchanged :: "env \<Rightarrow> byte list \<Rightarrow> world \<Rightarrow> bool \<Rightarrow> world \<Rightarrow> bool" where
  "exchanged e frame w ok w1 \<longleftrightarrow>
     (\<exists>fd. 0 < fd \<and> fd \<notin> open_fds w \<and> m_strLogPath w1 = m_strLogPath w \<and> tick w \<le> tick w1 \<and>
        (\<forall>g. g \<noteq> fd \<longrightarrow> sent g w1 = sent g w) \<and>
        (\<exists>k. sent fd w1 = sent fd w @ take k frame) \<and>
        (ok \<longrightarrow> sent fd w1 = sent fd w @ frame \<and>
           (\<exists>t\<ge>tick w. \<exists>ec. answers e t ec \<and> ec \<noteq> ERR_FAILED)) \<and>
        only_zero w w1 \<and> (0 \<in> open_fds w \<longrightarrow> fds w1 = fds w))"

definition outcome :: "env \<Rightarrow> byte list \<Rightarrow> world \<Rightarrow> bool \<Rightarrow> world \<Rightarrow> bool" where
  "outcome e frame w ok w1 \<longleftrightarrow> (\<not> ok \<and> gave_up w w1) \<or> exchanged e frame w ok w1"

lemma outcome_frame:
  "outcome e frame w ok w1 \<Longrightarrow>
   only_zero w w1 \<and> m_strLogPath w1 = m_strLogPath w \<and> tick w \<le> tick w1"
  by (auto simp: outcome_def gave_up_def exchanged_def still_def)

lemma outcome_log_ok: "outcome e frame w ok w1 \<Longrightarrow> log_ok e w \<Longrightarrow> log_ok e w1"
  using outcome_frame by (fastforce simp: log_ok_def)

lemma outcome_logged:
  "outcome e frame w ok w1 \<Longrightarrow> outcome e frame w ok (logged e m s a w1)"
proof -
  assume o: "outcome e frame w ok w1"
  have "gave_up w w1 \<Longrightarrow> gave_up w (logged e m s a w1)"
    by (simp add: gave_up_def only_zero_def)
  moreover have "tick w1 \<le> tick (logged e m s a w1)"
    using logged_calm(1) [of w1] by (simp add: calm_def)
  ultimately show ?thesis
    using o by (auto simp: outcome_def exchanged_def only_zero_def intro: order_trans)
qed

section \<open>The pieces of a command\<close>

lemma keeps_sent: "keeps w w0 \<Longrightarrow> sent fd w0 = sent fd w"
  by (simp add: keeps_def still_def)

lemma keeps_log_ok: "keeps w w0 \<Longrightarrow> log_ok e w \<Longrightarrow> log_ok e w0"
  by (auto simp: keeps_def intro: still_log_ok)

lemma close_late:
  assumes k: "keeps w w0" and l: "late fd w0 w1"
    and c: "sys_close e fd w2 = (r, w3)" and same: "fds w2 = fds w1" "still w1 w2"
  shows "gave_up w w3"
proof -
  have st: "still w w3"
    using k l same(2) close_still [OF c] still_trans by (metis keeps_def late_def)
  have "AList.delete 0 (fds w3) = AList.delete 0 (fds w0)"
  proof (cases "fd = 0")
    case True
    with l same c show ?thesis
      by (auto simp: late_def sys_close_def emit_def delete_idem split: if_splits)
  next
    case False
    with l have "session fd w0 w1" by (simp add: late_def)
    then have "session fd w0 w2" using same by (auto simp: session_def still_def)
    from close_session(1) [OF this c] show ?thesis by simp
  qed
  with st k show ?thesis by (simp add: gave_up_def only_zero_def keeps_def)
qed

lemma gave_up_logged: "gave_up w w1 \<Longrightarrow> gave_up w (err_logged e m s a w1)"
  by (simp add: gave_up_def only_zero_def)

lemma give_up_spec:
  assumes log: "log_ok e w" and k: "keeps w w0" and l: "late fd w0 w1"
  shows "\<exists>w2. give_up e m fd w1 = Some (False, w2) \<and> gave_up w w2"
proof -
  obtain r w2 where c: "sys_close e fd w1 = (r, w2)" by (metis prod.exhaust)
  have g: "gave_up w w2" using close_late [OF k l c refl] by simp
  then have "log_ok e w2" using still_log_ok [OF _ log] by (simp add: gave_up_def)
  with c gave_up_logged [OF g] show ?thesis by (simp add: give_up_def CloseToServer_def)
qed

lemma connected_later:
  "connected_to e fd w w1 \<Longrightarrow> fds w2 = fds w1 \<Longrightarrow> still w1 w2 \<Longrightarrow> connected_to e fd w w2"
  unfolding connected_to_def using still_trans [of w w1 w2]
  by (auto simp: session_def still_def is_up_def pending_def)

lemma exchangedI:
  assumes k: "keeps w w0" and c: "connected_to e fd w0 w1" and ne: "fd \<noteq> 0"
    and r: "request_result e fd frame w0 ok ec w2"
  shows "exchanged e frame w ok w2"
proof -
  have fd: "0 < fd" "fd \<notin> open_fds w0" using c ne by (auto simp: connected_to_def session_def)
  have t: "tick w \<le> tick w0" using k by (simp add: keeps_def still_def)
  have "fd \<notin> open_fds w"
  proof
    assume "fd \<in> open_fds w"
    then have "fd \<in> keys (AList.delete 0 (fds w))" using fd by simp
    also have "AList.delete 0 (fds w) = AList.delete 0 (fds w0)" using k by (simp add: keeps_def)
    finally show False using fd by simp
  qed
  moreover from r obtain n where "closed_after fd (take n frame) w0 w2"
    by (auto simp: request_result_def)
  ultimately show ?thesis
    using r fd k t unfolding exchanged_def request_result_def closed_after_def
    by (intro exI [of _ fd])
      (auto simp: keeps_def still_def only_zero_def intro: order_trans)
qed

text \<open>
  A command: connect, some steps that only look around, the request. The commands differ in
  those steps and in their arguments.
\<close>

lemma command_spec:
  assumes log: "log_ok e w" and peers: "sane_peers e" and args: "args_ok args"
    and k: "keeps w w0" and c: "connected_to e fd w0 w1" "fd \<noteq> 0"
    and look: "fds w2 = fds w1" "still w1 w2"
  shows "\<exists>ok ec w3. request e command fd args w2 = Some (ok, ec, w3) \<and>
    outcome e (request_frame command args) w ok w3"
proof -
  have c2: "connected_to e fd w0 w2" using connected_later [OF c(1) look] .
  from request_spec [OF keeps_log_ok [OF k log] c2 args peers] exchangedI [OF k c2 c(2)]
  show ?thesis by (fastforce simp: outcome_def)
qed

section \<open>The commands\<close>

text \<open>The information \<open>main\<close> hands over, when all of it has been found.\<close>

definition field_len :: "char list option \<Rightarrow> nat" where
  "field_len b = (case b of None \<Rightarrow> 0 | Some blk \<Rightarrow> length (str_arg blk))"

definition set_string :: "char list option \<Rightarrow> bool" where
  "set_string b \<longleftrightarrow> (\<exists>blk. b = Some blk \<and> c_str blk \<noteq> None) \<and> field_len b \<le> 10 ^ 6"

definition conninfo_ok :: "conninfo \<Rightarrow> bool" where
  "conninfo_ok c \<longleftrightarrow> set_string (external_ip c) \<and> set_string (availability_zone c) \<and>
     set_string (host c) \<and> set_string (metaname c) \<and> set_string (uuid c)"

lemma set_string_arg:
  "set_string b \<Longrightarrow> arg_ok (AStr b) \<and> length (enc_arg (AStr b)) \<le> 4 + 10 ^ 6"
  by (auto simp: set_string_def field_len_def)

lemma str_arg_terminated [simp]: "NUL \<notin> set s \<Longrightarrow> str_arg (terminated s) = s"
  and c_str_terminated' [simp]: "NUL \<notin> set s \<Longrightarrow> c_str (terminated s) = Some s"
  by (simp_all add: str_arg_def terminated_def)

definition alive_args :: "conninfo \<Rightarrow> arg list" where
  "alive_args c = [AStr (metaname c), AStr (uuid c)]"

lemma alive_args_ok: "conninfo_ok c \<Longrightarrow> args_ok (alive_args c)"
  using set_string_arg [of "metaname c"] set_string_arg [of "uuid c"]
  by (auto simp: conninfo_ok_def args_ok_def alive_args_def)

lemma command_alive_report_spec:
  assumes log: "log_ok e w" and peers: "sane_peers e" and c: "conninfo_ok c"
  shows "\<exists>ok w1. command_alive_report e c w = Some (ok, w1) \<and>
    outcome e (request_frame REQ_ALIVE_STATUS (alive_args c)) w ok w1"
proof -
  from connect_tries_spec [OF log] obtain conn fd w0 w1 where
    t: "connect_tries e c MAX_TRIES 0 w = Some (conn, fd, w1)" "keeps w w0"
       "if conn then connected_to e fd w0 w1 \<and> fd \<noteq> 0 else late fd w0 w1"
    by blast
  show ?thesis
  proof (cases conn)
    case False
    with t give_up_spec [OF log t(2), of fd w1 "''Connect try count exceed''"] show ?thesis
      by (auto simp: command_alive_report_def outcome_def)
  next
    case True
    with t command_spec [OF log peers alive_args_ok [OF c] t(2), of fd w1 w1 REQ_ALIVE_STATUS]
    show ?thesis by (auto simp: command_alive_report_def alive_args_def)
  qed
qed

text \<open>The interfaces whose list fits the two buffers of \<open>command_heartbeat_report\<close>.\<close>

definition ip_entry :: "ifaddr \<Rightarrow> string" where
  "ip_entry ifa =
     (case ifa_addr ifa of
        None \<Rightarrow> []
      | Some (family, addr) \<Rightarrow>
          if family = AF_INET \<and> ifa_name ifa \<noteq> ''lo'' then ifa_name ifa @ '':'' @ addr @ '','' else [])"

definition ip_list :: "ifaddr list \<Rightarrow> string" where
  "ip_list ifs = concat (map ip_entry ifs)"

definition interfaces_ok :: "ifaddr list \<Rightarrow> bool" where
  "interfaces_ok ifs \<longleftrightarrow>
     (\<forall>i\<in>set ifs. ifa_addr i \<noteq> None \<and> length (ip_entry i) < 64 \<and> NUL \<notin> set (ip_entry i)) \<and>
     length (ip_list ifs) < 256"

lemma client_ips_acc:
  "(\<forall>i\<in>set ifs. ifa_addr i \<noteq> None \<and> length (ip_entry i) < 64) \<Longrightarrow>
   length acc + length (ip_list ifs) < 256 \<Longrightarrow> client_ips ifs acc = Some (acc @ ip_list ifs)"
proof (induction ifs arbitrary: acc)
  case Nil
  then show ?case by (simp add: ip_list_def)
next
  case (Cons i ifs)
  then obtain family addr where "ifa_addr i = Some (family, addr)" by auto
  with Cons show ?case
    by (cases "family = AF_INET \<and> ifa_name i \<noteq> ''lo''")
      (auto simp: ip_list_def ip_entry_def [of i] Let_def)
qed

lemma client_ips_ok: "interfaces_ok ifs \<Longrightarrow> client_ips ifs [] = Some (ip_list ifs)"
  using client_ips_acc [of ifs "[]"] by (simp add: interfaces_ok_def)

lemma ip_list_no_NUL: "interfaces_ok ifs \<Longrightarrow> NUL \<notin> set (ip_list ifs)"
  by (auto simp: interfaces_ok_def ip_list_def)

definition heartbeat_args :: "conninfo \<Rightarrow> string \<Rightarrow> arg list" where
  "heartbeat_args c ips =
     [AStr (metaname c), AStr (host c), AInt (server_type c), AStr (uuid c),
      AStr (Some (terminated ips)), AStr (availability_zone c), AStr (external_ip c)]"

lemma heartbeat_args_ok:
  assumes c: "conninfo_ok c" and ips: "NUL \<notin> set ips" "length ips < 256"
  shows "args_ok (heartbeat_args c ips)"
  using assms set_string_arg [of "metaname c"] set_string_arg [of "uuid c"] set_string_arg [of "host c"]
    set_string_arg [of "availability_zone c"] set_string_arg [of "external_ip c"]
  by (auto simp: conninfo_ok_def args_ok_def heartbeat_args_def)

text \<open>What the rest of the machine must do: list its interfaces, create curl handles, and the
  address service answer with an address.\<close>

definition ifs_ok :: "env \<Rightarrow> bool" where
  "ifs_ok e \<longleftrightarrow> (\<forall>t. \<exists>ifs. e_ifaddrs e t = Some ifs \<and> interfaces_ok ifs)"

lemma still_tick: "still w (w\<lparr>tick := Suc (tick w)\<rparr>)"
  by (simp add: still_def sent_def)

lemma command_heartbeat_report_spec:
  assumes log: "log_ok e w" and peers: "sane_peers e" and c: "conninfo_ok c" and ifs: "ifs_ok e"
  shows "\<exists>ok w1 t ifs. command_heartbeat_report e c w = Some (ok, w1) \<and> e_ifaddrs e t = Some ifs \<and>
    outcome e (request_frame REQ_REGISTRY_HEARTBEAT (heartbeat_args c (ip_list ifs))) w ok w1"
proof -
  let ?f = "\<lambda>ifs. request_frame REQ_REGISTRY_HEARTBEAT (heartbeat_args c (ip_list ifs))"
  from connect_tries_spec [OF log] obtain conn fd w0 w1 where
    t: "connect_tries e c MAX_TRIES 0 w = Some (conn, fd, w1)" "keeps w w0"
       "if conn then connected_to e fd w0 w1 \<and> fd \<noteq> 0 else late fd w0 w1"
    by blast
  from ifs obtain il where il: "e_ifaddrs e (tick w1) = Some il" "interfaces_ok il"
    unfolding ifs_ok_def by blast
  show ?thesis
  proof (cases conn)
    case False
    with t give_up_spec [OF log t(2), of fd w1 "''Connect try count exceed - command_heartbeat_report''"]
    obtain w2 where "command_heartbeat_report e c w = Some (False, w2)" "gave_up w w2"
      by (auto simp: command_heartbeat_report_def)
    with il(1) show ?thesis unfolding outcome_def by blast
  next
    case True
    let ?w2 = "w1\<lparr>tick := Suc (tick w1)\<rparr>"
    have "args_ok (heartbeat_args c (ip_list il))"
      using heartbeat_args_ok [OF c ip_list_no_NUL [OF il(2)]] il(2) by (simp add: interfaces_ok_def)
    from command_spec [OF log peers this t(2), of fd w1 ?w2 REQ_REGISTRY_HEARTBEAT] t(3) True still_tick
    obtain ok ec w3 where
      r: "request e REQ_REGISTRY_HEARTBEAT fd (heartbeat_args c (ip_list il)) ?w2 = Some (ok, ec, w3)"
         "outcome e (?f il) w ok w3"
      by auto
    have log3: "log_ok e w3" using outcome_log_ok [OF r(2) log] .
    have "\<exists>w4. command_heartbeat_report e c w = Some (ok, w4) \<and> outcome e (?f il) w ok w4"
      using t(1) True il r log3 outcome_logged [OF r(2)]
      by (cases ok)
        (auto simp: command_heartbeat_report_def sys_getifaddrs_def client_ips_ok heartbeat_args_def)
    with il(1) show ?thesis by blast
  qed
qed

text \<open>The answer of the address service fits \<open>external_ip[64]\<close>.\<close>

definition ip_url :: string where "ip_url = ''http://bot.whatismyipaddress.com''"

definition web_ok :: "env \<Rightarrow> bool" where
  "web_ok e \<longleftrightarrow> (\<forall>t url. curl_init (e_curl e t url) \<and> curl_ok (e_curl e t url)) \<and>
     (\<forall>t. length (concat (curl_body (e_curl e t ip_url))) < 64)"

definition metadata_args :: "conninfo \<Rightarrow> string \<Rightarrow> int \<Rightarrow> arg list" where
  "metadata_args c addr health = [AStr (uuid c), AStr (Some (terminated addr)), AInt health]"

lemma external_ip_buffer_ok:
  assumes "res_code r \<noteq> None" "length (res_body r) < 64"
  shows "\<exists>s. external_ip_buffer r = Some s \<and> NUL \<notin> set s \<and> length s < 64"
  using assms length_takeWhile_le [of "\<lambda>c. c \<noteq> NUL" "res_body r"] takeWhile_no_NUL [of "res_body r"]
  by (auto simp: external_ip_buffer_def Let_def intro: order_le_less_trans)

lemma get_web:
  assumes "web_ok e"
  shows "\<exists>r w1. get e url header w = Some (r, w1) \<and> fds w1 = fds w \<and> still w w1 \<and> res_code r \<noteq> None \<and>
    (url_arg url = ip_url \<longrightarrow> length (res_body r) < 64)"
proof -
  have "curl_ok (e_curl e (tick w) (url_arg url))" "curl_init (e_curl e (tick w) (url_arg url))"
    using assms by (simp_all add: web_ok_def)
  with assms show ?thesis
    by (auto simp: get_def Let_def deliver_ok curl_ok_def no_response_def web_ok_def still_def
        emit_def sent_def written_def)
qed

lemma command_metadata_report_spec:
  assumes log: "log_ok e w" and peers: "sane_peers e" and c: "conninfo_ok c" and web: "web_ok e"
  shows "\<exists>ok w1 addr health. command_metadata_report e c w = Some (ok, w1) \<and> health \<in> {0, 1} \<and>
    length addr < 64 \<and> NUL \<notin> set addr \<and> outcome e (request_frame REQ_METADATA_REPORT (metadata_args c addr health)) w ok w1"
proof -
  from connect_tries_spec [OF log] obtain conn fd w0 w1 where
    t: "connect_tries e c MAX_TRIES 0 w = Some (conn, fd, w1)" "keeps w w0"
       "if conn then connected_to e fd w0 w1 \<and> fd \<noteq> 0 else late fd w0 w1"
    by blast
  show ?thesis
  proof (cases conn)
    case False
    with t give_up_spec [OF log t(2), of fd w1 "''Connect try count exceed - command_metadata_report''"]
    obtain w2 where "command_metadata_report e c w = Some (False, w2)" "gave_up w w2"
      by (auto simp: command_metadata_report_def)
    then show ?thesis unfolding outcome_def by (intro exI [of _ False] exI [of _ w2] exI [of _ "[]"]) auto
  next
    case True
    from get_web [OF web] obtain r2 w2 where
      g1: "get e ''http://169.254.169.254/openstack/latest/meta_data.json'' [] w1 = Some (r2, w2)"
      "fds w2 = fds w1" "still w1 w2" "res_code r2 \<noteq> None" by blast
    have "url_arg ip_url = ip_url" by (simp add: url_arg_def ip_url_def)
    with get_web [OF web, of ip_url "[]" w2] obtain r3 w3 where
      g2: "get e ip_url [] w2 = Some (r3, w3)" "fds w3 = fds w2" "still w2 w3" "res_code r3 \<noteq> None"
        "length (res_body r3) < 64" by auto
    from external_ip_buffer_ok [OF g2(4,5)] obtain s where
      s: "external_ip_buffer r3 = Some s" "NUL \<notin> set s" "length s < 64" by blast
    from g1(4) obtain rc where rc: "res_code r2 = Some rc" by blast
    let ?h = "if rc = 0 then 0 else 1" and ?a = "metadata_args c s (if rc = 0 then 0 else 1)"
    have "args_ok ?a"
      using s c set_string_arg [of "uuid c"] by (auto simp: conninfo_ok_def args_ok_def metadata_args_def)
    from command_spec [OF log peers this t(2), of fd w1 w3 REQ_METADATA_REPORT] t(3) True
      g1(2) g2(2) still_trans [OF g1(3) g2(3)]
    obtain ok ec w4 where
      r: "request e REQ_METADATA_REPORT fd ?a w3 = Some (ok, ec, w4)"
         "outcome e (request_frame REQ_METADATA_REPORT ?a) w ok w4" by auto
    have "command_metadata_report e c w = Some (ok, w4)"
      using t(1) True g1(1) g2(1) s(1) rc r(1)
      by (simp add: command_metadata_report_def ip_url_def metadata_args_def)
    with r(2) s(2,3) show ?thesis by (intro exI [of _ ok] exI [of _ w4] exI [of _ s] exI [of _ ?h]) auto
  qed
qed

lemma command_refresh_info_spec:
  assumes log: "log_ok e w"
  shows "\<exists>ok w1. command_refresh_info e c w = Some (ok, w1) \<and> gave_up w w1"
proof -
  from connect_tries_spec [OF log] obtain conn fd w0 w1 where
    t: "connect_tries e c MAX_TRIES 0 w = Some (conn, fd, w1)" "keeps w w0"
       "if conn then connected_to e fd w0 w1 \<and> fd \<noteq> 0 else late fd w0 w1"
    by blast
  let ?w2 = "if conn then w1 else err_logged e ''Connect try count exceed'' (- 1) L0 w1"
  have l: "late fd w0 w1" using t(3) by (cases conn) (auto simp: connected_to_def late_def)
  obtain r w3 where cl: "sys_close e fd ?w2 = (r, w3)" by (metis prod.exhaust)
  have log1: "log_ok e w1"
    using still_log_ok [OF _ keeps_log_ok [OF t(2) log]] l by (simp add: late_def)
  have g: "gave_up w w3" using close_late [OF t(2) l cl] by auto
  then have "log_ok e w3" using still_log_ok [OF _ log] by (simp add: gave_up_def)
  with g cl t(1) log1 show ?thesis
    by (cases conn) (auto simp: command_refresh_info_def CloseToServer_def gave_up_def only_zero_def ex_bool_eq)
qed

section \<open>Commands over a friendly network\<close>

lemma tries_two: "2 \<le> MAX_TRIES"
  by (simp add: MAX_TRIES_def)

lemma command_alive_report_complete:
  assumes log: "log_ok e w" and c: "conninfo_ok c" and zero: "0 \<in> open_fds w"
    and fr: "friendly e (tick w)" and ack: "acknowledges e (tick w)"
  shows "\<exists>fd w1. command_alive_report e c w = Some (True, w1) \<and> fd \<notin> open_fds w \<and>
    closed_after fd (request_frame REQ_ALIVE_STATUS (alive_args c)) w w1"
proof -
  from connect_tries_friendly [OF log fr zero tries_two] obtain fd w1 where
    t: "connect_tries e c MAX_TRIES 0 w = Some (True, fd, w1)" "connected_to e fd w w1" by blast
  from request_complete [OF log t(2) alive_args_ok [OF c] _ fr ack, of REQ_ALIVE_STATUS] t
  show ?thesis
    by (fastforce simp: command_alive_report_def alive_args_def REQ_ALIVE_STATUS_def
        connected_to_def session_def)
qed

lemma command_heartbeat_report_complete:
  assumes log: "log_ok e w" and c: "conninfo_ok c" and zero: "0 \<in> open_fds w" and ifs: "ifs_ok e"
    and fr: "friendly e (tick w)" and ack: "acknowledges e (tick w)"
  shows "\<exists>fd w1 t il. command_heartbeat_report e c w = Some (True, w1) \<and> fd \<notin> open_fds w \<and>
    e_ifaddrs e t = Some il \<and>
    closed_after fd (request_frame REQ_REGISTRY_HEARTBEAT (heartbeat_args c (ip_list il))) w w1"
proof -
  from connect_tries_friendly [OF log fr zero tries_two] obtain fd w1 where
    t: "connect_tries e c MAX_TRIES 0 w = Some (True, fd, w1)" "connected_to e fd w w1" by blast
  let ?w2 = "w1\<lparr>tick := Suc (tick w1)\<rparr>"
  from ifs obtain il where il: "e_ifaddrs e (tick w1) = Some il" "interfaces_ok il"
    unfolding ifs_ok_def by blast
  let ?f = "request_frame REQ_REGISTRY_HEARTBEAT (heartbeat_args c (ip_list il))"
  have a: "args_ok (heartbeat_args c (ip_list il))"
    using heartbeat_args_ok [OF c ip_list_no_NUL [OF il(2)]] il(2) by (simp add: interfaces_ok_def)
  have c2: "connected_to e fd w ?w2" using connected_later [OF t(2) _ still_tick] by simp
  from request_complete [OF log c2 a _ fr ack, of REQ_REGISTRY_HEARTBEAT] obtain ec w3 where
    r: "request e REQ_REGISTRY_HEARTBEAT fd (heartbeat_args c (ip_list il)) ?w2 = Some (True, ec, w3)"
      "closed_after fd ?f w w3"
    by (auto simp: REQ_REGISTRY_HEARTBEAT_def)
  have "log_ok e w3" using r(2) log by (simp add: closed_after_def log_ok_def)
  with t(1) il r(1) have "\<exists>m. command_heartbeat_report e c w = Some (True, logged e m fd (L1 ec) w3)"
    by (auto simp: command_heartbeat_report_def sys_getifaddrs_def client_ips_ok heartbeat_args_def)
  with t(2) il(1) closed_after_logged(1) [OF r(2)] show ?thesis
    by (fastforce simp: connected_to_def session_def)
qed

section \<open>The thread\<close>

definition machine_ok :: "env \<Rightarrow> conninfo \<Rightarrow> bool" where
  "machine_ok e c \<longleftrightarrow> sane_peers e \<and> conninfo_ok c \<and> ifs_ok e \<and> web_ok e"

definition kept :: "world \<Rightarrow> world \<Rightarrow> bool" where
  "kept w w1 \<longleftrightarrow> only_zero w w1 \<and> m_strLogPath w1 = m_strLogPath w"

lemma kept_trans: "kept w w1 \<Longrightarrow> kept w1 w2 \<Longrightarrow> kept w w2"
  by (simp add: kept_def only_zero_def)

lemma kept_refl [simp]: "kept w w"
  by (simp add: kept_def only_zero_def)

lemma kept_log_ok: "kept w w1 \<Longrightarrow> log_ok e w \<Longrightarrow> log_ok e w1"
  by (simp add: kept_def log_ok_def)

lemma kept_logged [simp]: "kept w w1 \<Longrightarrow> kept w (logged e m s a w1)"
  by (simp add: kept_def only_zero_def)

lemma outcome_kept: "outcome e f w ok w1 \<Longrightarrow> kept w w1"
  using outcome_frame by (simp add: kept_def)

lemma heartbeat_kept:
  "machine_ok e c \<Longrightarrow> log_ok e w \<Longrightarrow> \<exists>ok w1. command_heartbeat_report e c w = Some (ok, w1) \<and> kept w w1"
  using command_heartbeat_report_spec [of e w c] outcome_kept unfolding machine_ok_def by blast

lemma alive_kept:
  "machine_ok e c \<Longrightarrow> log_ok e w \<Longrightarrow> \<exists>ok w1. command_alive_report e c w = Some (ok, w1) \<and> kept w w1"
  using command_alive_report_spec [of e w c] outcome_kept unfolding machine_ok_def by blast

lemma metadata_kept:
  "machine_ok e c \<Longrightarrow> log_ok e w \<Longrightarrow> \<exists>ok w1. command_metadata_report e c w = Some (ok, w1) \<and> kept w w1"
  using command_metadata_report_spec [of e w c] outcome_kept unfolding machine_ok_def by blast

text \<open>A step of a round: it returns a state and keeps the world.\<close>

definition step_ok :: "env \<Rightarrow> (world \<Rightarrow> (alive_state \<times> world) option) \<Rightarrow> (alive_state \<Rightarrow> bool) \<Rightarrow> bool" where
  "step_ok e f P \<longleftrightarrow> (\<forall>w. log_ok e w \<longrightarrow> (\<exists>s w1. f w = Some (s, w1) \<and> kept w w1 \<and> P s))"

lemma alive_round_spec:
  assumes m: "machine_ok e c" and log: "log_ok e w"
  shows "\<exists>s1 w1. alive_round e c s w = Some (s1, w1) \<and> kept w w1 \<and>
    refresh s1 = (if refresh s < REFRESH_INTERVAL then refresh s + 1 else 0) \<and>
    metareport s1 = (if metareport s < METADATA_INTERVAL then metareport s + 1 else 0)"
proof -
  have 1: "\<exists>s1 w1. (if \<not> ret s then do {
        (r, w) \<leftarrow> command_heartbeat_report e c w; Some (s\<lparr>ret := r\<rparr>, w) } else Some (s, w)) = Some (s1, w1) \<and>
      kept w w1 \<and> refresh s1 = refresh s \<and> metareport s1 = metareport s"
    using heartbeat_kept [OF m log] by auto
  then obtain s1 w1 where s1: "(if \<not> ret s then do {
        (r, w) \<leftarrow> command_heartbeat_report e c w; Some (s\<lparr>ret := r\<rparr>, w) } else Some (s, w)) = Some (s1, w1)"
      "kept w w1" "refresh s1 = refresh s" "metareport s1 = metareport s"
    by blast
  from alive_kept [OF m kept_log_ok [OF s1(2) log]] obtain r2 w2 where
    s2: "command_alive_report e c w1 = Some (r2, w2)" "kept w1 w2" by blast
  have k2: "kept w w2" using kept_trans [OF s1(2) s2(2)] .
  note log2 = kept_log_ok [OF k2 log]
  from heartbeat_kept [OF m log2] obtain r3 v3 where
    h3: "command_heartbeat_report e c w2 = Some (r3, v3)" "kept w2 v3" by blast
  let ?v4 = "logged e ''Refresh Client Informs packet send'' (- 1) L0 v3"
  let ?s3 = "if refresh s1 < REFRESH_INTERVAL then s1\<lparr>refresh := refresh s1 + 1\<rparr>
    else s1\<lparr>ret := r3, refresh := 0\<rparr>"
  let ?w3 = "if refresh s1 < REFRESH_INTERVAL then w2 else ?v4"
  have k3: "kept w ?w3" using kept_trans [OF k2 h3(2)] k2 by simp
  note log3 = kept_log_ok [OF k3 log]
  from metadata_kept [OF m log3] obtain r4 v5 where
    h4: "command_metadata_report e c ?w3 = Some (r4, v5)" "kept ?w3 v5" by blast
  let ?v6 = "logged e ''Metadata healthcheck report'' (- 1) L0 v5"
  let ?s4 = "if metareport ?s3 < METADATA_INTERVAL then ?s3\<lparr>metareport := metareport ?s3 + 1\<rparr>
    else ?s3\<lparr>ret := r4, metareport := 0\<rparr>"
  let ?w4 = "if metareport ?s3 < METADATA_INTERVAL then ?w3 else ?v6"
  have k4: "kept w ?w4" using kept_trans [OF k3 h4(2)] k3 by simp
  have "alive_round e c s w = Some (?s4, sys_sleep 1 ?w4)"
    unfolding alive_round_def s1(1)
    using s2(1) h3(1) h4(1) kept_log_ok [OF kept_trans [OF k2 h3(2)] log] kept_log_ok [OF kept_trans [OF k3 h4(2)] log]
    by (simp split: if_split_asm if_split)
  moreover have "kept w (sys_sleep 1 ?w4)" using k4 by (simp add: kept_def only_zero_def)
  ultimately show ?thesis using s1(3,4) by simp
qed

lemma count_mod: "0 < m \<Longrightarrow> (if a mod m < m - 1 then a mod m + 1 else 0) = Suc a mod m" for a m :: nat
proof -
  assume m: "0 < m"
  then have "a mod m < m" by simp
  with m show ?thesis by (simp add: mod_Suc) linarith
qed

lemma alive_rounds_spec:
  assumes m: "machine_ok e c"
  shows "log_ok e w \<Longrightarrow> refresh s = a mod 3601 \<Longrightarrow> metareport s = a mod 61 \<Longrightarrow>
    \<exists>s1 w1. alive_rounds n e c s w = Some (s1, w1) \<and> kept w w1 \<and>
      refresh s1 = (a + n) mod 3601 \<and> metareport s1 = (a + n) mod 61"
proof (induction n arbitrary: a s w)
  case 0
  then show ?case by simp
next
  case (Suc n)
  from alive_round_spec [OF m Suc.prems(1), of s] obtain s1 w1 where
    r0: "alive_round e c s w = Some (s1, w1)" "kept w w1"
       "refresh s1 = (if a mod 3601 < 3601 - 1 then a mod 3601 + 1 else 0)"
       "metareport s1 = (if a mod 61 < 61 - 1 then a mod 61 + 1 else 0)"
    unfolding Suc.prems(2,3) by (auto simp: REFRESH_INTERVAL_def METADATA_INTERVAL_def)
  note r = r0(1,2)
  have r34: "refresh s1 = Suc a mod 3601" "metareport s1 = Suc a mod 61"
    unfolding r0(3,4) by (rule count_mod; simp)+
  from Suc.IH [OF kept_log_ok [OF r(2) Suc.prems(1)] r34] r(1) kept_trans [OF r(2)]
  show ?case by fastforce
qed

lemma alive_thread_spec:
  assumes "machine_ok e c" "log_ok e w"
  shows "\<exists>s w1. alive_process_thread n e c w = Some (s, w1) \<and>
    AList.delete 0 (fds w1) = AList.delete 0 (fds w) \<and>
    refresh s = n mod (REFRESH_INTERVAL + 1) \<and> metareport s = n mod (METADATA_INTERVAL + 1)"
proof -
  have "log_ok e (logged e ''Start Alive'' (- 1) L0 w)" using assms(2) by simp
  from alive_rounds_spec [OF assms(1) this, of alive_start 0 n] assms(2) show ?thesis
    by (auto simp: alive_process_thread_def alive_start_def kept_def only_zero_def REFRESH_INTERVAL_def
        METADATA_INTERVAL_def)
qed

end
