(* ===== verification/PerfInfo.thy ===== *)
theory PerfInfo
  imports AliveCommands
begin

text \<open>
  \<open>CPerfInfo\<close> (PerfInfo.cpp, PerfInfo.h): the standing connection to the monitor, over which the
  restart notice and the performance reports go, with the bodies of the two threads
  \<open>report_perf_thread\<close> and \<open>clean_thread\<close> (main_report.cpp, main_clean.cpp). The static members
  are the fields of a record; the mutexes are held by one thread only and leave no trace.
\<close>

section \<open>The static members\<close>

record perfinfo =
  m_hSock :: int
  m_connectioncnt :: int
  m_serveridx :: int
  m_localip :: string
  m_monitor_ip :: string
  m_monitor_port :: int

definition perf_static :: perfinfo where
  "perf_static = \<lparr>m_hSock = 0, m_connectioncnt = 0, m_serveridx = 0, m_localip = [],
     m_monitor_ip = [], m_monitor_port = 0\<rparr>"

section \<open>Operations\<close>

text \<open>After a refused connection \<open>m_hSock\<close> keeps the number of the closed descriptor.\<close>

definition ConnectToMonitor ::
  "env \<Rightarrow> perfinfo \<Rightarrow> world \<Rightarrow> (bool \<times> perfinfo \<times> world) option" where
  "ConnectToMonitor e p w = (
     let (sock, w) = sys_socket e w in
     let p = p\<lparr>m_hSock := sock\<rparr> in
     if sock = - 1 then Some (False, p, w)
     else
       let (result, w) = sys_connect e sock (m_monitor_ip p) (word_of_int (m_monitor_port p)) w in
       if result = - 1
       then do {
         w \<leftarrow> WriteErrorLog e ''ConnectToMonitor() - NOT CONNECT'' sock L0 w;
         let (_, w) = sys_close e sock w;
         Some (False, p, w) }
       else do {
         let w = set_options sock w;
         w \<leftarrow> WriteLog e ''ConnectToMonitor() SUCCESS'' sock L0 w;
         Some (True, p, w) })"

text \<open>
  The exchange both reports make: send, wait at most two seconds, read the error code. The
  middle component is \<open>errorcode\<close> when the result is true.
\<close>

definition exchange ::
  "env \<Rightarrow> int \<Rightarrow> int \<Rightarrow> arg list \<Rightarrow> world \<Rightarrow> (bool \<times> int \<times> world) option" where
  "exchange e command sock args w = do {
     (ok, send_packet) \<leftarrow> write_seq write_arg args
        (InitPacket4 CAT_REQUEST command sock 0 (CPacket_new 0));
     if \<not> ok then Some (False, 0, w)
     else do {
       (ok, w) \<leftarrow> SendPacket e send_packet w;
       if \<not> ok then Some (False, 0, w)
       else do {
         (ok, receive_packet, w) \<leftarrow> ReceivePacket_Select e (InitPacket2 sock 0 (CPacket_new 0)) w;
         if \<not> ok then Some (False, 0, w)
         else do {
           (ok, errorcode, receive_packet, w) \<leftarrow> ReadInt e 0 receive_packet w;
           Some (ok, errorcode, w) } } } }"

definition SendToRestart :: "env \<Rightarrow> perfinfo \<Rightarrow> world \<Rightarrow> (bool \<times> world) option" where
  "SendToRestart e p w = do {
     (ok, errorcode, w) \<leftarrow> exchange e REQ_SERVER_RESTART (m_hSock p) [AInt (m_serveridx p)] w;
     if \<not> ok then Some (False, w)
     else if errorcode \<noteq> ERR_NONE
     then do {
       w \<leftarrow> WriteErrorLog e ''SERVER_RESTART REPORT ERRORCODE'' (m_hSock p) (L1 errorcode) w;
       Some (False, w) }
     else do {
       w \<leftarrow> WriteLog e ''SERVER_RESTART REPORT SUCCESS'' (m_hSock p) (L1 errorcode) w;
       Some (True, w) } }"

definition drop_connection :: "env \<Rightarrow> perfinfo \<Rightarrow> world \<Rightarrow> (perfinfo \<times> world) option" where
  "drop_connection e p w =
     (let (_, w) = sys_close e (m_hSock p) w in Some (p\<lparr>m_hSock := 0\<rparr>, w))"

definition SendToPerf :: "env \<Rightarrow> perfinfo \<Rightarrow> world \<Rightarrow> (perfinfo \<times> world) option" where
  "SendToPerf e p w = do {
     let connection = m_connectioncnt p;
     let p = p\<lparr>m_connectioncnt := 0\<rparr>;
     (ok, p, w) \<leftarrow> (if m_hSock p = 0 then ConnectToMonitor e p w else Some (True, p, w));
     if \<not> ok then Some (p\<lparr>m_hSock := 0\<rparr>, w)
     else do {
       (ok, errorcode, w) \<leftarrow> exchange e REQ_PERF_REPORT (m_hSock p)
         [AInt (m_serveridx p), AInt connection] w;
       if \<not> ok then drop_connection e p w
       else do {
         w \<leftarrow> (if errorcode \<noteq> ERR_NONE
               then WriteErrorLog e ''Performance report Error'' (m_hSock p) (L1 errorcode) w
               else Some w);
         w \<leftarrow> WriteLog e ''Return REQ_PERF_REPORT'' (m_hSock p) (L1 errorcode) w;
         Some (p, w) } } }"

text \<open>
  \<open>sscanf(monitor_ip, "%s", m_monitor_ip)\<close> fills \<open>char m_monitor_ip[32]\<close>; the two
  \<open>pthread_mutex_init\<close> may fail.
\<close>

definition sys_mutex_init :: "env \<Rightarrow> world \<Rightarrow> int \<times> world" where
  "sys_mutex_init e w = (e_mutex e (tick w), w\<lparr>tick := Suc (tick w)\<rparr>)"

definition sys_peername :: "env \<Rightarrow> world \<Rightarrow> string \<times> world" where
  "sys_peername e w = (e_peername e (tick w), w\<lparr>tick := Suc (tick w)\<rparr>)"

definition Init ::
  "env \<Rightarrow> int \<Rightarrow> string \<Rightarrow> int \<Rightarrow> perfinfo \<Rightarrow> world \<Rightarrow> (bool \<times> perfinfo \<times> world) option" where
  "Init e serveridx monitor_ip monitor_port p w = do {
     addr \<leftarrow> scan_into 32 monitor_ip (m_monitor_ip p);
     let p = p\<lparr>m_connectioncnt := 0, m_serveridx := serveridx, m_monitor_ip := addr,
               m_monitor_port := monitor_port\<rparr>;
     let (result, w) = sys_mutex_init e w;
     if result \<noteq> 0
     then do {
       w \<leftarrow> WriteErrorLog e ''CPerfInfo::Init'' (- 1) (L3 ''Connect pthread_mutex_init'') w;
       Some (False, p, w) }
     else do {
       let (result, w) = sys_mutex_init e w;
       if result \<noteq> 0
       then do {
         w \<leftarrow> WriteErrorLog e ''CPerfInfo::Init'' (- 1) (L3 ''PerfLock pthread_mutex_init'') w;
         Some (False, p, w) }
       else do {
         (ok, p, w) \<leftarrow> ConnectToMonitor e p w;
         if \<not> ok then Some (True, p, w)
         else do {
           let (peer, w) = sys_peername e w;
           let p = p\<lparr>m_localip := peer\<rparr>;
           (ok, w) \<leftarrow> SendToRestart e p w;
           if ok then Some (True, p, w)
           else do {
             w \<leftarrow> WriteErrorLog e ''SERVER_RESTART REPORT FAILED'' (m_hSock p) L0 w;
             Some (True, p, w) } } } } }"

section \<open>The threads\<close>

text \<open>One round of each \<open>while (1)\<close>.\<close>

definition report_perf_round :: "env \<Rightarrow> perfinfo \<Rightarrow> world \<Rightarrow> (perfinfo \<times> world) option" where
  "report_perf_round e p w = SendToPerf e p (sys_sleep 60 w)"

definition clean_round :: "env \<Rightarrow> world \<Rightarrow> world option" where
  "clean_round e w = map_option (sys_sleep 3600) (ClearOldLog e w)"

fun report_perf_thread :: "nat \<Rightarrow> env \<Rightarrow> perfinfo \<Rightarrow> world \<Rightarrow> (perfinfo \<times> world) option" where
  "report_perf_thread 0 e p w = Some (p, w)"
| "report_perf_thread (Suc n) e p w = do {
     (p, w) \<leftarrow> report_perf_round e p w;
     report_perf_thread n e p w }"

fun clean_thread :: "nat \<Rightarrow> env \<Rightarrow> world \<Rightarrow> world option" where
  "clean_thread 0 e w = Some w"
| "clean_thread (Suc n) e w = Option.bind (clean_round e w) (clean_thread n e)"

section \<open>Connecting\<close>

text \<open>It is \<open>ConnectToServer\<close> with another name in the log.\<close>

lemma ConnectToMonitor_spec:
  assumes log: "log_ok e w"
  shows "\<exists>ok fd w1. ConnectToMonitor e p w = Some (ok, p\<lparr>m_hSock := fd\<rparr>, w1) \<and> still w w1 \<and>
    (fd = - 1 \<or> 0 \<le> fd \<and> fd \<notin> open_fds w \<and> fd \<le> int (card (open_fds w))) \<and>
    (if ok then connected_to e fd w w1
     else fds w1 = fds w \<and> (\<exists>t\<ge>tick w. \<not> e_socket e t \<or> \<not> e_connect e t))"
proof -
  obtain fd w1 where s: "sys_socket e w = (fd, w1)" by (metis prod.exhaust)
  show ?thesis
  proof (cases "fd = - 1")
    case True
    have "lowest_free (map fst (fds w)) \<noteq> - 1"
      using lowest_free_nonneg [of "map fst (fds w)"] by linarith
    with True have w1: "w1 = emit (EvSocket (- 1)) w"
      using s by (auto simp: sys_socket_def Let_def split: if_splits)
    have "still w w1" unfolding w1 by (rule still_emit) auto
    moreover have "fds w1 = fds w" by (simp add: w1 emit_def)
    moreover have "ConnectToMonitor e p w = Some (False, p\<lparr>m_hSock := fd\<rparr>, w1)"
      using s True by (simp add: ConnectToMonitor_def)
    moreover have "\<not> e_socket e (tick w)"
      using s True \<open>lowest_free (map fst (fds w)) \<noteq> - 1\<close>
      by (auto simp: sys_socket_def Let_def split: if_splits)
    ultimately show ?thesis using True
      by (intro exI [of _ False] exI [of _ fd] exI [of _ w1]) auto
  next
    case False
    note ses = socket_session [OF s False]
    obtain r w2 where c: "sys_connect e fd (m_monitor_ip p) (word_of_int (m_monitor_port p)) w1 = (r, w2)"
      by (metis prod.exhaust)
    note up = connect_up [OF ses(1,2) c]
    have log2: "log_ok e w2" using up log still_log_ok by blast
    have fresh: "0 \<le> fd \<and> fd \<notin> open_fds w \<and> fd \<le> int (card (open_fds w))"
      using ses by (simp add: session_def)
    show ?thesis
    proof (cases "r = - 1")
      case True
      let ?w3 = "err_logged e ''ConnectToMonitor() - NOT CONNECT'' fd L0 w2"
      obtain q w4 where cl: "sys_close e fd ?w3 = (q, w4)" by (metis prod.exhaust)
      have "session fd w ?w3" using up session_calm [OF _ logged_calm(2)] by blast
      note closed = close_session [OF this cl]
      have "still w w4" using up close_still [OF cl] still_logged(2) still_trans by blast
      moreover have "ConnectToMonitor e p w = Some (False, p\<lparr>m_hSock := fd\<rparr>, w4)"
        using s False c True log2 cl by (simp add: ConnectToMonitor_def)
      moreover have "\<not> e_connect e (tick w1)" "tick w \<le> tick w1"
        using c True ses by (auto simp: sys_connect_def session_def split: if_splits)
      ultimately show ?thesis using closed(1) fresh
        by (intro exI [of _ False] exI [of _ fd] exI [of _ w4]) auto
    next
      case ok: False
      let ?w3 = "set_options fd w2"
      let ?w4 = "logged e ''ConnectToMonitor() SUCCESS'' fd L0 ?w3"
      have co: "connected_to e fd w w2" using up ok by blast
      have "still w2 ?w4" using set_options_still still_logged(1) by blast
      then have "connected_to e fd w ?w4" using connected_later [OF co, of ?w4] by simp
      moreover have "log_ok e ?w3" using log2 by (simp add: log_ok_def)
      then have "ConnectToMonitor e p w = Some (True, p\<lparr>m_hSock := fd\<rparr>, ?w4)"
        using s False c ok by (simp add: ConnectToMonitor_def)
      ultimately show ?thesis using fresh
        by (intro exI [of _ True] exI [of _ fd] exI [of _ ?w4]) (simp add: connected_to_def)
    qed
  qed
qed

end
