(* ===== verification/PerfReport.thy ===== *)
theory PerfReport
  imports PerfInfo
begin

text \<open>
  The standing connection: what a report sends, when the connection is kept and when it is
  dropped, and the state \<open>Init\<close> leaves behind.
\<close>

section \<open>The exchange\<close>

lemma written_request4:
  assumes "args_ok args"
  shows "\<exists>q. write_seq write_arg args (InitPacket4 CAT_REQUEST command fd lf (CPacket_new 0)) = Some (True, q) \<and>
    wr_ok q \<and> m_nClientSockfd q = fd \<and> m_nCategory q = CAT_REQUEST \<and> m_nCommand q = command \<and>
    sent_frame q = request_frame command args"
proof -
  let ?p = "InitPacket4 CAT_REQUEST command fd lf (CPacket_new 0)"
  from arg_writer.write_seq_appends [of ?p args] assms obtain q where
    q: "write_seq write_arg args ?p = Some (True, q)" "appended ?p q (concat (map enc_arg args))"
    by (auto simp: args_ok_def)
  have "same_id ?p q" "wr_ok q" "payload q = concat (map enc_arg args)"
    using q(2) by (simp_all add: appended_def)
  then have "m_nClientSockfd q = fd \<and> m_nCategory q = CAT_REQUEST \<and> m_nCommand q = command"
    by (simp add: same_id_def InitPacket4_def)
  with q(1) \<open>wr_ok q\<close> \<open>payload q = _\<close> show ?thesis
    by (auto simp: sent_frame_def request_frame_def)
qed

text \<open>A stream no part of which reaches the signed overflow of the length field.\<close>

definition clean_stream :: "byte list \<Rightarrow> bool" where
  "clean_stream bs \<longleftrightarrow>
     (\<forall>pre h rest. bs = pre @ h @ rest \<longrightarrow> good_version h \<longrightarrow> 10 - 2 ^ 31 \<le> frame_len h)"

lemma clean_stream_Nil [simp]: "clean_stream []"
  by (auto simp: clean_stream_def good_version_def)

lemma clean_stream_suffix: "clean_stream (pre @ bs) \<Longrightarrow> clean_stream bs"
  unfolding clean_stream_def by (metis append.assoc)

lemma SendPacket_down:
  assumes down: "\<not> is_up (m_nClientSockfd p) w" and r: "SendPacket e p w = Some (ok, w1)"
  shows "\<not> ok"
proof -
  obtain n w2 where wr: "sys_write e (m_nClientSockfd p) (packet_header (m_nDataPointer p + 10) p) w = (n, w2)"
    by (metis prod.exhaust)
  moreover have "n = - 1"
    using wr down by (auto simp: sys_write_def is_up_def Let_def split: option.splits)
  ultimately show ?thesis using r
    by (auto simp: SendPacket_def Let_def bind_eq_Some_conv split: if_splits)
qed

text \<open>The answer to a report: any magic number, and anything after the error code.\<close>

definition reports :: "byte list \<Rightarrow> int \<Rightarrow> bool" where
  "reports bs ec \<longleftrightarrow> (\<exists>m1 m2 cat cmd rsv v tail rest.
     bs = wire_frame m1 m2 cat cmd rsv (be32 v @ tail) @ rest \<and> ec = sint v)"

lemma ReadInt_first:
  assumes "int (length dat) \<le> INT_MAX" "log_ok e w"
  shows "\<exists>ok v q w1. ReadInt e 0 (received cat cmd dat p) w = Some (ok, v, q, w1) \<and> calm w w1 \<and>
    (ok \<longrightarrow> (\<exists>x tail. dat = be32 x @ tail \<and> v = sint x))"
proof (cases "4 \<le> length dat")
  case False
  with ReadInt_eq [OF received_ok(1) [OF assms(1)] assms(2)] received_ok [OF assms(1)]
  show ?thesis by (simp add: ex_bool_eq)
next
  case True
  let ?x = "ntohl (of_le (take 4 dat))"
  have "dat = be32 ?x @ drop 4 dat" using True by (simp add: be32_of_le)
  with True ReadInt_eq [OF received_ok(1) [OF assms(1)] assms(2)] received_ok [OF assms(1)]
  show ?thesis by (fastforce simp: ex_bool_eq)
qed

definition exchange_result ::
  "int \<Rightarrow> byte list \<Rightarrow> world \<Rightarrow> bool \<Rightarrow> int \<Rightarrow> world \<Rightarrow> bool" where
  "exchange_result fd frame w ok ec w1 \<longleftrightarrow> io fd w w1 \<and>
     (\<exists>k. sent fd w1 = sent fd w @ take k frame) \<and> (\<exists>pre. pending fd w = pre @ pending fd w1) \<and>
     (ok \<longrightarrow> is_up fd w \<and> sent fd w1 = sent fd w @ frame \<and> reports (pending fd w) ec)"

text \<open>
  A packet sent on a connection that is not closed afterwards, and an answer received on it: what
  \<open>exchange\<close> and the commands of bak/main_alive.cpp have in common.
\<close>

lemma send_receive:
  assumes log: "log_ok e w" and q: "wr_ok q" "m_nClientSockfd q = fd" and p: "m_nClientSockfd p = fd"
    and clean: "clean_stream (pending fd w)" and fd: "is_up fd w \<Longrightarrow> 0 \<le> fd \<and> fd < 1024"
  shows "\<exists>ok w2 k. SendPacket e q w = Some (ok, w2) \<and> io fd w w2 \<and> pending fd w2 = pending fd w \<and>
    sent fd w2 = sent fd w @ take k (sent_frame q) \<and>
    (ok \<longrightarrow> is_up fd w \<and> sent fd w2 = sent fd w @ sent_frame q \<and>
      (\<exists>ok2 r w3. ReceivePacket_Select e p w2 = Some (ok2, r, w3) \<and> io fd w w3 \<and> sent fd w3 = sent fd w2 \<and>
        log_ok e w3 \<and> (\<exists>pre. pending fd w = pre @ pending fd w3) \<and>
        (ok2 \<longrightarrow> (\<exists>m1 m2 cat cmd rsv dat. int (length dat) + 10 \<le> INT_MAX \<and>
          pending fd w = wire_frame m1 m2 cat cmd rsv dat @ pending fd w3 \<and> r = received cat cmd dat p))))"
proof -
  from SendPacket_sound [OF q(1) log, unfolded q(2)] obtain ok w2 k where
    snd: "SendPacket e q w = Some (ok, w2)" "io fd w w2" "sent fd w2 = sent fd w @ take k (sent_frame q)"
         "ok \<longrightarrow> sent fd w2 = sent fd w @ sent_frame q"
    by blast
  have p2: "pending fd w2 = pending fd w" using SendPacket_fds [OF snd(1)] by (simp add: pending_def)
  have log2: "log_ok e w2" using snd(2) log by (simp add: io_def log_ok_def)
  show ?thesis
  proof (cases ok)
    case False
    with snd p2 show ?thesis by auto
  next
    case ok: True
    then have up: "is_up fd w" using SendPacket_down [of q w e ok w2] q(2) snd(1) by auto
    have "ReceivePacket_Select e p w2 \<noteq> None"
    proof
      assume "ReceivePacket_Select e p w2 = None"
      from ReceivePacket_Select_undefined [OF this log2, unfolded p] fd [OF up] obtain h rest where
        h: "pending fd w2 = h @ rest" "good_version h" "frame_len h < 10 - 2 ^ 31" by blast
      then have "pending fd w = [] @ h @ rest" using p2 by simp
      with clean h show False unfolding clean_stream_def by fastforce
    qed
    then obtain ok2 r w3 where rc: "ReceivePacket_Select e p w2 = Some (ok2, r, w3)" by auto
    note sound = ReceivePacket_Select_sound [OF rc log2, unfolded p]
    have io3: "io fd w w3" using io_trans [OF snd(2)] sound by (simp add: quiet_def)
    have "sent fd w3 = sent fd w2" using sound quiet_keeps(2) by blast
    moreover have "log_ok e w3" using io3 log by (simp add: io_def log_ok_def)
    moreover have "\<exists>pre. pending fd w2 = pre @ pending fd w3"
      using ReceivePacket_Select_suffix [OF rc log2] p by simp
    ultimately show ?thesis using snd ok up rc io3 sound p2
      by (intro exI [of _ True] exI [of _ w2] exI [of _ k]) auto
  qed
qed

lemma exchange_spec:
  assumes log: "log_ok e w" and args: "args_ok args" and clean: "clean_stream (pending fd w)"
    and fd: "is_up fd w \<Longrightarrow> 0 \<le> fd \<and> fd < 1024"
  shows "\<exists>ok ec w1. exchange e command fd args w = Some (ok, ec, w1) \<and>
    exchange_result fd (request_frame command args) w ok ec w1"
proof -
  let ?f = "request_frame command args" and ?p = "InitPacket2 fd 0 (CPacket_new 0)"
  from written_request4 [OF args] obtain q where
    q: "write_seq write_arg args (InitPacket4 CAT_REQUEST command fd 0 (CPacket_new 0)) = Some (True, q)"
       "wr_ok q" "m_nClientSockfd q = fd" "sent_frame q = ?f"
    by blast
  have sock: "m_nClientSockfd ?p = fd" by (simp add: InitPacket2_def)
  from send_receive [OF log q(2,3) sock clean fd, unfolded q(4)] obtain ok w2 k where
    snd: "SendPacket e q w = Some (ok, w2)" "io fd w w2" "pending fd w2 = pending fd w"
      "sent fd w2 = sent fd w @ take k ?f" and
    rec: "ok \<Longrightarrow> is_up fd w \<and> sent fd w2 = sent fd w @ ?f \<and>
      (\<exists>ok2 r w3. ReceivePacket_Select e ?p w2 = Some (ok2, r, w3) \<and> io fd w w3 \<and> sent fd w3 = sent fd w2 \<and>
        log_ok e w3 \<and> (\<exists>pre. pending fd w = pre @ pending fd w3) \<and>
        (ok2 \<longrightarrow> (\<exists>m1 m2 cat cmd rsv dat. int (length dat) + 10 \<le> INT_MAX \<and>
          pending fd w = wire_frame m1 m2 cat cmd rsv dat @ pending fd w3 \<and> r = received cat cmd dat ?p)))"
    by blast
  show ?thesis
  proof (cases ok)
    case False
    with q(1) snd show ?thesis by (auto simp: exchange_def exchange_result_def)
  next
    case ok: True
    from rec [OF ok] obtain ok2 r w3 where
      up: "is_up fd w" "sent fd w2 = sent fd w @ ?f" and
      rc: "ReceivePacket_Select e ?p w2 = Some (ok2, r, w3)" "io fd w w3" "sent fd w3 = sent fd w2" "log_ok e w3"
        "\<exists>pre. pending fd w = pre @ pending fd w3" and
      dat: "ok2 \<Longrightarrow> \<exists>m1 m2 cat cmd rsv dat. int (length dat) + 10 \<le> INT_MAX \<and>
          pending fd w = wire_frame m1 m2 cat cmd rsv dat @ pending fd w3 \<and> r = received cat cmd dat ?p"
      by blast
    show ?thesis
    proof (cases ok2)
      case False
      with q(1) snd ok rc up show ?thesis by (auto simp: exchange_def exchange_result_def)
    next
      case True
      from dat [OF True] obtain m1 m2 cat cmd rsv dat where
        d: "int (length dat) + 10 \<le> INT_MAX"
           "pending fd w = wire_frame m1 m2 cat cmd rsv dat @ pending fd w3" "r = received cat cmd dat ?p"
        by blast
      have "int (length dat) \<le> INT_MAX" using d(1) by simp
      from ReadInt_first [OF this rc(4), of cat cmd ?p] obtain ok4 v s w4 where
        v: "ReadInt e 0 r w3 = Some (ok4, v, s, w4)" "calm w3 w4"
           "ok4 \<longrightarrow> (\<exists>x tail. dat = be32 x @ tail \<and> v = sint x)"
        unfolding d(3) by blast
      have "io fd w w4" using io_trans [OF rc(2) calm_io [OF v(2)]] .
      moreover have "sent fd w4 = sent fd w @ ?f" using rc(3) up(2) calm_keeps(5) [OF v(2)] by simp
      moreover have "pending fd w4 = pending fd w3" using calm_keeps(4) [OF v(2)] .
      moreover have "ok4 \<longrightarrow> reports (pending fd w) v"
        using v(3) d(2) unfolding reports_def by metis
      ultimately show ?thesis using q(1) snd(1) ok rc(1) True v(1) d(2) up
        by (auto simp: exchange_def exchange_result_def intro: exI [of _ "length ?f"])
    qed
  qed
qed

section \<open>A report\<close>

definition clean_peers :: "env \<Rightarrow> bool" where
  "clean_peers e \<longleftrightarrow> (\<forall>t. clean_stream (e_peer e t))"

text \<open>
  Before a report: the descriptor of the standing connection fits a \<open>fd_set\<close>, or there is none
  and the next one will.
\<close>

definition perf_ready :: "perfinfo \<Rightarrow> world \<Rightarrow> bool" where
  "perf_ready p w \<longleftrightarrow>
     (if m_hSock p = 0 then card (open_fds w) < 1024
      else (is_up (m_hSock p) w \<longrightarrow> 0 \<le> m_hSock p \<and> m_hSock p < 1024) \<and>
        clean_stream (pending (m_hSock p) w))"

definition perf_args :: "perfinfo \<Rightarrow> arg list" where
  "perf_args p = [AInt (m_serveridx p), AInt (m_connectioncnt p)]"

lemma perf_args_ok [simp]: "args_ok [AInt a, AInt b]" "args_ok [AInt a]"
  by (simp_all add: args_ok_def)

definition perf_result :: "int \<Rightarrow> byte list \<Rightarrow> world \<Rightarrow> perfinfo \<Rightarrow> world \<Rightarrow> bool" where
  "perf_result fd frame w p w1 \<longleftrightarrow>
     AList.delete fd (fds w1) = AList.delete fd (fds w) \<and> m_strLogPath w1 = m_strLogPath w \<and>
     (\<forall>g. g \<noteq> fd \<longrightarrow> sent g w1 = sent g w) \<and> (\<exists>k. sent fd w1 = sent fd w @ take k frame) \<and>
     (m_hSock p \<noteq> 0 \<longrightarrow> m_hSock p = fd \<and> 0 \<le> fd \<and> fd < 1024 \<and> is_up fd w1 \<and> clean_stream (pending fd w1) \<and>
        sent fd w1 = sent fd w @ frame) \<and>
     (m_hSock p = 0 \<and> fd \<noteq> 0 \<and> - 1 \<notin> open_fds w \<longrightarrow> fds w1 = AList.delete fd (fds w))"

lemma close_delete:
  "sys_close e fd w = (r, w1) \<Longrightarrow> AList.delete fd (fds w1) = AList.delete fd (fds w)"
  by (auto simp: sys_close_def emit_def delete_idem split: if_splits)

lemma close_removes: "sys_close e fd w = (r, w1) \<Longrightarrow> fds w1 = AList.delete fd (fds w)"
  by (auto simp: sys_close_def emit_def split: if_splits)

text \<open>From the connection on: the exchange, and closing or keeping.\<close>

definition report_on :: "env \<Rightarrow> perfinfo \<Rightarrow> int \<Rightarrow> world \<Rightarrow> (perfinfo \<times> world) option" where
  "report_on e p connection w = do {
     (ok, errorcode, w) \<leftarrow> exchange e REQ_PERF_REPORT (m_hSock p)
       [AInt (m_serveridx p), AInt connection] w;
     if \<not> ok then drop_connection e p w
     else do {
       w \<leftarrow> (if errorcode \<noteq> ERR_NONE
             then WriteErrorLog e ''Performance report Error'' (m_hSock p) (L1 errorcode) w
             else Some w);
       w \<leftarrow> WriteLog e ''Return REQ_PERF_REPORT'' (m_hSock p) (L1 errorcode) w;
       Some (p, w) } }"

lemma report_on_spec:
  assumes log: "log_ok e w" and clean: "clean_stream (pending (m_hSock p) w)"
    and fd: "is_up (m_hSock p) w \<Longrightarrow> 0 \<le> m_hSock p \<and> m_hSock p < 1024"
  shows "\<exists>p1 w1. report_on e p n w = Some (p1, w1) \<and> (p1 = p \<or> p1 = p\<lparr>m_hSock := 0\<rparr>) \<and>
    perf_result (m_hSock p) (request_frame REQ_PERF_REPORT [AInt (m_serveridx p), AInt n]) w p1 w1"
proof -
  let ?fd = "m_hSock p" and ?f = "request_frame REQ_PERF_REPORT [AInt (m_serveridx p), AInt n]"
  from exchange_spec [OF log perf_args_ok(1) clean fd] obtain ok ec w1 where
    x: "exchange e REQ_PERF_REPORT ?fd [AInt (m_serveridx p), AInt n] w = Some (ok, ec, w1)"
       "exchange_result ?fd ?f w ok ec w1" by metis
  then have io: "io ?fd w w1" by (simp add: exchange_result_def)
  have log1: "log_ok e w1" using io log by (simp add: io_def log_ok_def)
  have others: "\<forall>g. g \<noteq> ?fd \<longrightarrow> sent g w1 = sent g w" using io_sent_other [OF io] by blast
  show ?thesis
  proof (cases ok)
    case False
    obtain r w2 where c: "sys_close e ?fd w1 = (r, w2)" by (metis prod.exhaust)
    have "report_on e p n w = Some (p\<lparr>m_hSock := 0\<rparr>, w2)"
      using x(1) False c by (simp add: report_on_def drop_connection_def)
    moreover have "perf_result ?fd ?f w (p\<lparr>m_hSock := 0\<rparr>) w2"
      using x(2) io others close_delete [OF c] close_removes [OF c] close_still [OF c]
      by (auto simp: perf_result_def exchange_result_def io_def still_def)
    ultimately show ?thesis by blast
  next
    case True
    let ?w2 = "if ec \<noteq> ERR_NONE then err_logged e ''Performance report Error'' ?fd (L1 ec) w1 else w1"
    let ?w3 = "logged e ''Return REQ_PERF_REPORT'' ?fd (L1 ec) ?w2"
    have "report_on e p n w = Some (p, ?w3)"
      using x(1) True log1 by (simp add: report_on_def)
    moreover have "is_up ?fd w1 = is_up ?fd w" using io by (simp add: io_def)
    moreover have "clean_stream (pending ?fd w1)"
      using x(2) clean clean_stream_suffix by (auto simp: exchange_result_def)
    ultimately show ?thesis
      using x(2) True io others fd
      by (auto simp: perf_result_def exchange_result_def io_def intro: exI [of _ "length ?f"])
  qed
qed

lemma SendToPerf_eq:
  "SendToPerf e p w =
     (let q = p\<lparr>m_connectioncnt := 0\<rparr> in
      if m_hSock p \<noteq> 0 then report_on e q (m_connectioncnt p) w
      else case ConnectToMonitor e q w of
             None \<Rightarrow> None
           | Some (ok, q, w) \<Rightarrow>
               if ok then report_on e q (m_connectioncnt p) w else Some (q\<lparr>m_hSock := 0\<rparr>, w))"
  by (auto simp: SendToPerf_def report_on_def Let_def split: option.splits)

lemma SendToPerf_spec:
  assumes log: "log_ok e w" and ready: "perf_ready p w" and peers: "clean_peers e"
  shows "\<exists>fd p1 w1. SendToPerf e p w = Some (p1, w1) \<and>
    (if m_hSock p \<noteq> 0 then fd = m_hSock p else fd = - 1 \<or> 0 \<le> fd \<and> fd < 1024 \<and> fd \<notin> open_fds w) \<and>
    p1 = p\<lparr>m_connectioncnt := 0, m_hSock := m_hSock p1\<rparr> \<and>
    perf_result fd (request_frame REQ_PERF_REPORT (perf_args p)) w p1 w1"
proof (cases "m_hSock p = 0")
  case False
  let ?q = "p\<lparr>m_connectioncnt := 0\<rparr>"
  from report_on_spec [OF log, of ?q "m_connectioncnt p"] ready False obtain p1 w1 where
    "report_on e ?q (m_connectioncnt p) w = Some (p1, w1)" "p1 = ?q \<or> p1 = ?q\<lparr>m_hSock := 0\<rparr>"
    "perf_result (m_hSock p) (request_frame REQ_PERF_REPORT (perf_args p)) w p1 w1"
    by (auto simp: perf_ready_def perf_args_def)
  with False show ?thesis
    by (intro exI [of _ "m_hSock p"] exI [of _ p1] exI [of _ w1]) (auto simp: SendToPerf_eq Let_def)
next
  case True
  let ?q = "p\<lparr>m_connectioncnt := 0\<rparr>" and ?f = "request_frame REQ_PERF_REPORT (perf_args p)"
  from ConnectToMonitor_spec [OF log, of ?q] obtain ok fd w1 where
    c: "ConnectToMonitor e ?q w = Some (ok, ?q\<lparr>m_hSock := fd\<rparr>, w1)" "still w w1"
       "fd = - 1 \<or> 0 \<le> fd \<and> fd \<notin> open_fds w \<and> fd \<le> int (card (open_fds w))"
       "if ok then connected_to e fd w w1
        else fds w1 = fds w \<and> (\<exists>t\<ge>tick w. \<not> e_socket e t \<or> \<not> e_connect e t)" by blast
  let ?r = "?q\<lparr>m_hSock := fd\<rparr>"
  show ?thesis
  proof (cases ok)
    case False
    have "- 1 \<notin> open_fds w \<longrightarrow> AList.delete fd (fds w) = fds w" using c(3) by auto
    with c(2,4) False have "perf_result fd ?f w (?r\<lparr>m_hSock := 0\<rparr>) w1"
      by (auto simp: perf_result_def still_def intro: exI [of _ 0])
    moreover have "fd = - 1 \<or> 0 \<le> fd \<and> fd < 1024 \<and> fd \<notin> open_fds w"
      using c(3) ready True by (auto simp: perf_ready_def)
    ultimately show ?thesis using c(1) True False
      by (intro exI [of _ fd] exI [of _ "?r\<lparr>m_hSock := 0\<rparr>"] exI [of _ w1]) (auto simp: SendToPerf_eq Let_def)
  next
    case ok: True
    with c have co: "connected_to e fd w w1" by simp
    then have s: "session fd w w1" "clean_stream (pending fd w1)"
      using peers by (auto simp: connected_to_def clean_peers_def)
    have fd: "0 \<le> fd" "fd < 1024" "fd \<notin> open_fds w"
      using s(1) c(3) ready True by (auto simp: session_def perf_ready_def)
    have log1: "log_ok e w1" using session_log_ok [OF s(1) log] .
    from report_on_spec [OF log1, of ?r "m_connectioncnt p"] s(2) fd obtain p1 w2 where
      r: "report_on e ?r (m_connectioncnt p) w1 = Some (p1, w2)" "p1 = ?r \<or> p1 = ?r\<lparr>m_hSock := 0\<rparr>"
         "perf_result fd ?f w1 p1 w2"
      by (auto simp: perf_args_def)
    have "- 1 \<in> open_fds w1 \<longrightarrow> - 1 \<in> open_fds w"
      using s(1) fd(1) unfolding session_def
      by (metis Diff_iff keys_delete not_one_le_zero neg_0_le_iff_le singletonD)
    then have "perf_result fd ?f w p1 w2"
      using r(3) s(1) c(2) fd(3) by (auto simp: perf_result_def session_def still_def)
    with r c(1) True ok fd show ?thesis
      by (intro exI [of _ fd] exI [of _ p1] exI [of _ w2]) (auto simp: SendToPerf_eq Let_def)
  qed
qed

end
