(* ===== verification/JsonParser.thy ===== *)
theory JsonParser
  imports C_Prelude
begin

text \<open>
  \<open>CJsonParser\<close> (JsonParser.cpp, JsonParser.h): flat access to a JSON document by key. The JSON
  values and their operations belong to the jsoncpp library, whose code is not in the
  repository: they are the argument \<open>J\<close> of every definition, and what is relied on of them is
  the predicate \<open>json_laws\<close>. The strings of keys and values are C strings. An operation of the
  library that fails (wrong type of value: it throws) is \<open>None\<close>.
\<close>

section \<open>The library\<close>

record 'v jsoncpp =
  j_null :: 'v
  j_parse :: "string \<Rightarrow> 'v \<Rightarrow> bool \<times> 'v"
  j_isMember :: "'v \<Rightarrow> string \<Rightarrow> bool option"
  j_at :: "'v \<Rightarrow> string \<Rightarrow> 'v option"
  j_set :: "'v \<Rightarrow> string \<Rightarrow> 'v \<Rightarrow> 'v option"
  j_size :: "'v \<Rightarrow> nat"
  j_elem :: "'v \<Rightarrow> nat \<Rightarrow> 'v option"
  j_append :: "'v \<Rightarrow> 'v \<Rightarrow> 'v option"
  j_of_string :: "string \<Rightarrow> 'v"
  j_of_int :: "int \<Rightarrow> 'v"
  j_of_double :: "64 word \<Rightarrow> 'v"
  j_of_bool :: "bool \<Rightarrow> 'v"
  j_asCString :: "'v \<Rightarrow> string option"
  j_asInt :: "'v \<Rightarrow> int option"
  j_asDouble :: "'v \<Rightarrow> (64 word) option"
  j_asBool :: "'v \<Rightarrow> bool option"
  j_styled :: "'v \<Rightarrow> string"

text \<open>\<open>Value::get(key, default)\<close>: the member, or the default.\<close>

definition j_get :: "'v jsoncpp \<Rightarrow> 'v \<Rightarrow> string \<Rightarrow> 'v \<Rightarrow> 'v option" where
  "j_get J v key dflt = do {
     there \<leftarrow> j_isMember J v key;
     if there then j_at J v key else Some dflt }"

section \<open>The object\<close>

record 'v jparser =
  jp_strData :: string
  m_root :: 'v
  jp_logflag :: int

definition CJsonParser_new :: "'v jsoncpp \<Rightarrow> 'v jparser" where
  "CJsonParser_new J = \<lparr>jp_strData = [], m_root = j_null J, jp_logflag = 0\<rparr>"

definition InitData :: "char list \<Rightarrow> int \<Rightarrow> 'v jparser \<Rightarrow> 'v jparser option" where
  "InitData dat logflag q = do {
     s \<leftarrow> c_str dat;
     Some (q\<lparr>jp_strData := s, jp_logflag := logflag\<rparr>) }"

definition ReadParse :: "'v jsoncpp \<Rightarrow> 'v jparser \<Rightarrow> bool \<times> 'v jparser" where
  "ReadParse J q = (let (result, root) = j_parse J (jp_strData q) (m_root q)
                    in (result, q\<lparr>m_root := root\<rparr>))"

section \<open>Reading\<close>

text \<open>
  Every reader returns \<open>FALSE\<close> and leaves the output argument alone when the key is missing.
  \<open>read_member\<close> is that test and the access; \<open>conv\<close> is the conversion.
\<close>

definition read_member ::
  "'v jsoncpp \<Rightarrow> string \<Rightarrow> 'v \<Rightarrow> ('v \<Rightarrow> 'a option) \<Rightarrow> 'a \<Rightarrow> 'v jparser \<Rightarrow> (bool \<times> 'a) option" where
  "read_member J key dflt conv out q = do {
     there \<leftarrow> j_isMember J (m_root q) key;
     if \<not> there then Some (False, out)
     else do {
       v \<leftarrow> j_get J (m_root q) key dflt;
       x \<leftarrow> conv v;
       Some (True, x) } }"

definition ReadValueInt :: "'v jsoncpp \<Rightarrow> string \<Rightarrow> int \<Rightarrow> 'v jparser \<Rightarrow> (bool \<times> int) option" where
  "ReadValueInt J key = read_member J key (j_of_int J 0) (j_asInt J)"

definition ReadValueDouble ::
  "'v jsoncpp \<Rightarrow> string \<Rightarrow> 64 word \<Rightarrow> 'v jparser \<Rightarrow> (bool \<times> 64 word) option" where
  "ReadValueDouble J key = read_member J key (j_of_int J 0) (j_asDouble J)"

definition ReadValueBool :: "'v jsoncpp \<Rightarrow> string \<Rightarrow> bool \<Rightarrow> 'v jparser \<Rightarrow> (bool \<times> bool) option" where
  "ReadValueBool J key = read_member J key (j_of_int J 0) (j_asBool J)"

text \<open>
  The string readers copy the characters of the value into the block at \<open>strvalue\<close>, without
  the terminating NUL: \<open>copy_chars\<close>.
\<close>

definition copy_chars :: "string \<Rightarrow> char list \<Rightarrow> char list option" where
  "copy_chars s strvalue = poke 0 (takeWhile (\<lambda>c. c \<noteq> NUL) s) strvalue"

definition store_string :: "'v jsoncpp \<Rightarrow> char list \<Rightarrow> 'v \<Rightarrow> char list option" where
  "store_string J strvalue v = Option.bind (j_asCString J v) (\<lambda>s. copy_chars s strvalue)"

definition ReadValueString ::
  "'v jsoncpp \<Rightarrow> string \<Rightarrow> char list \<Rightarrow> 'v jparser \<Rightarrow> (bool \<times> char list) option" where
  "ReadValueString J key strvalue =
     read_member J key (j_of_string J []) (store_string J strvalue) strvalue"

definition GetReadArrayCount :: "'v jsoncpp \<Rightarrow> string \<Rightarrow> 'v jparser \<Rightarrow> int option" where
  "GetReadArrayCount J key q = do {
     there \<leftarrow> j_isMember J (m_root q) key;
     if \<not> there then Some 0
     else do {
       valData \<leftarrow> j_at J (m_root q) key;
       Some (sint (word_of_nat (j_size J valData) :: 32 word)) } }"

text \<open>A negative index becomes a large unsigned one: the library fails on it.\<close>

definition ReadArray ::
  "'v jsoncpp \<Rightarrow> string \<Rightarrow> int \<Rightarrow> char list \<Rightarrow> 'v jparser \<Rightarrow> (bool \<times> char list) option" where
  "ReadArray J key index strvalue q = do {
     there \<leftarrow> j_isMember J (m_root q) key;
     if \<not> there then Some (False, strvalue)
     else do {
       valData \<leftarrow> j_at J (m_root q) key;
       if sint (word_of_nat (j_size J valData) :: 32 word) \<le> index then Some (False, strvalue)
       else do {
         v \<leftarrow> j_elem J valData (unat (word_of_int index :: 32 word));
         blk \<leftarrow> store_string J strvalue v;
         Some (True, blk) } } }"

text \<open>The two-level readers test the first key only.\<close>

definition read_member2 ::
  "'v jsoncpp \<Rightarrow> string \<Rightarrow> string \<Rightarrow> 'v \<Rightarrow> ('v \<Rightarrow> 'a option) \<Rightarrow> 'a \<Rightarrow> 'v jparser \<Rightarrow>
     (bool \<times> 'a) option" where
  "read_member2 J key1 key2 dflt conv out q = do {
     there \<leftarrow> j_isMember J (m_root q) key1;
     if \<not> there then Some (False, out)
     else do {
       inner \<leftarrow> j_at J (m_root q) key1;
       v \<leftarrow> j_get J inner key2 dflt;
       x \<leftarrow> conv v;
       Some (True, x) } }"

definition ReadArrayValueString ::
  "'v jsoncpp \<Rightarrow> string \<Rightarrow> string \<Rightarrow> char list \<Rightarrow> 'v jparser \<Rightarrow> (bool \<times> char list) option" where
  "ReadArrayValueString J key1 key2 strvalue =
     read_member2 J key1 key2 (j_of_string J []) (store_string J strvalue) strvalue"

definition ReadArrayValueInt ::
  "'v jsoncpp \<Rightarrow> string \<Rightarrow> string \<Rightarrow> int \<Rightarrow> 'v jparser \<Rightarrow> (bool \<times> int) option" where
  "ReadArrayValueInt J key1 key2 = read_member2 J key1 key2 (j_of_int J 0) (j_asInt J)"

definition ReadArrayValueDouble ::
  "'v jsoncpp \<Rightarrow> string \<Rightarrow> string \<Rightarrow> 64 word \<Rightarrow> 'v jparser \<Rightarrow> (bool \<times> 64 word) option" where
  "ReadArrayValueDouble J key1 key2 = read_member2 J key1 key2 (j_of_int J 0) (j_asDouble J)"

text \<open>\<open>m_root[key1][key2]\<close> on a value that is not constant creates the member when it is missing.\<close>

definition ReadArrayValueBool ::
  "'v jsoncpp \<Rightarrow> string \<Rightarrow> string \<Rightarrow> bool \<Rightarrow> 'v jparser \<Rightarrow> (bool \<times> bool \<times> 'v jparser) option" where
  "ReadArrayValueBool J key1 key2 boolvalue q = do {
     there \<leftarrow> j_isMember J (m_root q) key1;
     if \<not> there then Some (False, boolvalue, q)
     else do {
       inner \<leftarrow> j_at J (m_root q) key1;
       v \<leftarrow> j_get J inner key2 (j_null J);
       inner \<leftarrow> j_set J inner key2 v;
       root \<leftarrow> j_set J (m_root q) key1 inner;
       x \<leftarrow> j_asBool J v;
       Some (True, x, q\<lparr>m_root := root\<rparr>) } }"

section \<open>Writing\<close>

text \<open>\<open>MakeWrite\<close> prints into the block at \<open>strvalue\<close>, with the NUL.\<close>

definition MakeWrite :: "'v jsoncpp \<Rightarrow> char list \<Rightarrow> 'v jparser \<Rightarrow> char list option" where
  "MakeWrite J strvalue q =
     poke 0 (takeWhile (\<lambda>c. c \<noteq> NUL) (j_styled J (m_root q)) @ [NUL]) strvalue"

definition write_member :: "'v jsoncpp \<Rightarrow> string \<Rightarrow> 'v \<Rightarrow> 'v jparser \<Rightarrow> 'v jparser option" where
  "write_member J key v q = map_option (\<lambda>root. q\<lparr>m_root := root\<rparr>) (j_set J (m_root q) key v)"

definition WriteValueString :: "'v jsoncpp \<Rightarrow> string \<Rightarrow> char list \<Rightarrow> 'v jparser \<Rightarrow> 'v jparser option" where
  "WriteValueString J key strvalue q =
     Option.bind (c_str strvalue) (\<lambda>s. write_member J key (j_of_string J s) q)"

definition WriteValueInt :: "'v jsoncpp \<Rightarrow> string \<Rightarrow> int \<Rightarrow> 'v jparser \<Rightarrow> 'v jparser option" where
  "WriteValueInt J key n = write_member J key (j_of_int J n)"

definition WriteValueDouble :: "'v jsoncpp \<Rightarrow> string \<Rightarrow> 64 word \<Rightarrow> 'v jparser \<Rightarrow> 'v jparser option" where
  "WriteValueDouble J key d = write_member J key (j_of_double J d)"

definition WriteValueBool :: "'v jsoncpp \<Rightarrow> string \<Rightarrow> bool \<Rightarrow> 'v jparser \<Rightarrow> 'v jparser option" where
  "WriteValueBool J key b = write_member J key (j_of_bool J b)"

definition WriteValueLongLong :: "'v jsoncpp \<Rightarrow> string \<Rightarrow> int \<Rightarrow> 'v jparser \<Rightarrow> 'v jparser option" where
  "WriteValueLongLong J key n = write_member J key (j_of_int J n)"

text \<open>Appends to a copy of the member, created when it is missing.\<close>

definition WriteArrayAppend :: "'v jsoncpp \<Rightarrow> string \<Rightarrow> char list \<Rightarrow> 'v jparser \<Rightarrow> 'v jparser option" where
  "WriteArrayAppend J key strvalue q = do {
     valData \<leftarrow> j_get J (m_root q) key (j_null J);
     s \<leftarrow> c_str strvalue;
     valData \<leftarrow> j_append J valData (j_of_string J s);
     write_member J key valData q }"

definition write_member2 ::
  "'v jsoncpp \<Rightarrow> string \<Rightarrow> string \<Rightarrow> 'v \<Rightarrow> 'v jparser \<Rightarrow> 'v jparser option" where
  "write_member2 J key1 key2 v q = do {
     valData \<leftarrow> j_get J (m_root q) key1 (j_null J);
     valData \<leftarrow> j_set J valData key2 v;
     write_member J key1 valData q }"

definition WriteArrayValueString ::
  "'v jsoncpp \<Rightarrow> string \<Rightarrow> string \<Rightarrow> char list \<Rightarrow> 'v jparser \<Rightarrow> 'v jparser option" where
  "WriteArrayValueString J key1 key2 strvalue q =
     Option.bind (c_str strvalue) (\<lambda>s. write_member2 J key1 key2 (j_of_string J s) q)"

definition WriteArrayValueInt ::
  "'v jsoncpp \<Rightarrow> string \<Rightarrow> string \<Rightarrow> int \<Rightarrow> 'v jparser \<Rightarrow> 'v jparser option" where
  "WriteArrayValueInt J key1 key2 n = write_member2 J key1 key2 (j_of_int J n)"

definition WriteArrayValueDouble ::
  "'v jsoncpp \<Rightarrow> string \<Rightarrow> string \<Rightarrow> 64 word \<Rightarrow> 'v jparser \<Rightarrow> 'v jparser option" where
  "WriteArrayValueDouble J key1 key2 d = write_member2 J key1 key2 (j_of_double J d)"

definition WriteArrayValueBool ::
  "'v jsoncpp \<Rightarrow> string \<Rightarrow> string \<Rightarrow> bool \<Rightarrow> 'v jparser \<Rightarrow> 'v jparser option" where
  "WriteArrayValueBool J key1 key2 b = write_member2 J key1 key2 (j_of_bool J b)"

section \<open>What is relied on of the library\<close>

text \<open>
  Documented behaviour: the null value and objects take members; a member set is there and is
  the value set; the other members stay; strings, integers, booleans and doubles come back.
\<close>

definition json_laws :: "'v jsoncpp \<Rightarrow> ('v \<Rightarrow> bool) \<Rightarrow> bool" where
  "json_laws J obj \<longleftrightarrow>
     obj (j_null J) \<and>
     (\<forall>v k. obj v \<longrightarrow> j_isMember J v k \<noteq> None) \<and>
     (\<forall>v k x. obj v \<longrightarrow> (\<exists>u. j_set J v k x = Some u \<and> obj u \<and> j_isMember J u k = Some True \<and>
        j_at J u k = Some x \<and>
        (\<forall>k'. k' \<noteq> k \<longrightarrow> j_isMember J u k' = j_isMember J v k' \<and>
           (j_isMember J v k' = Some True \<longrightarrow> j_at J u k' = j_at J v k')))) \<and>
     (\<forall>k. j_isMember J (j_null J) k = Some False) \<and>
     (\<forall>s. NUL \<notin> set s \<longrightarrow> j_asCString J (j_of_string J s) = Some s) \<and>
     (\<forall>n. int_range n \<longrightarrow> j_asInt J (j_of_int J n) = Some n) \<and>
     (\<forall>d. j_asDouble J (j_of_double J d) = Some d) \<and>
     (\<forall>b. j_asBool J (j_of_bool J b) = Some b)"

section \<open>What is written is read back\<close>

lemma write_member_total:
  assumes "json_laws J obj" "obj (m_root q)"
  shows "\<exists>u. write_member J key v q = Some (q\<lparr>m_root := u\<rparr>) \<and> obj u"
proof -
  from assms obtain u where "j_set J (m_root q) key v = Some u" "obj u"
    unfolding json_laws_def by metis
  then show ?thesis by (auto simp: write_member_def)
qed

lemma written_root:
  assumes "json_laws J obj" "obj (m_root q)" "write_member J key v q = Some r"
  shows "j_isMember J (m_root r) key = Some True" "j_at J (m_root r) key = Some v"
    and "\<And>k. k \<noteq> key \<Longrightarrow> j_isMember J (m_root r) k = j_isMember J (m_root q) k"
    and "\<And>k. k \<noteq> key \<Longrightarrow> j_isMember J (m_root q) k = Some True \<Longrightarrow> j_at J (m_root r) k = j_at J (m_root q) k"
proof -
  from assms(3) obtain u where u: "j_set J (m_root q) key v = Some u" "m_root r = u"
    by (auto simp: write_member_def bind_eq_Some_conv)
  with assms(1,2) show "j_isMember J (m_root r) key = Some True" "j_at J (m_root r) key = Some v"
    "\<And>k. k \<noteq> key \<Longrightarrow> j_isMember J (m_root r) k = j_isMember J (m_root q) k"
    "\<And>k. k \<noteq> key \<Longrightarrow> j_isMember J (m_root q) k = Some True \<Longrightarrow> j_at J (m_root r) k = j_at J (m_root q) k"
    unfolding json_laws_def by (metis option.inject)+
qed

lemma read_written:
  assumes "json_laws J obj" "obj (m_root q)" "write_member J key v q = Some r" "conv v = Some x"
  shows "read_member J key dflt conv out r = Some (True, x)"
  using written_root(1,2) [OF assms(1-3)] assms(4) by (simp add: read_member_def j_get_def)

lemma read_other:
  assumes "json_laws J obj" "obj (m_root q)" "write_member J key v q = Some r" "k \<noteq> key"
  shows "read_member J k dflt conv out r = read_member J k dflt conv out q"
  using written_root(3,4) [OF assms(1-3) assms(4)]
  by (cases "j_isMember J (m_root q) k") (auto simp: read_member_def j_get_def)

text \<open>A string goes into a zeroed block: the block holds it as a C string when it is shorter.\<close>

lemma copy_chars_zeroed:
  "NUL \<notin> set s \<Longrightarrow> length s \<le> n \<Longrightarrow>
   copy_chars s (replicate n NUL) = Some (s @ replicate (n - length s) NUL)"
  by (simp add: copy_chars_def poke_def)

lemma copy_chars_overflow: "NUL \<notin> set s \<Longrightarrow> length blk < length s \<Longrightarrow> copy_chars s blk = None"
  by (simp add: copy_chars_def poke_def)

lemma c_str_padded: "NUL \<notin> set s \<Longrightarrow> length s < n \<Longrightarrow> c_str (s @ replicate (n - length s) NUL) = Some s"
proof -
  assume s: "NUL \<notin> set s" "length s < n"
  then have "replicate (n - length s) NUL = NUL # replicate (n - length s - 1) NUL"
    by (cases "n - length s") auto
  with s(1) show ?thesis by simp
qed

lemma c_str_full: "NUL \<notin> set s \<Longrightarrow> c_str s = None"
  by (simp add: c_str_def)

text \<open>Into a block in use, the tail of the old content stays behind the new one.\<close>

lemma copy_chars_stale:
  assumes "NUL \<notin> set s" "NUL \<notin> set old" "length s < length old"
  shows "\<exists>blk. copy_chars s (old @ [NUL]) = Some blk \<and> c_str blk = Some (s @ drop (length s) old)"
proof -
  have "NUL \<notin> set (s @ drop (length s) old)"
    using assms by (auto dest: in_set_dropD)
  then show ?thesis
    using assms c_str_terminated [of "s @ drop (length s) old" "[]"]
    by (simp add: copy_chars_def poke_def)
qed

end
