(* ===== verification/ConfFile.thy ===== *)
theory ConfFile
  imports C_Text
begin

text \<open>
  The configuration files of main.cpp and inc/http/mainapp.cpp: both programs read theirs with the
  same loop, one value per line, each line with its own variable. A file that is written line by
  line is read back.
\<close>

section \<open>The loop\<close>

text \<open>\<open>sscanf(buffer, "%d", &v)\<close> leaves \<open>v\<close> alone when there is no number.\<close>

definition scan_int :: "string \<Rightarrow> int \<Rightarrow> int option" where
  "scan_int s old = map_option (\<lambda>r. case r of None \<Rightarrow> old | Some n \<Rightarrow> n) (scan_d s)"

text \<open>
  \<open>fscanf(file, "%[^\n]\n", buffer)\<close> with \<open>char buffer[500]\<close>: the line, then all white space after
  it. An empty line at the start ends the loop, a later one is skipped.
\<close>

definition newline :: char where "newline = CHR 0x0A"

definition first_line :: "string \<Rightarrow> string" where
  "first_line f = takeWhile (\<lambda>c. c \<noteq> newline) f"

definition after_line :: "string \<Rightarrow> string" where
  "after_line f = dropWhile isspace (drop (length (first_line f)) f)"

function read_lines ::
  "(nat \<Rightarrow> string \<Rightarrow> 'g \<Rightarrow> 'g option) \<Rightarrow> nat \<Rightarrow> string \<Rightarrow> 'g \<Rightarrow> 'g option" where
  "read_lines parse confcount f g =
     (let buffer = takeWhile (\<lambda>c. c \<noteq> NUL) (first_line f) in
      if 500 \<le> length (first_line f) then None
      else if buffer = [] then Some g
      else case parse confcount buffer g of
             None \<Rightarrow> None
           | Some g1 \<Rightarrow> read_lines parse (Suc confcount) (after_line f) g1)"
  by pat_completeness auto
termination
proof (relation "measure (\<lambda>(p, n, f, g). length f)")
  fix n :: nat and f :: string and g g1 :: 'g and buffer and parse :: "nat \<Rightarrow> string \<Rightarrow> 'g \<Rightarrow> 'g option"
  assume "buffer = takeWhile (\<lambda>c. c \<noteq> NUL) (first_line f)" "buffer \<noteq> []"
  then have "first_line f \<noteq> []" by auto
  then have "f \<noteq> []" "0 < length (first_line f)" by (auto simp: first_line_def)
  then have "length (drop (length (first_line f)) f) < length f" by simp
  then have "length (after_line f) < length f"
    unfolding after_line_def using length_dropWhile_le by (rule order_le_less_trans [rotated])
  then show "((parse, Suc n, after_line f, g1), parse, n, f, g) \<in> measure (\<lambda>(p, n, f, g). length f)" by simp
qed simp

declare read_lines.simps [simp del]

section \<open>Reading back what was written\<close>

lemma first_line_append [simp]:
  "newline \<notin> set l \<Longrightarrow> first_line (l @ newline # rest) = l"
  "newline \<notin> set l \<Longrightarrow> first_line l = l"
  unfolding first_line_def by (induction l) auto

lemma isspace_newline [simp]: "isspace newline"
  by (simp add: isspace_def newline_def)

definition starts_word :: "string \<Rightarrow> bool" where
  "starts_word s \<longleftrightarrow> s = [] \<or> \<not> isspace (hd s)"

lemma dropWhile_word [simp]: "starts_word s \<Longrightarrow> dropWhile isspace s = s"
  by (cases s) (auto simp: starts_word_def)

lemma read_lines_line:
  assumes l: "l \<noteq> []" "newline \<notin> set l" "NUL \<notin> set l" "length l < 500" and r: "starts_word rest"
  shows "read_lines parse n (l @ newline # rest) g =
    (case parse n l g of None \<Rightarrow> None | Some g1 \<Rightarrow> read_lines parse (Suc n) rest g1)"
proof -
  have "after_line (l @ newline # rest) = rest" using l(2) r by (simp add: after_line_def)
  with l show ?thesis
    by (simp add: read_lines.simps [of parse n "l @ newline # rest" g] split: option.split)
qed

lemma read_lines_end [simp]: "read_lines parse n [] g = Some g"
  by (simp add: read_lines.simps [of parse n "[]" g] first_line_def)

text \<open>A word, and the remark that may follow it on the line.\<close>

definition word_ok :: "nat \<Rightarrow> string \<Rightarrow> bool" where
  "word_ok n s \<longleftrightarrow> s \<noteq> [] \<and> length s < n \<and> (\<forall>c\<in>set s. \<not> isspace c \<and> c \<noteq> NUL)"

definition remark_ok :: "string \<Rightarrow> bool" where
  "remark_ok r \<longleftrightarrow> (r = [] \<or> hd r = CHR '' '') \<and> length r < 200 \<and> newline \<notin> set r \<and> NUL \<notin> set r"

lemma isspace_space [simp]: "isspace (CHR '' '')" "\<not> isdigit (CHR '' '')"
  by (simp_all add: isspace_def isdigit_def)

lemma remark_stops: "remark_ok r \<Longrightarrow> r = [] \<or> isspace (hd r)" "remark_ok r \<Longrightarrow> r = [] \<or> \<not> isdigit (hd r)"
  by (auto simp: remark_ok_def)

lemma takeWhile_word:
  "(\<forall>c\<in>set s. \<not> isspace c) \<Longrightarrow> r = [] \<or> isspace (hd r) \<Longrightarrow> takeWhile (\<lambda>c. \<not> isspace c) (s @ r) = s"
  by (cases r) (auto simp: takeWhile_append2)

lemma scan_into_word:
  assumes s: "word_ok n s" and r: "remark_ok r"
  shows "scan_into n (s @ r) old = Some s"
proof -
  have "starts_word (s @ r)" using s by (cases s) (auto simp: starts_word_def word_ok_def)
  then have "scan_s (s @ r) = Some s"
    using s takeWhile_word [of s r] remark_stops(1) [OF r] by (simp add: scan_s_def word_ok_def)
  with s show ?thesis by (simp add: scan_into_def word_ok_def)
qed

lemma scan_int_number: "int_range n \<Longrightarrow> remark_ok r \<Longrightarrow> scan_int (fmt_d n @ r) old = Some n"
  using scan_d_fmt_d [of n r] remark_stops(2) [of r] by (simp add: scan_int_def)

lemma word_number: "int_range n \<Longrightarrow> word_ok 200 (fmt_d n)"
proof -
  assume n: "int_range n"
  then have "nat \<bar>n\<bar> < 10 ^ 10" by auto
  then have len: "length (dec (nat \<bar>n\<bar>)) \<le> 10" by (rule length_dec_le) simp
  have dig: "\<not> isspace c \<and> c \<noteq> NUL" if "c \<in> set (dec m)" for c m
    using dec_isdigit [OF that] by (auto simp: isdigit_def isspace_def)
  have "\<not> isspace (CHR ''-'')" by (simp add: isspace_def)
  with len dig show ?thesis
    by (auto simp: word_ok_def fmt_d_def fmt_d0_def Let_def)
qed

lemma read_lines_word:
  assumes s: "word_ok n s" "n \<le> 256" and r: "remark_ok r" and rest: "starts_word rest"
  shows "read_lines parse k ((s @ r) @ newline # rest) g =
    (case parse k (s @ r) g of None \<Rightarrow> None | Some g1 \<Rightarrow> read_lines parse (Suc k) rest g1)"
proof (rule read_lines_line [OF _ _ _ _ rest])
  from s(1) have s': "s \<noteq> []" "length s < n" "\<And>c. c \<in> set s \<Longrightarrow> \<not> isspace c" "NUL \<notin> set s"
    by (auto simp: word_ok_def)
  from r have r': "length r < 200" "newline \<notin> set r" "NUL \<notin> set r" by (auto simp: remark_ok_def)
  show "s @ r \<noteq> []" using s'(1) by simp
  show "NUL \<notin> set (s @ r)" using s'(4) r'(3) by simp
  show "length (s @ r) < 500" using s'(2) s(2) r'(1) by simp
  show "newline \<notin> set (s @ r)" using s'(3) [of newline] r'(2) by auto
qed

lemma starts_word_line: "word_ok n s \<Longrightarrow> starts_word ((s @ r) @ newline # rest)"
  by (cases s) (auto simp: word_ok_def starts_word_def)

lemma starts_word_Nil [simp]: "starts_word []"
  by (simp add: starts_word_def)

fun conf_lines :: "(string \<times> string) list \<Rightarrow> string" where
  "conf_lines [] = []"
| "conf_lines ((s, r) # ls) = (s @ r) @ newline # conf_lines ls"

text \<open>The values taken one after the other.\<close>

fun parse_words ::
  "(nat \<Rightarrow> string \<Rightarrow> 'g \<Rightarrow> 'g option) \<Rightarrow> nat \<Rightarrow> (string \<times> string) list \<Rightarrow> 'g \<Rightarrow> 'g option" where
  "parse_words parse k [] g = Some g"
| "parse_words parse k ((s, r) # ls) g =
     (case parse k (s @ r) g of None \<Rightarrow> None | Some g1 \<Rightarrow> parse_words parse (Suc k) ls g1)"

definition line_ok :: "string \<times> string \<Rightarrow> bool" where
  "line_ok l \<longleftrightarrow> word_ok 256 (fst l) \<and> remark_ok (snd l)"

lemma line_okI: "word_ok n s \<Longrightarrow> n \<le> 256 \<Longrightarrow> remark_ok r \<Longrightarrow> line_ok (s, r)"
  by (simp add: line_ok_def word_ok_def)

lemma starts_word_lines: "\<forall>l\<in>set ls. line_ok l \<Longrightarrow> starts_word (conf_lines ls)"
  using starts_word_line by (cases ls) (auto simp: line_ok_def)

lemma read_conf_lines:
  "\<forall>l\<in>set ls. line_ok l \<Longrightarrow> read_lines parse k (conf_lines ls) g = parse_words parse k ls g"
proof (induction ls arbitrary: k g)
  case (Cons l ls)
  obtain s r where l: "l = (s, r)" by (cases l)
  have "read_lines parse k ((s @ r) @ newline # conf_lines ls) g =
    (case parse k (s @ r) g of None \<Rightarrow> None | Some g1 \<Rightarrow> read_lines parse (Suc k) (conf_lines ls) g1)"
    by (rule read_lines_word [of 256]) (use Cons.prems l starts_word_lines [of ls] in \<open>auto simp: line_ok_def\<close>)
  with Cons show ?case unfolding l by (auto split: option.split)
qed simp

end
