(* ===== verification/MainProg.thy ===== *)
theory MainProg
  imports PerfReport JsonParser ConfFile
begin

text \<open>
  main.cpp: the configuration file, the start-up sequence and the information handed to the
  threads. The threads themselves are the theories of the components they run.
\<close>

section \<open>The global variables\<close>

text \<open>Static storage: numbers start as 0, character arrays as empty strings.\<close>

record globals =
  SERVER_INDEX :: int
  WMI_MANAGER_IP :: string
  WMI_MANAGER_PORT :: int
  WMI_MANAGER_LOG_PATH :: string
  PROCESS_POOL_SIZE :: int
  SERVER_TYPE :: string

definition globals_static :: globals where
  "globals_static = \<lparr>SERVER_INDEX = 0, WMI_MANAGER_IP = [], WMI_MANAGER_PORT = 0,
     WMI_MANAGER_LOG_PATH = [], PROCESS_POOL_SIZE = 0, SERVER_TYPE = []\<rparr>"

section \<open>The configuration file\<close>

definition conf_line :: "nat \<Rightarrow> string \<Rightarrow> globals \<Rightarrow> globals option" where
  "conf_line confcount buffer g =
     (if confcount = 0 then map_option (\<lambda>n. g\<lparr>SERVER_INDEX := n\<rparr>) (scan_int buffer (SERVER_INDEX g))
      else if confcount = 1
      then map_option (\<lambda>s. g\<lparr>WMI_MANAGER_IP := s\<rparr>) (scan_into 128 buffer (WMI_MANAGER_IP g))
      else if confcount = 2
      then map_option (\<lambda>n. g\<lparr>WMI_MANAGER_PORT := n\<rparr>) (scan_int buffer (WMI_MANAGER_PORT g))
      else if confcount = 3
      then map_option (\<lambda>s. g\<lparr>WMI_MANAGER_LOG_PATH := s\<rparr>)
             (scan_into 256 buffer (WMI_MANAGER_LOG_PATH g))
      else if confcount = 4
      then map_option (\<lambda>n. g\<lparr>PROCESS_POOL_SIZE := n\<rparr>) (scan_int buffer (PROCESS_POOL_SIZE g))
      else if confcount = 5
      then map_option (\<lambda>s. g\<lparr>SERVER_TYPE := s\<rparr>) (scan_into 16 buffer (SERVER_TYPE g))
      else Some g)"

definition read_conf :: "nat \<Rightarrow> string \<Rightarrow> globals \<Rightarrow> globals option" where
  "read_conf = read_lines conf_line"

section \<open>The metadata of the machine\<close>

text \<open>
  One value into a zeroed array of \<open>n\<close> bytes; the pointer in \<open>conninfo\<close> is set, and the array
  logged as a string, only when the key is there.
\<close>

definition read_meta ::
  "env \<Rightarrow> 'v jsoncpp \<Rightarrow> string \<Rightarrow> nat \<Rightarrow> string \<Rightarrow> 'v jparser \<Rightarrow> world \<Rightarrow> (char list option \<times> world) option" where
  "read_meta e J key n message q w = do {
     (found, blk) \<leftarrow> ReadValueString J key (replicate n NUL) q;
     if found
     then do {
       s \<leftarrow> c_str blk;
       w \<leftarrow> WriteLog e message (- 1) (L3 s) w;
       Some (Some blk, w) }
     else Some (None, w) }"

definition metadata_url :: string where
  "metadata_url = ''http://169.254.169.254/openstack/latest/meta_data.json''"

text \<open>From \<open>struct ConnInfo conninfo;\<close> to the log line with the URL.\<close>

definition make_conninfo ::
  "env \<Rightarrow> 'v jsoncpp \<Rightarrow> globals \<Rightarrow> world \<Rightarrow> (conninfo \<times> world) option" where
  "make_conninfo e J g w = do {
     (res, w) \<leftarrow> get e metadata_url [] w;
     q \<leftarrow> InitData (res_body res @ [NUL]) 0 (CJsonParser_new J);
     let (_, q) = ReadParse J q;
     (m_uuid, w) \<leftarrow> read_meta e J ''uuid'' 128 ''Meta UUID : '' q w;
     (m_zone, w) \<leftarrow> read_meta e J ''availability_zone'' 32 ''Meta Availability_zone'' q w;
     (m_host, w) \<leftarrow> read_meta e J ''hostname'' 32 ''Meta Hostname'' q w;
     (m_name, w) \<leftarrow> read_meta e J ''name'' 32 ''VM Name'' q w;
     (res, w) \<leftarrow> get e ip_url [] w;
     let body = res_body res @ [NUL];
     ip_text \<leftarrow> c_str body;
     w \<leftarrow> (if res_body res \<noteq> [] then WriteLog e ''myip : '' (- 1) (L3 ip_text) w else Some w);
     w \<leftarrow> WriteLog e ''MetadataURL : '' (- 1) (L4 metadata_url ip_text) w;
     Some (\<lparr>ip = WMI_MANAGER_IP g, port = WMI_MANAGER_PORT g,
            server_type = (if SERVER_TYPE g = ''VM'' then 1 else 0),
            external_ip = (if res_body res \<noteq> [] then Some body else None),
            availability_zone = m_zone, host = m_host, metaname = m_name, uuid = m_uuid\<rparr>, w) }"

section \<open>Start-up\<close>

datatype 'a startup = Exit int | Running 'a

text \<open>\<open>sem_init\<close> and \<open>pthread_create\<close>: a result code.\<close>

definition sys_code :: "env \<Rightarrow> world \<Rightarrow> int \<times> world" where
  "sys_code e w = (e_mutex e (tick w), w\<lparr>tick := Suc (tick w)\<rparr>)"

definition close_std :: "env \<Rightarrow> world \<Rightarrow> world" where
  "close_std e w = (let (_, w) = sys_close e 0 w; (_, w) = sys_close e 1 w; (_, w) = sys_close e 2 w in w)"

text \<open>The loop that starts the pool; \<open>k\<close> threads are left to start.\<close>

fun start_pool :: "env \<Rightarrow> nat \<Rightarrow> world \<Rightarrow> (bool \<times> world) option" where
  "start_pool e 0 w = Some (True, w)"
| "start_pool e (Suc k) w = (
     let (result, w) = sys_code e w in
     if result \<noteq> 0
     then do {
       w \<leftarrow> WriteErrorLog e ''WMI Monitor Manager Process Thread Process failed'' (- 1) L0 w;
       Some (False, w) }
     else start_pool e k w)"

text \<open>
  \<open>main\<close> up to its idle loop, \<open>file\<close> the content of the configuration file if it can be opened.
  A running program has its globals, the state of \<open>CPerfInfo\<close>, and the information the
  \<open>PROCESS_POOL_SIZE\<close> threads share.
\<close>

definition main_start ::
  "env \<Rightarrow> 'v jsoncpp \<Rightarrow> string option \<Rightarrow> world \<Rightarrow>
     ((globals \<times> perfinfo \<times> conninfo) startup \<times> world) option" where
  "main_start e J file w = (
     case file of
       None \<Rightarrow> Some (Exit 1, w)
     | Some content \<Rightarrow> do {
         g \<leftarrow> read_conf 0 content globals_static;
         let w = close_std e w;
         w \<leftarrow> InitLog e (WMI_MANAGER_LOG_PATH g) w;
         (_, p, w) \<leftarrow> Init e (SERVER_INDEX g) (WMI_MANAGER_IP g) (WMI_MANAGER_PORT g) perf_static w;
         let (result, w) = sys_code e w;
         if result \<noteq> 0
         then do {
           w \<leftarrow> WriteErrorLog e ''WMI Monitor Manager Process Pool Semaphore Process failed'' (- 1) L0 w;
           Some (Exit 0, w) }
         else do {
           (c, w) \<leftarrow> make_conninfo e J g w;
           let (result, w) = sys_code e w;
           if result \<noteq> 0
           then do {
             w \<leftarrow> WriteErrorLog e ''Clean Thread Create Error Log'' (- 1) L0 w;
             Some (Exit 0, w) }
           else do {
             (ok, w) \<leftarrow> start_pool e (nat (PROCESS_POOL_SIZE g)) w;
             if \<not> ok then Some (Exit 0, w)
             else let (_, w) = sys_code e w in Some (Running (g, p, c), w) } } })"

end
