(* ===== verification/PerfThread.thy ===== *)
theory PerfThread
  imports PerfReport
begin

text \<open>
  \<open>report_perf_thread\<close> for any number of rounds: the invariant of the standing connection, which
  every report keeps, whatever the network does. The thread is taken by itself: the rounds of the
  other threads are not interleaved with its own.
\<close>

section \<open>The standing connection\<close>

text \<open>
  \<open>base\<close> are the descriptors the thread does not own; \<open>m_hSock\<close> is 0, or the number of the
  one descriptor it may have besides. Descriptor 0 is among the others, so that no connection
  gets the number that stands for none.
\<close>

definition monitor_state :: "(int \<times> conn) list \<Rightarrow> perfinfo \<Rightarrow> world \<Rightarrow> bool" where
  "monitor_state base p w \<longleftrightarrow>
     0 \<in> keys base \<and> (\<forall>k\<in>keys base. 0 \<le> k) \<and> card (keys base) < 1024 \<and>
     (if m_hSock p = 0 then fds w = base
      else AList.delete (m_hSock p) (fds w) = base \<and> m_hSock p \<notin> keys base \<and>
        (m_hSock p \<in> open_fds w \<longrightarrow> 0 \<le> m_hSock p \<and> m_hSock p < 1024) \<and>
        clean_stream (pending (m_hSock p) w))"

lemma monitor_state_ready: "monitor_state base p w \<Longrightarrow> perf_ready p w"
  by (auto simp: monitor_state_def perf_ready_def is_up_def map_of_keys split: if_splits)

lemma monitor_state_nonneg: "monitor_state base p w \<Longrightarrow> - 1 \<notin> open_fds w"
proof
  assume s: "monitor_state base p w" "- 1 \<in> open_fds w"
  then have nb: "- 1 \<notin> keys base" by (auto simp: monitor_state_def)
  show False
  proof (cases "m_hSock p = - 1")
    case False
    with s have "- 1 \<in> keys base"
      by (auto simp: monitor_state_def split: if_splits)
    with nb show False by blast
  qed (use s in \<open>auto simp: monitor_state_def\<close>)
qed

lemma delete_is_up: "fd \<in> open_fds w \<Longrightarrow> AList.delete fd (fds w) = fds v \<Longrightarrow> fd \<notin> open_fds v"
  using keys_delete [of fd "fds w"] by auto

text \<open>Every report keeps it, and leaves the counter of connections at 0.\<close>

lemma SendToPerf_keeps:
  assumes s: "monitor_state base p w" and log: "log_ok e w" and peers: "clean_peers e"
  shows "\<exists>q v. SendToPerf e p w = Some (q, v) \<and> monitor_state base q v \<and> log_ok e v \<and>
    m_connectioncnt q = 0 \<and> m_serveridx q = m_serveridx p"
proof -
  from SendToPerf_spec [OF log monitor_state_ready [OF s] peers] obtain fd q v where
    r: "SendToPerf e p w = Some (q, v)"
       "if m_hSock p \<noteq> 0 then fd = m_hSock p else fd = - 1 \<or> 0 \<le> fd \<and> fd < 1024 \<and> fd \<notin> open_fds w"
       "q = p\<lparr>m_connectioncnt := 0, m_hSock := m_hSock q\<rparr>"
       "perf_result fd (request_frame REQ_PERF_REPORT (perf_args p)) w q v" by blast
  have q: "m_connectioncnt q = 0" "m_serveridx q = m_serveridx p" by (subst r(3), simp)+
  have base: "0 \<in> keys base" "- 1 \<notin> open_fds w"
    using s monitor_state_nonneg [OF s] by (simp_all add: monitor_state_def)
  have fd: "fd \<notin> keys base" "AList.delete fd (fds w) = base"
    using s r(2) base(2) delete_fresh [of fd "fds w"] by (auto simp: monitor_state_def split: if_splits)
  have "monitor_state base q v"
  proof (cases "m_hSock q = 0")
    case True
    with r(4) fd base have "fds v = base" by (auto simp: perf_result_def)
    with True s show ?thesis by (auto simp: monitor_state_def)
  next
    case False
    with r(4) have "m_hSock q = fd" "0 \<le> fd" "fd < 1024" "clean_stream (pending fd v)" "AList.delete fd (fds v) = AList.delete fd (fds w)"
      by (auto simp: perf_result_def)
    then show ?thesis using s fd False by (auto simp: monitor_state_def)
  qed
  moreover have "log_ok e v" using r(4) log by (simp add: perf_result_def log_ok_def)
  ultimately show ?thesis using r(1) q by blast
qed

section \<open>The thread\<close>

lemma monitor_state_table: "fds v = fds w \<Longrightarrow> monitor_state base p v = monitor_state base p w"
  by (simp add: monitor_state_def pending_def)

lemma monitor_state_sleep [simp]:
  "monitor_state base p (sys_sleep n w) = monitor_state base p w"
  by (rule monitor_state_table) simp

lemma report_perf_thread_spec:
  "monitor_state base p w \<Longrightarrow> log_ok e w \<Longrightarrow> clean_peers e \<Longrightarrow> m_connectioncnt p = 0 \<Longrightarrow>
   \<exists>q v. report_perf_thread n e p w = Some (q, v) \<and> monitor_state base q v \<and> log_ok e v \<and>
     perf_args q = [AInt (m_serveridx p), AInt 0]"
proof (induction n arbitrary: p w)
  case 0
  then show ?case by (simp add: perf_args_def)
next
  case (Suc n)
  have "log_ok e (sys_sleep 60 w)" using Suc.prems(2) by (simp add: log_ok_def)
  with SendToPerf_keeps [of base p "sys_sleep 60 w" e] Suc.prems(1,3) obtain q v where
    "report_perf_round e p w = Some (q, v)" "monitor_state base q v" "log_ok e v"
    "m_connectioncnt q = 0" "m_serveridx q = m_serveridx p"
    by (auto simp: report_perf_round_def)
  with Suc.IH [of q v] Suc.prems(3) show ?case by auto
qed

text \<open>What the thread owns: one descriptor at most, besides those of \<open>base\<close>.\<close>

lemma monitor_state_owns:
  assumes "monitor_state [(0, c)] p w"
  shows "open_fds w \<subseteq> {0, m_hSock p} \<and> 0 \<in> open_fds w"
proof (cases "m_hSock p = 0")
  case True
  with assms show ?thesis by (simp add: monitor_state_def keys_def)
next
  case False
  with assms have "AList.delete (m_hSock p) (fds w) = [(0, c)]" by (simp add: monitor_state_def)
  with keys_delete [of "m_hSock p" "fds w"] have "open_fds w - {m_hSock p} = {0}" by (simp add: keys_def)
  then show ?thesis by blast
qed

end
