(* ===== verification/StartUp.thy ===== *)
theory StartUp
  imports MainProg PerfThread
begin

text \<open>
  The configuration file is read back as it is written; what \<open>InitLog\<close>, \<open>ClearOldLog\<close> and
  \<open>CPerfInfo::Init\<close> do to the descriptor table; and the state the threads start from.
\<close>

section \<open>The configuration file\<close>

text \<open>A configuration file for given values, each line with its remark.\<close>

definition conf_ok :: "globals \<Rightarrow> bool" where
  "conf_ok g \<longleftrightarrow> int_range (SERVER_INDEX g) \<and> word_ok 128 (WMI_MANAGER_IP g) \<and>
     int_range (WMI_MANAGER_PORT g) \<and> word_ok 256 (WMI_MANAGER_LOG_PATH g) \<and>
     int_range (PROCESS_POOL_SIZE g) \<and> word_ok 16 (SERVER_TYPE g)"

definition conf_words :: "globals \<Rightarrow> string list" where
  "conf_words g = [fmt_d (SERVER_INDEX g), WMI_MANAGER_IP g, fmt_d (WMI_MANAGER_PORT g),
     WMI_MANAGER_LOG_PATH g, fmt_d (PROCESS_POOL_SIZE g), SERVER_TYPE g]"

definition conf_text :: "globals \<Rightarrow> string list \<Rightarrow> string" where
  "conf_text g remarks = conf_lines (zip (conf_words g) remarks)"

lemma read_conf_text:
  assumes g: "conf_ok g" and r: "remark_ok r0" "remark_ok r1" "remark_ok r2" "remark_ok r3"
    "remark_ok r4" "remark_ok r5"
  shows "read_conf 0 (conf_text g [r0, r1, r2, r3, r4, r5]) globals_static = Some g"
proof -
  have w: "word_ok 200 (fmt_d (SERVER_INDEX g))" "word_ok 128 (WMI_MANAGER_IP g)"
    "word_ok 200 (fmt_d (WMI_MANAGER_PORT g))" "word_ok 256 (WMI_MANAGER_LOG_PATH g)"
    "word_ok 200 (fmt_d (PROCESS_POOL_SIZE g))" "word_ok 16 (SERVER_TYPE g)"
    using g word_number by (auto simp: conf_ok_def)
  have num: "int_range (SERVER_INDEX g)" "int_range (WMI_MANAGER_PORT g)" "int_range (PROCESS_POOL_SIZE g)"
    using g by (simp_all add: conf_ok_def)
  note val = scan_int_number [OF num(1) r(1)] scan_into_word [OF w(2) r(2)] scan_int_number [OF num(2) r(3)]
    scan_into_word [OF w(4) r(4)] scan_int_number [OF num(3) r(5)] scan_into_word [OF w(6) r(6)]
  have "\<forall>l\<in>set (zip (conf_words g) [r0, r1, r2, r3, r4, r5]). line_ok l"
    using w r by (auto simp: conf_words_def intro: line_okI)
  then have "read_conf 0 (conf_text g [r0, r1, r2, r3, r4, r5]) globals_static =
    parse_words conf_line 0 (zip (conf_words g) [r0, r1, r2, r3, r4, r5]) globals_static"
    unfolding read_conf_def conf_text_def by (rule read_conf_lines)
  also have "\<dots> = Some g"
    using val by (simp add: conf_words_def conf_line_def globals_static_def)
  finally show ?thesis .
qed

section \<open>The log directory\<close>

text \<open>The entries whose names fit \<open>char newpath[256]\<close>.\<close>

definition names_fit :: "string \<Rightarrow> dirent list \<Rightarrow> bool" where
  "names_fit path ds \<longleftrightarrow> (\<forall>d\<in>set ds. length path + length (d_name d) < 255)"

definition unlinks :: "string \<Rightarrow> int \<Rightarrow> dirent list \<Rightarrow> event list" where
  "unlinks path limit ds =
     map (\<lambda>d. EvUnlink (path @ ''/'' @ d_name d)) (filter (old_log limit) (examined ds))"

abbreviation dir_fd :: "world \<Rightarrow> int" where
  "dir_fd w \<equiv> lowest_free (map fst (fds w))"

lemma InitLog_spec:
  assumes dir: "e_opendir e (tick w) = Some ds" and fit: "length path < 256" "names_fit path ds"
  shows "\<exists>w1. InitLog e path w = Some w1 \<and> m_strLogPath w1 = path \<and>
    fds w1 = (dir_fd w, \<lparr>up = False, rx = []\<rparr>) # fds w \<and>
    trace w1 = trace w @ unlinks path (e_time e (Suc (tick w)) - 30 * 24 * 3600) ds"
proof -
  let ?w2 = "w\<lparr>m_strLogPath := path, fds := (dir_fd w, \<lparr>up = False, rx = []\<rparr>) # fds w,
    tick := Suc (Suc (tick w))\<rparr>"
  let ?limit = "e_time e (Suc (tick w)) - 30 * 24 * 3600"
  have "\<forall>d\<in>set ds. length (newpath ?w2 d) < 256"
    using fit(2) by (auto simp: names_fit_def newpath_def)
  from purge_dir_spec [OF this, of ?limit] obtain w3 where
    p: "purge_dir ?limit ds ?w2 = Some (examined ds = ds, w3)" "fds w3 = fds ?w2"
       "m_strLogPath w3 = path" "trace w3 = trace w @ unlinks path ?limit ds"
    by (auto simp: newpath_def unlinks_def)
  then show ?thesis using fit(1) dir
    by (simp add: InitLog_def sys_opendir_def sys_time_def Let_def)
qed

lemma InitLog_no_directory:
  assumes "e_opendir e (tick w) = None" "length path < 256"
  shows "\<exists>w1. InitLog e path w = Some w1 \<and> m_strLogPath w1 = path \<and> fds w1 = fds w \<and> trace w1 = trace w"
  using assms by (simp add: InitLog_def sys_opendir_def Let_def)

text \<open>
  \<open>ClearOldLog\<close> closes its directory stream only when every entry could be examined.
\<close>

lemma ClearOldLog_spec:
  assumes dir: "e_opendir e (tick w) = Some ds" and fit: "names_fit (m_strLogPath w) ds"
  shows "\<exists>w1. ClearOldLog e w = Some w1 \<and> m_strLogPath w1 = m_strLogPath w \<and>
    fds w1 = (if examined ds = ds then fds w else (dir_fd w, \<lparr>up = False, rx = []\<rparr>) # fds w) \<and>
    trace w1 = trace w @ unlinks (m_strLogPath w) (e_time e (Suc (tick w)) - 5 * 24 * 3600) ds"
proof -
  let ?w2 = "w\<lparr>fds := (dir_fd w, \<lparr>up = False, rx = []\<rparr>) # fds w, tick := Suc (Suc (tick w))\<rparr>"
  let ?limit = "e_time e (Suc (tick w)) - 5 * 24 * 3600"
  have "\<forall>d\<in>set ds. length (newpath ?w2 d) < 256"
    using fit by (auto simp: names_fit_def newpath_def)
  from purge_dir_spec [OF this, of ?limit] obtain w3 where
    p: "purge_dir ?limit ds ?w2 = Some (examined ds = ds, w3)" "fds w3 = fds ?w2"
       "m_strLogPath w3 = m_strLogPath w" "trace w3 = trace w @ unlinks (m_strLogPath w) ?limit ds"
    by (auto simp: newpath_def unlinks_def)
  have "dir_fd w \<notin> keys (fds w)"
    using lowest_free_fresh [of "map fst (fds w)"] unfolding keys_map_fst .
  then have "AList.delete (dir_fd w) (fds w3) = fds w" using p(2) by simp
  with p dir show ?thesis
    by (simp add: ClearOldLog_def sys_opendir_def sys_time_def sys_closedir_def Let_def)
qed

section \<open>\<open>CPerfInfo::Init\<close>\<close>

lemma SendToRestart_spec:
  assumes log: "log_ok e w" and clean: "clean_stream (pending (m_hSock p) w)"
    and fd: "is_up (m_hSock p) w \<Longrightarrow> 0 \<le> m_hSock p \<and> m_hSock p < 1024"
  shows "\<exists>ok w1. SendToRestart e p w = Some (ok, w1) \<and> io (m_hSock p) w w1 \<and>
    clean_stream (pending (m_hSock p) w1) \<and>
    (ok \<longrightarrow> sent (m_hSock p) w1 =
       sent (m_hSock p) w @ request_frame REQ_SERVER_RESTART [AInt (m_serveridx p)] \<and>
       reports (pending (m_hSock p) w) ERR_NONE)"
proof -
  from exchange_spec [OF log perf_args_ok(2) clean fd] obtain ok ec w1 where
    x: "exchange e REQ_SERVER_RESTART (m_hSock p) [AInt (m_serveridx p)] w = Some (ok, ec, w1)"
       "exchange_result (m_hSock p) (request_frame REQ_SERVER_RESTART [AInt (m_serveridx p)]) w ok ec w1"
    by metis
  then have "io (m_hSock p) w w1" "clean_stream (pending (m_hSock p) w1)"
    using clean clean_stream_suffix by (auto simp: exchange_result_def)
  moreover from this log have "log_ok e w1" by (simp add: io_def log_ok_def)
  ultimately show ?thesis using x
    by (cases "ok \<and> ec = ERR_NONE") (auto simp: SendToRestart_def exchange_result_def)
qed

text \<open>The connection after \<open>Init\<close>: open, or the number of a descriptor that is closed again.\<close>

definition init_result :: "env \<Rightarrow> perfinfo \<Rightarrow> world \<Rightarrow> world \<Rightarrow> bool" where
  "init_result e p w w1 \<longleftrightarrow> m_strLogPath w1 = m_strLogPath w \<and> tick w \<le> tick w1 \<and>
     (fds w1 = fds w \<and> (m_hSock p = - 1 \<or> 0 \<le> m_hSock p \<and> m_hSock p \<notin> open_fds w1) \<and>
        (\<exists>t\<ge>tick w. \<not> e_socket e t \<or> \<not> e_connect e t) \<or>
      session (m_hSock p) w w1 \<and> m_hSock p < 1024 \<and> clean_stream (pending (m_hSock p) w1))"

lemma init_monitor_state:
  assumes "init_result e p w w1" "0 \<in> open_fds w" "\<forall>k\<in>open_fds w. 0 \<le> k" "card (open_fds w) < 1024"
  shows "monitor_state (fds w) p w1 \<and> m_hSock p \<noteq> 0"
  using assms(1) unfolding init_result_def
proof (elim conjE disjE)
  assume closed: "fds w1 = fds w" "m_hSock p = - 1"
  with assms(3) have "- 1 \<notin> keys (fds w)" by fastforce
  then show ?thesis using closed assms
    by (auto simp: monitor_state_def pending_def split: option.splits dest: map_of_keys)
next
  assume closed: "fds w1 = fds w" "m_hSock p \<notin> open_fds w1"
  then show ?thesis using assms
    by (auto simp: monitor_state_def pending_def split: option.splits dest: map_of_keys)
next
  assume "session (m_hSock p) w w1" "m_hSock p < 1024" "clean_stream (pending (m_hSock p) w1)"
  then show ?thesis using assms by (auto simp: monitor_state_def session_def)
qed

lemma Init_spec:
  assumes log: "log_ok e w" and peers: "clean_peers e" and room: "card (open_fds w) < 1024"
    and addr: "scan_into 32 monitor_ip (m_monitor_ip p) = Some a"
    and mutex: "\<forall>t. e_mutex e t = 0"
  shows "\<exists>q w1. Init e idx monitor_ip prt p w = Some (True, q, w1) \<and> init_result e q w w1 \<and>
    m_connectioncnt q = 0 \<and> m_serveridx q = idx \<and> m_monitor_ip q = a \<and> m_monitor_port q = prt"
proof -
  let ?p = "p\<lparr>m_connectioncnt := 0, m_serveridx := idx, m_monitor_ip := a, m_monitor_port := prt\<rparr>"
  let ?w = "w\<lparr>tick := Suc (Suc (tick w))\<rparr>"
  have st: "still w ?w" by (simp add: still_def sent_def)
  have logw: "log_ok e ?w" using log by (simp add: log_ok_def)
  from ConnectToMonitor_spec [OF logw, of ?p] obtain ok fd w1 where
    c: "ConnectToMonitor e ?p ?w = Some (ok, ?p\<lparr>m_hSock := fd\<rparr>, w1)" "still ?w w1"
       "fd = - 1 \<or> 0 \<le> fd \<and> fd \<notin> open_fds ?w \<and> fd \<le> int (card (open_fds ?w))"
       "if ok then connected_to e fd ?w w1
        else fds w1 = fds ?w \<and> (\<exists>t\<ge>tick ?w. \<not> e_socket e t \<or> \<not> e_connect e t)" by blast
  let ?q = "?p\<lparr>m_hSock := fd\<rparr>"
  have init: "Init e idx monitor_ip prt p w =
      (if \<not> ok then Some (True, ?q, w1)
       else do {
         let (peer, w) = sys_peername e w1;
         let r = ?q\<lparr>m_localip := peer\<rparr>;
         (ok, w) \<leftarrow> SendToRestart e r w;
         if ok then Some (True, r, w)
         else do {
           w \<leftarrow> WriteErrorLog e ''SERVER_RESTART REPORT FAILED'' (m_hSock r) L0 w;
           Some (True, r, w) } })"
    using addr mutex c(1) by (simp add: Init_def sys_mutex_init_def)
  show ?thesis
  proof (cases ok)
    case False
    with c(4) obtain t where t: "Suc (Suc (tick w)) \<le> t" "\<not> e_socket e t \<or> \<not> e_connect e t"
      "fds w1 = fds w" by auto
    have "init_result e ?q w w1"
      unfolding init_result_def using c(2,3) st t
      by (auto simp: still_def intro!: exI [of _ t])
    with init False show ?thesis by auto
  next
    case True
    let ?w1 = "w1\<lparr>tick := Suc (tick w1)\<rparr>" and ?r = "?q\<lparr>m_localip := e_peername e (tick w1)\<rparr>"
    from True c have co: "connected_to e fd ?w w1" by simp
    then have s: "session fd w ?w1" "clean_stream (pending fd ?w1)" "0 \<le> fd" "fd < 1024"
      using peers c(3) room
      by (auto simp: connected_to_def session_def clean_peers_def pending_def)
    have log1: "log_ok e ?w1" using session_log_ok [OF s(1) log] .
    from SendToRestart_spec [of e ?w1 ?r] log1 s obtain ok2 w2 where
      r: "SendToRestart e ?r ?w1 = Some (ok2, w2)" "io fd ?w1 w2" "clean_stream (pending fd w2)" by auto
    have s2: "session fd w w2" using session_io [OF s(1) r(2)] .
    let ?w3 = "if ok2 then w2 else err_logged e ''SERVER_RESTART REPORT FAILED'' fd L0 w2"
    have s3: "session fd w ?w3" using s2 session_calm [OF s2 logged_calm(2)] by simp
    have "Init e idx monitor_ip prt p w = Some (True, ?r, ?w3)"
      unfolding init using True r(1) session_log_ok [OF s2 log] by (simp add: sys_peername_def)
    moreover have "init_result e ?r w ?w3"
      using s3 s(4) r(3) unfolding init_result_def by (simp add: session_def)
    ultimately show ?thesis by auto
  qed
qed

section \<open>The metadata\<close>

definition upto_NUL :: "string \<Rightarrow> string" where
  "upto_NUL = takeWhile (\<lambda>c. c \<noteq> NUL)"

text \<open>A key is missing, or its value is a string shorter than the array it goes into.\<close>

definition has_key :: "'v jsoncpp \<Rightarrow> 'v \<Rightarrow> string \<Rightarrow> bool" where
  "has_key J root key \<longleftrightarrow> j_isMember J root key = Some True"

definition meta_ok :: "'v jsoncpp \<Rightarrow> 'v \<Rightarrow> string \<Rightarrow> nat \<Rightarrow> bool" where
  "meta_ok J root key n \<longleftrightarrow> j_isMember J root key \<noteq> None \<and>
     (has_key J root key \<longrightarrow> (\<exists>v s. j_at J root key = Some v \<and> j_asCString J v = Some s \<and>
        length (upto_NUL s) < n))"

lemma read_meta_spec:
  assumes ok: "meta_ok J (m_root q) key n" and log: "log_ok e w" and n: "n \<le> 10 ^ 6"
  shows "\<exists>b w1. read_meta e J key n m q w = Some (b, w1) \<and> calm w w1 \<and>
    (if has_key J (m_root q) key then set_string b else b = None)"
proof (cases "has_key J (m_root q) key")
  case False
  with ok have "j_isMember J (m_root q) key = Some False" by (auto simp: meta_ok_def has_key_def)
  with False show ?thesis by (simp add: read_meta_def ReadValueString_def read_member_def)
next
  case True
  with ok obtain v s where v: "j_at J (m_root q) key = Some v" "j_asCString J v = Some s"
    "length (upto_NUL s) < n" by (auto simp: meta_ok_def)
  let ?s = "upto_NUL s" and ?blk = "upto_NUL s @ replicate (n - length (upto_NUL s)) NUL"
  have no: "NUL \<notin> set ?s" by (simp add: upto_NUL_def takeWhile_no_NUL)
  have "copy_chars ?s (replicate n NUL) = Some ?blk"
    using copy_chars_zeroed [OF no] v(3) by simp
  moreover have "copy_chars s (replicate n NUL) = copy_chars ?s (replicate n NUL)"
    by (simp add: copy_chars_def upto_NUL_def takeWhile_no_NUL)
  ultimately have "ReadValueString J key (replicate n NUL) q = Some (True, ?blk)"
    using True v by (simp add: ReadValueString_def read_member_def j_get_def has_key_def store_string_def)
  moreover have c: "c_str ?blk = Some ?s" using c_str_padded [OF no v(3)] .
  ultimately have "read_meta e J key n m q w = Some (Some ?blk, logged e m (- 1) (L3 ?s) w)"
    using log by (simp add: read_meta_def)
  moreover have "set_string (Some ?blk)"
    using c v(3) n by (simp add: set_string_def field_len_def str_arg_def)
  ultimately show ?thesis using True logged_calm(1) [of w] by auto
qed

text \<open>The document the metadata service sends, parsed.\<close>

definition doc_root :: "'v jsoncpp \<Rightarrow> string \<Rightarrow> 'v" where
  "doc_root J document = snd (j_parse J (upto_NUL document) (j_null J))"

definition doc_fits :: "'v jsoncpp \<Rightarrow> string \<Rightarrow> bool" where
  "doc_fits J document \<longleftrightarrow> meta_ok J (doc_root J document) ''uuid'' 128 \<and>
     meta_ok J (doc_root J document) ''availability_zone'' 32 \<and>
     meta_ok J (doc_root J document) ''hostname'' 32 \<and> meta_ok J (doc_root J document) ''name'' 32"

definition doc_complete :: "'v jsoncpp \<Rightarrow> string \<Rightarrow> bool" where
  "doc_complete J document \<longleftrightarrow>
     (\<forall>key\<in>{''uuid'', ''availability_zone'', ''hostname'', ''name''}. has_key J (doc_root J document) key)"

definition answer :: "env \<Rightarrow> nat \<Rightarrow> string \<Rightarrow> string" where
  "answer e t url = concat (curl_body (e_curl e t url))"

lemma c_str_upto: "c_str (s @ [NUL]) = Some (upto_NUL s)"
  by (induction s) (auto simp: c_str_def upto_NUL_def)

lemma parse_doc:
  "\<exists>q b qq. InitData (d @ [NUL]) 0 (CJsonParser_new J) = Some q \<and> ReadParse J q = (b, qq) \<and>
     m_root qq = doc_root J d"
  by (cases "j_parse J (upto_NUL d) (j_null J)")
    (simp add: InitData_def c_str_upto CJsonParser_new_def ReadParse_def doc_root_def)

lemma get_answer:
  assumes "web_ok e" "url_arg url = url"
  shows "\<exists>r w1. get e url header w = Some (r, w1) \<and> fds w1 = fds w \<and> still w w1 \<and>
    res_body r = answer e (tick w) url"
  using assms
  by (auto simp: get_def Let_def deliver_ok curl_ok_def no_response_def web_ok_def still_def answer_def
      emit_def sent_def written_def)

lemma still_calm_trans: "still w w1 \<Longrightarrow> calm w1 w2 \<Longrightarrow> still w w2"
  using still_trans calm_still by blast

text \<open>The service knows everything about the machine.\<close>

definition identified :: "env \<Rightarrow> 'v jsoncpp \<Rightarrow> bool" where
  "identified e J \<longleftrightarrow> (\<forall>t. doc_complete J (answer e t metadata_url) \<and> answer e t ip_url \<noteq> [])"

lemma make_conninfo_spec:
  assumes log: "log_ok e w" and web: "web_ok e"
    and fits: "doc_fits J (answer e (tick w) metadata_url)"
  shows "\<exists>c w1. make_conninfo e J g w = Some (c, w1) \<and> fds w1 = fds w \<and> still w w1 \<and>
    ip c = WMI_MANAGER_IP g \<and> port c = WMI_MANAGER_PORT g \<and>
    server_type c = (if SERVER_TYPE g = ''VM'' then 1 else 0) \<and>
    (identified e J \<longrightarrow> conninfo_ok c)"
proof -
  let ?doc = "answer e (tick w) metadata_url" and ?root = "doc_root J (answer e (tick w) metadata_url)"
  have "url_arg metadata_url = metadata_url" "url_arg ip_url = ip_url"
    by (simp_all add: url_arg_def metadata_url_def ip_url_def)
  note url = this
  from get_answer [OF web url(1)] obtain r w1 where
    g1: "get e metadata_url [] w = Some (r, w1)" "fds w1 = fds w" "still w w1" "res_body r = ?doc" by blast
  obtain q b qq where q: "InitData (?doc @ [NUL]) 0 (CJsonParser_new J) = Some q"
      "ReadParse J q = (b, qq)" "m_root qq = ?root"
    using parse_doc [of ?doc J] by blast
  have big: "(128::nat) \<le> 10 ^ 6" "(32::nat) \<le> 10 ^ 6" by simp_all
  have f: "meta_ok J (m_root qq) ''uuid'' 128" "meta_ok J (m_root qq) ''availability_zone'' 32"
    "meta_ok J (m_root qq) ''hostname'' 32" "meta_ok J (m_root qq) ''name'' 32"
    using fits q(3) by (simp_all add: doc_fits_def)
  have log1: "log_ok e w1" using still_log_ok [OF g1(3) log] .
  from read_meta_spec [OF f(1) log1 big(1), of "''Meta UUID : ''"] obtain b1 v1 where
    m1: "read_meta e J ''uuid'' 128 ''Meta UUID : '' qq w1 = Some (b1, v1)" "calm w1 v1"
        "if has_key J ?root ''uuid'' then set_string b1 else b1 = None" unfolding q(3) by blast
  note s1 = still_calm_trans [OF g1(3) m1(2)]
  from read_meta_spec [OF f(2) still_log_ok [OF s1 log] big(2), of "''Meta Availability_zone''"] obtain b2 v2 where
    m2: "read_meta e J ''availability_zone'' 32 ''Meta Availability_zone'' qq v1 = Some (b2, v2)" "calm v1 v2"
        "if has_key J ?root ''availability_zone'' then set_string b2 else b2 = None" unfolding q(3) by blast
  note s2 = still_calm_trans [OF s1 m2(2)]
  from read_meta_spec [OF f(3) still_log_ok [OF s2 log] big(2), of "''Meta Hostname''"] obtain b3 v3 where
    m3: "read_meta e J ''hostname'' 32 ''Meta Hostname'' qq v2 = Some (b3, v3)" "calm v2 v3"
        "if has_key J ?root ''hostname'' then set_string b3 else b3 = None" unfolding q(3) by blast
  note s3 = still_calm_trans [OF s2 m3(2)]
  from read_meta_spec [OF f(4) still_log_ok [OF s3 log] big(2), of "''VM Name''"] obtain b4 v4 where
    m4: "read_meta e J ''name'' 32 ''VM Name'' qq v3 = Some (b4, v4)" "calm v3 v4"
        "if has_key J ?root ''name'' then set_string b4 else b4 = None" unfolding q(3) by blast
  note s4 = still_calm_trans [OF s3 m4(2)]
  have f4: "fds v4 = fds w" using g1(2) m1(2) m2(2) m3(2) m4(2) by (simp add: calm_def)
  from get_answer [OF web url(2)] obtain r2 w2 where
    g2: "get e ip_url [] v4 = Some (r2, w2)" "fds w2 = fds v4" "still v4 w2"
        "res_body r2 = answer e (tick v4) ip_url" by blast
  have short: "length (res_body r2) < 64" using web g2(4) by (simp add: web_ok_def answer_def)
  have s5: "still w w2" using still_trans [OF s4 g2(3)] .
  let ?t = "upto_NUL (res_body r2)"
  let ?w3 = "if res_body r2 \<noteq> [] then logged e ''myip : '' (- 1) (L3 ?t) w2 else w2"
  let ?w4 = "logged e ''MetadataURL : '' (- 1) (L4 metadata_url ?t) ?w3"
  let ?c = "\<lparr>ip = WMI_MANAGER_IP g, port = WMI_MANAGER_PORT g,
    server_type = (if SERVER_TYPE g = ''VM'' then 1 else 0),
    external_ip = (if res_body r2 \<noteq> [] then Some (res_body r2 @ [NUL]) else None),
    availability_zone = b2, host = b3, metaname = b4, uuid = b1\<rparr>"
  have logs: "log_ok e w2" "log_ok e ?w3" using still_log_ok [OF s5 log] by simp_all
  have "make_conninfo e J g w = Some (?c, ?w4)"
    unfolding make_conninfo_def
    using g1(1) g1(4) q(1,2) m1(1) m2(1) m3(1) m4(1) g2(1) logs
    by (simp add: c_str_upto)
  moreover have "fds ?w4 = fds w" "still w ?w4" using f4 g2(2) s5 by simp_all
  moreover have "identified e J \<longrightarrow> conninfo_ok ?c"
  proof
    assume "identified e J"
    then have "doc_complete J ?doc" "res_body r2 \<noteq> []" using g2(4) by (auto simp: identified_def)
    then show "conninfo_ok ?c"
      using m1(3) m2(3) m3(3) m4(3) short length_takeWhile_le [of "\<lambda>c. c \<noteq> NUL" "res_body r2"]
      by (auto simp: conninfo_ok_def doc_complete_def set_string_def [of "Some _"] field_len_def
        str_arg_def c_str_upto upto_NUL_def)
  qed
  ultimately show ?thesis by (intro exI [of _ ?c] exI [of _ ?w4]) simp
qed

section \<open>The start-up sequence\<close>

lemma close_std_fds:
  "open_fds (close_std e w) = open_fds w - {0, 1, 2}" "m_strLogPath (close_std e w) = m_strLogPath w"
proof -
  obtain r0 w0 where c0: "sys_close e 0 w = (r0, w0)" by (metis prod.exhaust)
  obtain r1 w1 where c1: "sys_close e 1 w0 = (r1, w1)" by (metis prod.exhaust)
  obtain r2 w2 where c2: "sys_close e 2 w1 = (r2, w2)" by (metis prod.exhaust)
  have "close_std e w = w2" using c0 c1 c2 by (simp add: close_std_def)
  with sys_close_fds [OF c0] sys_close_fds [OF c1] sys_close_fds [OF c2]
  show "open_fds (close_std e w) = open_fds w - {0, 1, 2}" "m_strLogPath (close_std e w) = m_strLogPath w"
    by auto
qed

lemma keys_Nil_iff: "keys al = {} \<longleftrightarrow> al = []"
  by (simp add: keys_def)

lemma start_pool_ok:
  "\<forall>t. e_mutex e t = 0 \<Longrightarrow> \<exists>w1. start_pool e k w = Some (True, w1) \<and> fds w1 = fds w \<and> m_strLogPath w1 = m_strLogPath w"
proof (induction k arbitrary: w)
  case 0
  then show ?case by simp
next
  case (Suc k)
  from Suc.IH [OF Suc.prems, of "w\<lparr>tick := Suc (tick w)\<rparr>"] Suc.prems show ?case
    by (auto simp: sys_code_def)
qed

text \<open>What the machine must provide for the program to come up.\<close>

definition startup_ok :: "env \<Rightarrow> 'v jsoncpp \<Rightarrow> globals \<Rightarrow> bool" where
  "startup_ok e J g \<longleftrightarrow> (\<forall>t. sane_tm (e_tm e t)) \<and> (\<forall>t. e_mutex e t = 0) \<and> clean_peers e \<and> web_ok e \<and>
     (\<forall>t. doc_fits J (answer e t metadata_url)) \<and> length (WMI_MANAGER_LOG_PATH g) \<le> 237 \<and>
     scan_into 32 (WMI_MANAGER_IP g) [] \<noteq> None"

lemma main_start_from:
  assumes conf: "read_conf 0 content globals_static = Some g" and ok: "startup_ok e J g"
    and init: "InitLog e (WMI_MANAGER_LOG_PATH g) (close_std e w) = Some w2"
      "m_strLogPath w2 = WMI_MANAGER_LOG_PATH g" "card (open_fds w2) < 1024"
  shows "\<exists>p c w3 w4. main_start e J (Some content) w = Some (Running (g, p, c), w4) \<and>
    Init e (SERVER_INDEX g) (WMI_MANAGER_IP g) (WMI_MANAGER_PORT g) perf_static w2 = Some (True, p, w3) \<and>
    init_result e p w2 w3 \<and> m_connectioncnt p = 0 \<and> m_serveridx p = SERVER_INDEX g \<and> fds w4 = fds w3 \<and> m_strLogPath w4 = WMI_MANAGER_LOG_PATH g \<and>
    ip c = WMI_MANAGER_IP g \<and> port c = WMI_MANAGER_PORT g \<and> (identified e J \<longrightarrow> conninfo_ok c)"
proof -
  from ok have env: "\<forall>t. e_mutex e t = 0" "clean_peers e" "web_ok e"
    "\<And>t. doc_fits J (answer e t metadata_url)"
    by (auto simp: startup_ok_def)
  have log: "log_ok e v" if "m_strLogPath v = WMI_MANAGER_LOG_PATH g" for v
    using ok that by (simp add: log_ok_def startup_ok_def)
  from ok obtain a where "scan_into 32 (WMI_MANAGER_IP g) (m_monitor_ip perf_static) = Some a"
    by (auto simp: startup_ok_def perf_static_def)
  from Init_spec [OF log [OF init(2)] env(2) init(3) this env(1), of "SERVER_INDEX g" "WMI_MANAGER_PORT g"]
  obtain p w3 where p: "Init e (SERVER_INDEX g) (WMI_MANAGER_IP g) (WMI_MANAGER_PORT g) perf_static w2 =
      Some (True, p, w3)" "init_result e p w2 w3" "m_connectioncnt p = 0" "m_serveridx p = SERVER_INDEX g" by blast
  have path3: "m_strLogPath w3 = WMI_MANAGER_LOG_PATH g" using p(2) init(2) by (simp add: init_result_def)
  let ?w3 = "w3\<lparr>tick := Suc (tick w3)\<rparr>"
  from make_conninfo_spec [OF log env(3,4), of ?w3 g] path3 obtain c w5 where
    c: "make_conninfo e J g ?w3 = Some (c, w5)" "fds w5 = fds w3" "still ?w3 w5"
       "ip c = WMI_MANAGER_IP g" "port c = WMI_MANAGER_PORT g" "identified e J \<longrightarrow> conninfo_ok c" by auto
  let ?w5 = "w5\<lparr>tick := Suc (tick w5)\<rparr>"
  from start_pool_ok [OF env(1), of "nat (PROCESS_POOL_SIZE g)" ?w5] obtain w6 where
    s: "start_pool e (nat (PROCESS_POOL_SIZE g)) ?w5 = Some (True, w6)" "fds w6 = fds w5"
       "m_strLogPath w6 = m_strLogPath w5" by auto
  have "main_start e J (Some content) w = Some (Running (g, p, c), w6\<lparr>tick := Suc (tick w6)\<rparr>)"
    using conf init(1) p(1) c(1) s(1) env(1) by (simp add: main_start_def sys_code_def)
  with p c s path3 show ?thesis
    by (intro exI [of _ p] exI [of _ c] exI [of _ w3] exI [of _ "w6\<lparr>tick := Suc (tick w6)\<rparr>"])
      (auto simp: still_def)
qed

text \<open>With a log directory: the directory stream that stays open has descriptor 0.\<close>

lemma main_start_directory:
  assumes conf: "read_conf 0 content globals_static = Some g" and ok: "startup_ok e J g"
    and fds: "open_fds w \<subseteq> {0, 1, 2}"
    and dir: "e_opendir e (tick (close_std e w)) = Some ds" "names_fit (WMI_MANAGER_LOG_PATH g) ds"
  shows "\<exists>p c w1. main_start e J (Some content) w = Some (Running (g, p, c), w1) \<and>
    m_hSock p \<noteq> 0 \<and> monitor_state [(0, \<lparr>up = False, rx = []\<rparr>)] p w1 \<and>
    m_connectioncnt p = 0 \<and> m_serveridx p = SERVER_INDEX g \<and> m_strLogPath w1 = WMI_MANAGER_LOG_PATH g \<and>
    ip c = WMI_MANAGER_IP g \<and> port c = WMI_MANAGER_PORT g \<and> (identified e J \<longrightarrow> conninfo_ok c)"
proof -
  let ?w = "close_std e w"
  have empty: "fds ?w = []" using close_std_fds(1) [of e w] fds by (auto simp: keys_Nil_iff [symmetric])
  have "length (WMI_MANAGER_LOG_PATH g) < 256" using ok by (simp add: startup_ok_def)
  from InitLog_spec [OF dir(1) this dir(2)] empty obtain w2 where
    i: "InitLog e (WMI_MANAGER_LOG_PATH g) ?w = Some w2" "m_strLogPath w2 = WMI_MANAGER_LOG_PATH g"
       "fds w2 = [(0, \<lparr>up = False, rx = []\<rparr>)]"
    by (auto simp: lowest_free_def)
  from main_start_from [OF conf ok i(1,2)] i(3) obtain p c w3 w4 where
    m: "main_start e J (Some content) w = Some (Running (g, p, c), w4)" "init_result e p w2 w3"
       "m_connectioncnt p = 0" "m_serveridx p = SERVER_INDEX g" "fds w4 = fds w3" "m_strLogPath w4 = WMI_MANAGER_LOG_PATH g"
       "ip c = WMI_MANAGER_IP g" "port c = WMI_MANAGER_PORT g" "identified e J \<longrightarrow> conninfo_ok c"
    by auto
  from init_monitor_state [OF m(2)] i(3)
  have "monitor_state [(0, \<lparr>up = False, rx = []\<rparr>)] p w3 \<and> m_hSock p \<noteq> 0" by (simp add: keys_def)
  then have "monitor_state [(0, \<lparr>up = False, rx = []\<rparr>)] p w4 \<and> m_hSock p \<noteq> 0"
    using monitor_state_table [OF m(5)] by simp
  with m show ?thesis by auto
qed

text \<open>
  Without one the first descriptor is that of the connection to the monitor, which then looks
  like no connection at all.
\<close>

lemma ConnectToMonitor_first:
  assumes "fds w = []" "log_ok e w" "friendly e (tick w)"
  shows "\<exists>w1. ConnectToMonitor e p w = Some (True, p\<lparr>m_hSock := 0\<rparr>, w1)"
proof -
  have s: "sys_socket e w = (0, emit (EvSocket 0) (w\<lparr>fds := [(0, \<lparr>up = False, rx = []\<rparr>)]\<rparr>))"
    using assms(1,3) by (simp add: sys_socket_def friendly_def lowest_free_def)
  obtain r w2 where c: "sys_connect e 0 (m_monitor_ip p) (word_of_int (m_monitor_port p))
      (emit (EvSocket 0) (w\<lparr>fds := [(0, \<lparr>up = False, rx = []\<rparr>)]\<rparr>)) = (r, w2)" by (metis prod.exhaust)
  have "e_connect e (Suc (tick w))" using assms(3) by (simp add: friendly_def)
  with c have r: "r = 0" "m_strLogPath w2 = m_strLogPath w" by (auto simp: sys_connect_def emit_def)
  then have "log_ok e (set_options 0 w2)" using assms(2) by (simp add: log_ok_def)
  with s c r(1) show ?thesis by (simp add: ConnectToMonitor_def)
qed

lemma Init_socket:
  assumes "Init e idx monitor_ip prt p w = Some (True, q, w1)" "\<forall>t. e_mutex e t = 0"
    and c: "\<And>p v. tick v = tick w + 2 \<Longrightarrow> fds v = fds w \<Longrightarrow> m_strLogPath v = m_strLogPath w \<Longrightarrow>
      \<exists>v1. ConnectToMonitor e p v = Some (True, p\<lparr>m_hSock := f\<rparr>, v1)"
  shows "m_hSock q = f"
proof -
  obtain a where a: "scan_into 32 monitor_ip (m_monitor_ip p) = Some a"
    using assms(1) by (auto simp: Init_def bind_eq_Some_conv)
  let ?p = "p\<lparr>m_connectioncnt := 0, m_serveridx := idx, m_monitor_ip := a, m_monitor_port := prt\<rparr>"
  let ?w = "w\<lparr>tick := Suc (Suc (tick w))\<rparr>"
  from c [of ?w ?p] obtain v1 where v: "ConnectToMonitor e ?p ?w = Some (True, ?p\<lparr>m_hSock := f\<rparr>, v1)"
    by auto
  from assms(1) a v assms(2) show ?thesis
    by (auto simp: Init_def sys_mutex_init_def sys_peername_def Let_def bind_eq_Some_conv split: if_splits)
qed

lemma main_start_no_directory:
  assumes conf: "read_conf 0 content globals_static = Some g" and ok: "startup_ok e J g"
    and fds: "open_fds w \<subseteq> {0, 1, 2}"
    and dir: "e_opendir e (tick (close_std e w)) = None" and fr: "friendly e 0"
  shows "\<exists>p c w1. main_start e J (Some content) w = Some (Running (g, p, c), w1) \<and>
    0 \<in> open_fds w1 \<and> m_hSock p = 0"
proof -
  let ?w = "close_std e w"
  have empty: "fds ?w = []" using close_std_fds(1) [of e w] fds by (auto simp: keys_Nil_iff [symmetric])
  have "length (WMI_MANAGER_LOG_PATH g) < 256" using ok by (simp add: startup_ok_def)
  from InitLog_no_directory [OF dir(1) this] empty obtain w2 where
    i: "InitLog e (WMI_MANAGER_LOG_PATH g) ?w = Some w2" "m_strLogPath w2 = WMI_MANAGER_LOG_PATH g"
       "fds w2 = []" by auto
  from main_start_from [OF conf ok i(1,2)] i(3) obtain p c w3 w4 where
    m: "main_start e J (Some content) w = Some (Running (g, p, c), w4)" "init_result e p w2 w3"
       "fds w4 = fds w3"
       "Init e (SERVER_INDEX g) (WMI_MANAGER_IP g) (WMI_MANAGER_PORT g) perf_static w2 = Some (True, p, w3)"
    by auto
  have s: "session (m_hSock p) w2 w3" using m(2) fr by (auto simp: init_result_def friendly_def)
  have mutex: "\<forall>t. e_mutex e t = 0" and tms: "\<forall>t. sane_tm (e_tm e t)" using ok by (auto simp: startup_ok_def)
  have "\<exists>v1. ConnectToMonitor e q v = Some (True, q\<lparr>m_hSock := 0\<rparr>, v1)"
    if "fds v = fds w2" "m_strLogPath v = m_strLogPath w2" for q v
  proof (rule ConnectToMonitor_first)
    show "fds v = []" using that i(3) by simp
    show "log_ok e v" using that i(2) ok tms by (simp add: log_ok_def startup_ok_def)
    show "friendly e (tick v)" using friendly_later [OF fr] by simp
  qed
  then have "m_hSock p = 0" using Init_socket [OF m(4) mutex] by blast
  with m s show ?thesis by (auto simp: session_def)
qed

end
