(* ===== verification/Sample.thy ===== *)
theory Sample
  imports StartUp
begin

text \<open>
  A concrete machine: a network on which everything works, a peer that answers every
  connection with one frame, and a world with a log directory stream on descriptor 0. The
  witnesses of the properties are evaluated on it.
\<close>

section \<open>The machine\<close>

definition noon :: tm where
  "noon = \<lparr>tm_year = 117, tm_mon = 8, tm_mday = 14, tm_hour = 12, tm_min = 30, tm_sec = 5\<rparr>"

definition reply_frame :: "byte list" where
  "reply_frame = good_frame 2 4 0 (be32 0)"

definition sample_run :: curl_run where
  "sample_run = \<lparr>curl_init = True, curl_reads = [2, 100], curl_body = [''10.0.'', ''0.7''], curl_res = 0,
     curl_code = 200\<rparr>"

definition sample_ifs :: "ifaddr list" where
  "sample_ifs = [\<lparr>ifa_name = ''lo'', ifa_addr = Some (2, ''127.0.0.1'')\<rparr>,
     \<lparr>ifa_name = ''eth0'', ifa_addr = Some (2, ''10.0.0.7'')\<rparr>]"

definition sample_dir :: "dirent list" where
  "sample_dir = [\<lparr>d_name = ''.'', d_stat = Some (False, 0)\<rparr>,
     \<lparr>d_name = ''INFO_old'', d_stat = Some (True, 5)\<rparr>,
     \<lparr>d_name = ''INFO_new'', d_stat = Some (True, 1499999999)\<rparr>]"

definition sample_env :: env where
  "sample_env = \<lparr>e_socket = (\<lambda>_. True), e_connect = (\<lambda>_. True), e_peer = (\<lambda>_. reply_frame),
     e_read = (\<lambda>_. IoReady 4096), e_write = (\<lambda>_. IoReady 4096), e_select = (\<lambda>_. 1),
     e_close = (\<lambda>_. True), e_fopen = (\<lambda>_. True), e_time = (\<lambda>_. 1500000000), e_tm = (\<lambda>_. noon),
     e_usec = (\<lambda>_. 0), e_mutex = (\<lambda>_. 0), e_peername = (\<lambda>_. ''13.125.108.50''),
     e_ifaddrs = (\<lambda>_. Some sample_ifs), e_opendir = (\<lambda>_. Some sample_dir),
     e_curl = (\<lambda>_ _. sample_run)\<rparr>"

text \<open>The same machine with every connection refused, and with no log directory.\<close>

definition refusing_env :: env where
  "refusing_env = sample_env\<lparr>e_connect := (\<lambda>_. False)\<rparr>"

definition bare_env :: env where
  "bare_env = sample_env\<lparr>e_opendir := (\<lambda>_. None)\<rparr>"

definition sample_world :: world where
  "sample_world = \<lparr>tick = 0, fds = [(0, \<lparr>up = False, rx = []\<rparr>)], files = (\<lambda>_. []),
     m_strLogPath = ''/log/'', trace = []\<rparr>"

text \<open>Descriptor 5 connected, with some bytes to read.\<close>

definition open_world :: "byte list \<Rightarrow> world" where
  "open_world bs = sample_world\<lparr>fds := [(5, \<lparr>up = True, rx = bs\<rparr>)]\<rparr>"

definition sample_info :: conninfo where
  "sample_info = \<lparr>ip = ''13.125.108.50'', port = 32560, server_type = 1,
     external_ip = Some (terminated ''10.0.0.7''), availability_zone = Some (terminated ''nova''),
     host = Some (terminated ''vm1''), metaname = Some (terminated ''vm1''),
     uuid = Some (terminated ''83679162'')\<rparr>"

section \<open>What holds of it\<close>

lemma sample_fields [simp]:
  "e_socket sample_env t" "e_connect sample_env t" "e_peer sample_env t = reply_frame"
  "e_read sample_env t = IoReady 4096" "e_write sample_env t = IoReady 4096" "e_select sample_env t = 1"
  "e_tm sample_env t = noon" "e_mutex sample_env t = 0" "e_ifaddrs sample_env t = Some sample_ifs"
  "e_opendir sample_env t = Some sample_dir" "e_curl sample_env t u = sample_run"
  "e_time sample_env t = 1500000000" "e_fopen sample_env t" "e_usec sample_env t = 0"
  by (simp_all add: sample_env_def)

lemma refusing_fields [simp]:
  "e_socket refusing_env t" "\<not> e_connect refusing_env t" "e_peer refusing_env t = reply_frame"
  "e_tm refusing_env t = noon" "e_mutex refusing_env t = 0" "e_ifaddrs refusing_env t = Some sample_ifs"
  by (simp_all add: refusing_env_def)

lemma bare_fields [simp]:
  "e_socket bare_env t" "e_connect bare_env t" "e_peer bare_env t = reply_frame"
  "e_read bare_env t = IoReady 4096" "e_write bare_env t = IoReady 4096" "e_tm bare_env t = noon"
  "e_mutex bare_env t = 0" "e_opendir bare_env t = None" "e_curl bare_env t u = sample_run"
  by (simp_all add: bare_env_def)

lemma sane_noon [simp]: "sane_tm noon"
  by (simp add: sane_tm_def noon_def)

lemma noon_hour [simp]: "tm_hour noon = 12"
  by (simp add: noon_def)

lemma sample_log_ok [simp]:
  "log_ok sample_env sample_world" "log_ok refusing_env sample_world"
  "log_ok sample_env (open_world bs)" "log_ok refusing_env (open_world bs)"
  by (simp_all add: log_ok_def sample_world_def open_world_def)

lemma sample_world_fields [simp]:
  "tick sample_world = 0" "fds sample_world = [(0, \<lparr>up = False, rx = []\<rparr>)]"
  "files sample_world = (\<lambda>_. [])" "m_strLogPath sample_world = ''/log/''" "trace sample_world = []"
  "tick (open_world bs) = 0" "fds (open_world bs) = [(5, \<lparr>up = True, rx = bs\<rparr>)]"
  "m_strLogPath (open_world bs) = ''/log/''" "trace (open_world bs) = []"
  by (simp_all add: sample_world_def open_world_def)

lemma open_world_conn [simp]:
  "pending 5 (open_world bs) = bs" "is_up 5 (open_world bs)" "sent fd (open_world bs) = []"
  "sent fd sample_world = []"
  by (simp_all add: pending_def is_up_def sent_def)

lemma sample_live [simp]: "can_read sample_env 5 (open_world bs)" "can_write sample_env 5 (open_world bs)"
  by (auto simp: can_read_def can_write_def)

lemma reply_bytes: "reply_frame = [255, 255, 1, 0, 0, 0, 14, 2, 4, 0, 0, 0, 0, 0]"
  by code_simp

text \<open>The stream conditions, as tests at every position.\<close>

lemma clean_stream_iff:
  "clean_stream bs \<longleftrightarrow> (\<forall>i\<in>set [0..<Suc (length bs - 10)].
     let h = take 10 (drop i bs) in good_version h \<longrightarrow> 10 - 2 ^ 31 \<le> frame_len h)"
proof
  assume c: "clean_stream bs"
  show "\<forall>i\<in>set [0..<Suc (length bs - 10)].
     let h = take 10 (drop i bs) in good_version h \<longrightarrow> 10 - 2 ^ 31 \<le> frame_len h"
  proof
    fix i
    have "bs = take i bs @ take 10 (drop i bs) @ drop 10 (drop i bs)"
      by (simp only: append_take_drop_id)
    with c show "let h = take 10 (drop i bs) in good_version h \<longrightarrow> 10 - 2 ^ 31 \<le> frame_len h"
      unfolding clean_stream_def Let_def by blast
  qed
next
  assume all: "\<forall>i\<in>set [0..<Suc (length bs - 10)].
     let h = take 10 (drop i bs) in good_version h \<longrightarrow> 10 - 2 ^ 31 \<le> frame_len h"
  show "clean_stream bs"
    unfolding clean_stream_def
  proof (intro allI impI)
    fix pre h rest
    assume bs: "bs = pre @ h @ rest" and h: "good_version h"
    then have l: "length h = 10" by (simp add: good_version_def)
    then have "length pre \<in> set [0..<Suc (length bs - 10)]" using bs by (simp del: upt_Suc)
    moreover have "take 10 (drop (length pre) bs) = h" using bs l by simp
    ultimately show "10 - 2 ^ 31 \<le> frame_len h" using all h unfolding Let_def by metis
  qed
qed

lemma reply_clean: "clean_stream reply_frame"
  unfolding clean_stream_iff by code_simp

lemma sample_examined: "examined sample_dir = sample_dir"
  by code_simp

section \<open>A small JSON library\<close>

datatype jv = JNull | JObj "(string \<times> jv) list" | JStr string | JInt int | JBool bool | JDouble "64 word"
  | JArr "jv list"

fun jv_isMember :: "jv \<Rightarrow> string \<Rightarrow> bool option" where
  "jv_isMember JNull k = Some False"
| "jv_isMember (JObj ms) k = Some (map_of ms k \<noteq> None)"
| "jv_isMember _ k = None"

fun jv_at :: "jv \<Rightarrow> string \<Rightarrow> jv option" where
  "jv_at JNull k = Some JNull"
| "jv_at (JObj ms) k = Some (case map_of ms k of None \<Rightarrow> JNull | Some v \<Rightarrow> v)"
| "jv_at _ k = None"

fun jv_set :: "jv \<Rightarrow> string \<Rightarrow> jv \<Rightarrow> jv option" where
  "jv_set JNull k v = Some (JObj [(k, v)])"
| "jv_set (JObj ms) k v = Some (JObj (AList.update k v ms))"
| "jv_set _ k v = None"

definition jv_is_object :: "jv \<Rightarrow> bool" where
  "jv_is_object v \<longleftrightarrow> (case v of JNull \<Rightarrow> True | JObj _ \<Rightarrow> True | _ \<Rightarrow> False)"

text \<open>Its parser takes every document for the description of a machine whose values are the text.\<close>

definition sample_json :: "jv jsoncpp" where
  "sample_json = \<lparr>j_null = JNull, 
     j_parse = (\<lambda>doc root. (True, JObj [(''uuid'', JStr doc), (''availability_zone'', JStr doc),
       (''hostname'', JStr doc), (''name'', JStr doc)])),
     j_isMember = jv_isMember, j_at = jv_at, j_set = jv_set,
     j_size = (\<lambda>v. case v of JArr vs \<Rightarrow> length vs | _ \<Rightarrow> 0),
     j_elem = (\<lambda>v i. case v of JArr vs \<Rightarrow> if i < length vs then Some (vs ! i) else None | _ \<Rightarrow> None),
     j_append = (\<lambda>v x. case v of JArr vs \<Rightarrow> Some (JArr (vs @ [x])) | JNull \<Rightarrow> Some (JArr [x]) | _ \<Rightarrow> None),
     j_of_string = JStr, j_of_int = JInt, j_of_double = JDouble, j_of_bool = JBool,
     j_asCString = (\<lambda>v. case v of JStr s \<Rightarrow> Some s | _ \<Rightarrow> None),
     j_asInt = (\<lambda>v. case v of JInt n \<Rightarrow> Some n | _ \<Rightarrow> None),
     j_asDouble = (\<lambda>v. case v of JDouble d \<Rightarrow> Some d | _ \<Rightarrow> None),
     j_asBool = (\<lambda>v. case v of JBool b \<Rightarrow> Some b | _ \<Rightarrow> None), j_styled = (\<lambda>_. [])\<rparr>"

lemma jv_set_law:
  assumes "jv_is_object v"
  shows "\<exists>u. jv_set v k x = Some u \<and> jv_is_object u \<and> jv_isMember u k = Some True \<and> jv_at u k = Some x \<and>
    (\<forall>k'. k' \<noteq> k \<longrightarrow> jv_isMember u k' = jv_isMember v k' \<and>
      (jv_isMember v k' = Some True \<longrightarrow> jv_at u k' = jv_at v k'))"
  using assms by (cases v) (auto simp: jv_is_object_def update_conv')

lemma sample_json_laws: "json_laws sample_json jv_is_object"
proof -
  have "jv_is_object JNull" by (simp add: jv_is_object_def)
  moreover have "\<forall>v k. jv_is_object v \<longrightarrow> jv_isMember v k \<noteq> None"
    by (auto simp: jv_is_object_def split: jv.splits)
  ultimately show ?thesis
    unfolding json_laws_def sample_json_def using jv_set_law by simp
qed

end
