(* ===== verification/PacketSpec.thy ===== *)
theory PacketSpec
  imports Sample
begin

text \<open>
  The properties of \<open>CPacket\<close>: what its operations promise to the code that exchanges messages
  with the manager, each with an instance on the sample machine.
\<close>

section \<open>Messages from end to end\<close>


definition sample_fields_list :: "field list" where
  "sample_fields_list = [FInt (- 7), FStr 64 (terminated ''vm1''), FBig 5000000000, FTiny 3]"


section \<open>Receiving\<close>

text \<open>C13: \<open>ReceivePacket\<close> on any stream and under any behaviour of \<open>read\<close>: it returns, unless the
  stream starts with a header whose length field lies in the ten values whose subtraction
  overflows an \<open>int\<close>. It writes nothing and touches no other descriptor. When it returns \<open>TRUE\<close>, what
  it has taken from the stream is one well-formed frame and the packet holds its content.\<close>

theorem ReceivePacket_any_stream:
  assumes "log_ok e w"
  shows "(case ReceivePacket e p w of
      None \<Rightarrow> (\<exists>h rest. pending (m_nClientSockfd p) w = h @ rest \<and> good_header h \<and> frame_len h < 10 - 2 ^ 31)
    | Some (ok, q, w1) \<Rightarrow> quiet (m_nClientSockfd p) w w1 \<and>
        (ok \<longrightarrow> (\<exists>cat cmd rsv dat. int (length dat) + 10 \<le> INT_MAX \<and>
           pending (m_nClientSockfd p) w = good_frame cat cmd rsv dat @ pending (m_nClientSockfd p) w1 \<and>
           q = received cat cmd dat p)))"
  using ReceivePacket_undefined [of e p w] ReceivePacket_sound [of e p w] assms
  by (auto split: option.split)

theorem ReceivePacket_any_stream_witness:
  "ReceivePacket sample_env (InitPacket1 5 (CPacket_new 0)) (open_world [1, 2, 3]) \<noteq> None"
proof -
  have "[1, 2, 3] \<noteq> h @ rest" if "good_header h" for h rest :: "byte list"
  proof
    assume "[1, 2, 3] = h @ rest"
    then have "length [1, 2, 3 :: byte] = length (h @ rest)" by (rule arg_cong)
    with that show False by (simp add: good_header_def good_version_def)
  qed
  with ReceivePacket_any_stream [of sample_env "open_world [1, 2, 3]" "InitPacket1 5 (CPacket_new 0)"]
  show ?thesis by (auto split: option.splits)
qed

text \<open>\<open>ReceivePacket\<close> accepts every valid frame, however the stream delivers its body, if the first
  \<open>read\<close> gives the whole header: it returns \<open>TRUE\<close>, the packet holds category, command and data
  with the read position at the start, and the stream continues right after the frame.\<close>

theorem ReceivePacket_valid_frame:
  assumes "log_ok e w" "can_read e (m_nClientSockfd p) w"
    and "e_read e (tick w) = IoReady k" "10 \<le> k"
    and "pending (m_nClientSockfd p) w = good_frame cat cmd rsv dat @ rest"
    and "int (length dat) + 10 \<le> INT_MAX"
  shows "\<exists>q w1. ReceivePacket e p w = Some (True, q, w1) \<and> m_nCategory q = sint cat \<and> m_nCommand q = sint cmd \<and>
    rd_ok q \<and> remaining q = dat \<and> pending (m_nClientSockfd p) w1 = rest"
  using ReceivePacket_complete [OF assms] assms(6) received_ok [of dat cat cmd p] by auto

theorem ReceivePacket_valid_frame_witness:
  "\<exists>q w1. ReceivePacket sample_env (InitPacket1 5 (CPacket_new 0)) (open_world (reply_frame @ [9])) =
     Some (True, q, w1) \<and> m_nCommand q = 4 \<and> remaining q = [0, 0, 0, 0] \<and> pending 5 w1 = [9]"
proof -
  have d: "be32 0 = [0, 0, 0, 0]" by code_simp
  have c: "sint (4 :: byte) = 4" by code_simp
  show ?thesis
    using ReceivePacket_valid_frame [of sample_env "open_world (reply_frame @ [9])"
        "InitPacket1 5 (CPacket_new 0)" 4096 2 4 0 "be32 0" "[9]"]
    by (auto simp: reply_frame_def INT_MAX_def d c)
qed

text \<open>A valid frame is refused when the network delivers its header in two pieces: whatever the stream
  holds, a first \<open>read\<close> of fewer than ten bytes makes \<open>ReceivePacket\<close> return \<open>FALSE\<close> and leaves the
  packet object unchanged.\<close>

theorem ReceivePacket_header_in_pieces:
  assumes "log_ok e w" "e_read e (tick w) = IoReady k" "k < 10"
  shows "\<exists>w1. ReceivePacket e p w = Some (False, p, w1) \<and> quiet (m_nClientSockfd p) w w1"
  using ReceivePacket_split_header [OF assms] .

theorem ReceivePacket_header_in_pieces_witness:
  "\<exists>w1. ReceivePacket (sample_env\<lparr>e_read := (\<lambda>_. IoReady 9)\<rparr>) (InitPacket1 5 (CPacket_new 0))
     (open_world reply_frame) = Some (False, InitPacket1 5 (CPacket_new 0), w1)"
  using ReceivePacket_header_in_pieces [of "sample_env\<lparr>e_read := (\<lambda>_. IoReady 9)\<rparr>" "open_world reply_frame" 9
      "InitPacket1 5 (CPacket_new 0)"]
  by (auto simp: log_ok_def)

text \<open>\<open>ReceivePacket_Select\<close> on any stream, like \<open>ReceivePacket\<close>, except for the magic number: it
  returns unless the length field overflows, writes nothing, and \<open>TRUE\<close> means one frame has been
  taken, whose first two bytes are arbitrary.\<close>

theorem ReceivePacket_Select_any_stream:
  assumes "log_ok e w" "0 \<le> m_nClientSockfd p" "m_nClientSockfd p < 1024"
  shows "(case ReceivePacket_Select e p w of
      None \<Rightarrow> (\<exists>h rest. pending (m_nClientSockfd p) w = h @ rest \<and> good_version h \<and> frame_len h < 10 - 2 ^ 31)
    | Some (ok, q, w1) \<Rightarrow> quiet (m_nClientSockfd p) w w1 \<and>
        (\<exists>pre. pending (m_nClientSockfd p) w = pre @ pending (m_nClientSockfd p) w1) \<and>
        (ok \<longrightarrow> (\<exists>m1 m2 cat cmd rsv dat. int (length dat) + 10 \<le> INT_MAX \<and>
           pending (m_nClientSockfd p) w =
             wire_frame m1 m2 cat cmd rsv dat @ pending (m_nClientSockfd p) w1 \<and>
           q = received cat cmd dat p)))"
  using ReceivePacket_Select_undefined [of e p w] ReceivePacket_Select_sound [of e p w]
    ReceivePacket_Select_suffix [of e p w] assms
  by (auto split: option.split)

theorem ReceivePacket_Select_any_stream_witness:
  "ReceivePacket_Select sample_env (InitPacket2 5 0 (CPacket_new 0)) (open_world [1, 2, 3]) \<noteq> None"
proof -
  have "[1, 2, 3] \<noteq> h @ rest" if "good_version h" for h rest :: "byte list"
  proof
    assume "[1, 2, 3] = h @ rest"
    then have "length [1, 2, 3 :: byte] = length (h @ rest)" by (rule arg_cong)
    with that show False by (simp add: good_version_def)
  qed
  with ReceivePacket_Select_any_stream [of sample_env "open_world [1, 2, 3]" "InitPacket2 5 0 (CPacket_new 0)"]
  show ?thesis by (auto split: option.splits)
qed

text \<open>\<open>ReceivePacket_Select\<close> does not check the magic number: a frame with any two bytes in its place
  is logged as wrong and then received like a valid one.\<close>

theorem ReceivePacket_Select_any_magic:
  assumes "log_ok e w" "can_read e (m_nClientSockfd p) w"
    and "0 \<le> m_nClientSockfd p" "m_nClientSockfd p < 1024"
    and "e_select e (tick w) \<noteq> 0" "e_select e (tick w) \<noteq> - 1"
    and "e_read e (Suc (tick w)) = IoReady k" "10 \<le> k"
    and "pending (m_nClientSockfd p) w = wire_frame m1 m2 cat cmd rsv dat @ rest"
    and "int (length dat) + 10 \<le> INT_MAX"
  shows "\<exists>w1. ReceivePacket_Select e p w = Some (True, received cat cmd dat p, w1) \<and>
    pending (m_nClientSockfd p) w1 = rest"
  using ReceivePacket_Select_complete [OF assms] by blast

theorem ReceivePacket_Select_any_magic_witness:
  "\<exists>w1. ReceivePacket_Select sample_env (InitPacket2 5 0 (CPacket_new 0)) (open_world (wire_frame 0 7 2 4 0 [8])) =
     Some (True, received 2 4 [8] (InitPacket2 5 0 (CPacket_new 0)), w1) \<and> pending 5 w1 = []"
  using ReceivePacket_Select_any_magic [of sample_env "open_world (wire_frame 0 7 2 4 0 [8])"
      "InitPacket2 5 0 (CPacket_new 0)" 4096 0 7 2 4 0 "[8]" "[]"]
  by (auto simp: INT_MAX_def)

section \<open>Sending\<close>



section \<open>Fields\<close>

text \<open>Every \<open>Write\<close> operation, on a packet being filled and within \<open>2 ^ 30\<close> bytes in all, returns
  \<open>TRUE\<close>, appends exactly the encoding of its argument to the bytes written so far, and keeps the
  invariant of the buffer and the identity of the packet.\<close>

theorem write_field_appends:
  assumes "wr_ok p" "field_ok v" "length (payload p) + length (enc_field v) \<le> 2 ^ 30"
  shows "\<exists>q. write_field v p = Some (True, q) \<and> wr_ok q \<and> payload q = payload p @ enc_field v \<and> same_id p q"
  using cpacket_message.wr_appends [OF assms] by (auto simp: appended_def)

theorem write_field_appends_witness:
  "\<exists>q. write_field (FShort 258) (InitPacket3 1 4 5 (CPacket_new 0)) = Some (True, q) \<and> payload q = [1, 2]"
proof -
  have "enc_short 258 = [1, 2]" by code_simp
  with write_field_appends [of "InitPacket3 1 4 5 (CPacket_new 0)" "FShort 258"] show ?thesis by auto
qed



text \<open>C30: \<open>CheckDataBuffer\<close> always ends with room for the bytes asked for, keeps what is written, and never
  allocates more than twice what is needed (or the base size), as long as at most \<open>2 ^ 30\<close> bytes are
  needed; beyond that the doubling overflows \<open>m_nDataLength\<close> in every buffer grown by this
  function.\<close>

theorem CheckDataBuffer_limit:
  assumes p: "wr_ok p" "doubled p" and n: "0 \<le> n"
  shows "(case CheckDataBuffer n p of
      None \<Rightarrow> 2 ^ 30 < m_nDataPointer p + n
    | Some q \<Rightarrow> m_nDataPointer p + n \<le> 2 ^ 30 \<and> wr_ok q \<and> payload q = payload p \<and>
        m_nDataPointer q + n \<le> m_nDataLength q \<and>
        m_nDataLength q \<le> max (m_nDataLength p) (max BUFFER_BASE_SIZE (2 * (m_nDataPointer p + n))))"
proof (cases "m_nDataPointer p + n \<le> 2 ^ 30")
  case True
  with CheckDataBuffer_ok [OF p(1) n] show ?thesis by (auto simp: appended_def)
next
  case False
  with CheckDataBuffer_overflow [OF p, of n] show ?thesis by simp
qed

theorem CheckDataBuffer_limit_witness:
  "CheckDataBuffer (2 ^ 30 + 1) (CPacket_new 0) = None \<and> CheckDataBuffer 5 (CPacket_new 0) \<noteq> None"
proof -
  have p: "wr_ok (CPacket_new 0)" "doubled (CPacket_new 0)"
    by (simp_all add: wr_ok_def doubled_def CPacket_new_def data_cells_def INT_MAX_def)
  show ?thesis
    using CheckDataBuffer_limit [OF p, of "2 ^ 30 + 1"] CheckDataBuffer_limit [OF p, of 5]
    by (auto simp: CPacket_new_def split: option.splits)
qed

text \<open>A 16-bit field does not keep negative numbers, and a short string does not keep its length beyond
  65535: the reader returns the number, or the length, modulo \<open>2 ^ 16\<close>.\<close>

theorem short_field_modulo:
  assumes "rd_ok p" "log_ok e w"
    and "remaining p = enc_short n @ rest"
  shows "\<exists>q. ReadShortInt e v p w = Some (True, n mod 2 ^ 16, q, w) \<and> remaining q = rest"
  using short_reader.rd_takes [OF assms(1,2) TrueI assms(3)] by (auto simp: taken_def out_short_def)

theorem short_field_modulo_witness:
  "\<exists>q. ReadShortInt sample_env 0 (received 1 4 (enc_short (- 1)) (CPacket_new 0)) sample_world =
     Some (True, 65535, q, sample_world) \<and> remaining q = []"
  using short_field_modulo [of "received 1 4 (enc_short (- 1)) (CPacket_new 0)" sample_env sample_world "- 1" "[]" 0]
    received_ok [of "enc_short (- 1)" 1 4 "CPacket_new 0"]
  by (simp add: INT_MAX_def)

end
