(* ===== verification/PacketCodes.thy ===== *)
theory PacketCodes
  imports PacketWire
begin

text \<open>
  packet_common.h: the numbers of all requests, responses and errors of the protocol. A command
  travels as one byte (\<open>packet_header\<close>); that the numbers fit it and tell the requests apart is what
  makes a receiver able to know what was asked.
\<close>

datatype service_call =
    LOGIN | QUERY_PATH | REGISTRY_HEARTBEAT | ALIVE_STATUS | REFRESH_INFO | METADATA_REPORT
  | AUTH_REQUEST | AUTH_END | DOWNLOAD | FREE_DOWNLOAD
  | FILE_UPLOAD | FILE_REUPLOAD | FILE_DELETE | HASH_CHECK | FILE_INFO_INSERT
  | CONNECT_CNT | PERF_REPORT | SERVER_RESTART

fun REQ :: "service_call \<Rightarrow> int" where
  "REQ LOGIN = 0x01"
| "REQ QUERY_PATH = 0x02"
| "REQ REGISTRY_HEARTBEAT = 0x03"
| "REQ ALIVE_STATUS = 0x04"
| "REQ REFRESH_INFO = 0x05"
| "REQ METADATA_REPORT = 0x06"
| "REQ AUTH_REQUEST = 0x11"
| "REQ AUTH_END = 0x12"
| "REQ DOWNLOAD = 0x13"
| "REQ FREE_DOWNLOAD = 0x14"
| "REQ FILE_UPLOAD = 0x21"
| "REQ FILE_REUPLOAD = 0x22"
| "REQ FILE_DELETE = 0x23"
| "REQ HASH_CHECK = 0x26"
| "REQ FILE_INFO_INSERT = 0x27"
| "REQ CONNECT_CNT = 0x31"
| "REQ PERF_REPORT = 0x32"
| "REQ SERVER_RESTART = 0x33"

fun RSP :: "service_call \<Rightarrow> int" where
  "RSP LOGIN = 0x01"
| "RSP QUERY_PATH = 0x02"
| "RSP REGISTRY_HEARTBEAT = 0x03"
| "RSP ALIVE_STATUS = 0x04"
| "RSP REFRESH_INFO = 0x05"
| "RSP METADATA_REPORT = 0x06"
| "RSP AUTH_REQUEST = 0x11"
| "RSP AUTH_END = 0x12"
| "RSP DOWNLOAD = 0x13"
| "RSP FREE_DOWNLOAD = 0x14"
| "RSP FILE_UPLOAD = 0x21"
| "RSP FILE_REUPLOAD = 0x22"
| "RSP FILE_DELETE = 0x23"
| "RSP HASH_CHECK = 0x26"
| "RSP FILE_INFO_INSERT = 0x27"
| "RSP CONNECT_CNT = 0x31"
| "RSP PERF_REPORT = 0x32"
| "RSP SERVER_RESTART = 0x33"

definition CAT_RESPONSE :: int where "CAT_RESPONSE = 2"

text \<open>The error codes: none, failed, database, disk, cache server, authentication.\<close>

definition ERR_DB_FAILED :: int where "ERR_DB_FAILED = 2"
definition ERR_DISK_ERROR :: int where "ERR_DISK_ERROR = 4"
definition ERR_CACHE_SERVER :: int where "ERR_CACHE_SERVER = 6"
definition ERR_AUTH_FAILED :: int where "ERR_AUTH_FAILED = 7"

text \<open>The numbers the alive thread and \<open>CPerfInfo\<close> use.\<close>

lemma used_requests:
  "REQ_REGISTRY_HEARTBEAT = REQ REGISTRY_HEARTBEAT" "REQ_ALIVE_STATUS = REQ ALIVE_STATUS"
  "REQ_REFRESH_INFO = REQ REFRESH_INFO" "REQ_METADATA_REPORT = REQ METADATA_REPORT"
  "REQ_PERF_REPORT = REQ PERF_REPORT" "REQ_SERVER_RESTART = REQ SERVER_RESTART"
  by (simp_all add: REQ_REGISTRY_HEARTBEAT_def REQ_ALIVE_STATUS_def REQ_REFRESH_INFO_def
      REQ_METADATA_REPORT_def REQ_PERF_REPORT_def REQ_SERVER_RESTART_def)

lemma RSP_eq_REQ: "RSP c = REQ c"
  by (cases c) simp_all

lemma REQ_range: "0 < REQ c" "REQ c < 128"
  by (cases c; simp)+

text \<open>A reference decoder for the numbers.\<close>

definition all_calls :: "service_call list" where
  "all_calls = [LOGIN, QUERY_PATH, REGISTRY_HEARTBEAT, ALIVE_STATUS, REFRESH_INFO, METADATA_REPORT,
     AUTH_REQUEST, AUTH_END, DOWNLOAD, FREE_DOWNLOAD, FILE_UPLOAD, FILE_REUPLOAD, FILE_DELETE, HASH_CHECK,
     FILE_INFO_INSERT, CONNECT_CNT, PERF_REPORT, SERVER_RESTART]"

definition call_of :: "byte \<Rightarrow> service_call option" where
  "call_of b = map_of (map (\<lambda>c. (REQ c, c)) all_calls) (uint b)"

text \<open>
  The command byte of a frame tells the request: the number, cut to the byte of the header, is not 0,
  is read back as the call it was made for, and is the byte of the response to this call too.
\<close>

lemma command_byte:
  "word_of_int (REQ c) \<noteq> (0 :: byte)" "call_of (word_of_int (REQ c)) = Some c"
  "call_of (word_of_int (RSP c)) = Some c"
proof -
  have u: "uint (word_of_int (REQ c) :: byte) = REQ c"
    using REQ_range [of c] by (simp add: uint_word_of_int)
  then show "word_of_int (REQ c) \<noteq> (0 :: byte)" using REQ_range [of c] by auto
  show "call_of (word_of_int (REQ c)) = Some c"
    unfolding call_of_def u by (cases c) (simp_all add: all_calls_def)
  then show "call_of (word_of_int (RSP c)) = Some c" by (simp add: RSP_eq_REQ)
qed

lemma REQ_inject: "REQ c = REQ d \<longleftrightarrow> c = d"
  using command_byte(2) by (metis option.inject)

end
