(* ===== verification/RequestDecode.thy ===== *)
theory RequestDecode
  imports AliveCommands PerfReport
begin

text \<open>
  The other end of a request: what a peer that speaks the protocol of \<open>CPacket\<close> gets out of the
  bytes a command of the alive thread or a report of \<open>CPerfInfo\<close> has put on the wire.
\<close>

text \<open>The reading of an argument, with a buffer of a million bytes for a string.\<close>

fun arg_field :: "arg \<Rightarrow> field" where
  "arg_field (AStr None) = FStr 0 []"
| "arg_field (AStr (Some blk)) = FStr (10 ^ 6) blk"
| "arg_field (AInt n) = FInt n"

text \<open>
  Whoever reads the bytes \<open>frame\<close> from a connection, in whatever pieces the body arrives, receives a
  request of the command \<open>command\<close>, gets the values of the arguments in their order from the \<open>Read\<close>
  operations and is then at the end of the packet; what comes after the frame is still to be read.
\<close>

definition understood :: "byte list \<Rightarrow> int \<Rightarrow> arg list \<Rightarrow> bool" where
  "understood frame command args \<longleftrightarrow>
     (\<forall>e (p :: cpacket) w rest k. log_ok e w \<longrightarrow> can_read e (m_nClientSockfd p) w \<longrightarrow>
        e_read e (tick w) = IoReady k \<longrightarrow> 10 \<le> k \<longrightarrow> pending (m_nClientSockfd p) w = frame @ rest \<longrightarrow>
        (\<exists>q w1 r. ReceivePacket e p w = Some (True, q, w1) \<and>
           m_nCategory q = CAT_REQUEST \<and> m_nCommand q = command \<and>
           pending (m_nClientSockfd p) w1 = rest \<and>
           read_seq read_field e (map (field_kind \<circ> arg_field) args) q w1 =
             Some (True, map (out_field \<circ> arg_field) args, r, w1) \<and> IsEOD r))"

definition arg_fits :: "arg \<Rightarrow> bool" where
  "arg_fits a \<longleftrightarrow> arg_ok a \<and> field_ok (arg_field a)"

lemma arg_fits_simps [simp]:
  "arg_fits (AInt n)"
  "set_string b \<Longrightarrow> arg_fits (AStr b)"
  "NUL \<notin> set s \<Longrightarrow> length s \<le> 10 ^ 6 \<Longrightarrow> arg_fits (AStr (Some (terminated s)))"
  by (auto simp: arg_fits_def set_string_def field_len_def INT_MAX_def)

lemma enc_arg_field: "arg_fits a \<Longrightarrow> enc_field (arg_field a) = enc_arg a"
  by (cases a rule: enc_arg.cases) (auto simp: arg_fits_def)

lemma request_understood:
  assumes "args_ok args" "\<forall>a\<in>set args. arg_fits a" "0 < command" "command < 128"
  shows "understood (request_frame command args) command args"
  unfolding understood_def
proof (intro allI impI)
  fix e and p :: cpacket and w rest k
  assume w: "log_ok e w" "can_read e (m_nClientSockfd p) w" "e_read e (tick w) = IoReady k" "10 \<le> k"
    "pending (m_nClientSockfd p) w = request_frame command args @ rest"
  let ?vs = "map arg_field args" and ?bs = "concat (map enc_arg args)"
  let ?q = "received 1 (word_of_int command) ?bs p"
  have enc: "concat (map enc_field ?vs) = ?bs"
    using assms(2) by (simp add: enc_arg_field cong: map_cong)
  have small: "int (length ?bs) + 10 \<le> INT_MAX" "int (length ?bs) \<le> INT_MAX"
    using assms(1) by (auto simp: args_ok_def INT_MAX_def)
  from ReceivePacket_complete [OF w(1-4) w(5) [unfolded request_frame_def] small(1)] obtain w1 where
    r: "ReceivePacket e p w = Some (True, ?q, w1)" "pending (m_nClientSockfd p) w1 = rest"
       "quiet (m_nClientSockfd p) w w1" by blast
  note rec = received_ok [OF small(2), of 1 "word_of_int command" p]
  have valid: "\<forall>v\<in>set ?vs. field_ok v" using assms(2) by (auto simp: arg_fits_def)
  from cpacket_message.read_seq_takes [OF rec(1) quiet_log_ok [OF r(3) w(1)] valid, of "[]"] enc rec obtain s where
    s: "read_seq read_field e (map field_kind ?vs) ?q w1 = Some (True, map out_field ?vs, s, w1)" "taken ?q s []"
    by auto
  moreover have "IsEOD s" using s(2) by (auto simp: taken_def IsEOD_remaining)
  moreover have "sint (word_of_int command :: byte) = command"
    using out_tiny_id [of command] assms(3,4) by (simp add: out_tiny_def)
  ultimately show "\<exists>q w1 r. ReceivePacket e p w = Some (True, q, w1) \<and>
           m_nCategory q = CAT_REQUEST \<and> m_nCommand q = command \<and> pending (m_nClientSockfd p) w1 = rest \<and>
           read_seq read_field e (map (field_kind \<circ> arg_field) args) q w1 =
             Some (True, map (out_field \<circ> arg_field) args, r, w1) \<and> IsEOD r"
    using r(1,2) rec by (auto simp: CAT_REQUEST_def)
qed

lemmas REQ_defs = REQ_ALIVE_STATUS_def REQ_REGISTRY_HEARTBEAT_def REQ_METADATA_REPORT_def
  REQ_PERF_REPORT_def REQ_SERVER_RESTART_def REQ_REFRESH_INFO_def

lemma alive_understood:
  "conninfo_ok c \<Longrightarrow> understood (request_frame REQ_ALIVE_STATUS (alive_args c)) REQ_ALIVE_STATUS (alive_args c)"
  by (rule request_understood [OF alive_args_ok]) (auto simp: conninfo_ok_def alive_args_def REQ_defs)

lemma heartbeat_understood:
  assumes "conninfo_ok c" "NUL \<notin> set ips" "length ips < 256"
  shows "understood (request_frame REQ_REGISTRY_HEARTBEAT (heartbeat_args c ips)) REQ_REGISTRY_HEARTBEAT
    (heartbeat_args c ips)"
  by (rule request_understood [OF heartbeat_args_ok [OF assms]])
    (use assms in \<open>auto simp: conninfo_ok_def heartbeat_args_def REQ_defs\<close>)

lemma metadata_understood:
  assumes "conninfo_ok c" "NUL \<notin> set addr" "length addr < 64"
  shows "understood (request_frame REQ_METADATA_REPORT (metadata_args c addr health)) REQ_METADATA_REPORT
    (metadata_args c addr health)"
proof (rule request_understood)
  show "args_ok (metadata_args c addr health)"
    using assms set_string_arg [of "uuid c"] by (auto simp: conninfo_ok_def args_ok_def metadata_args_def)
qed (use assms in \<open>auto simp: conninfo_ok_def metadata_args_def REQ_defs\<close>)

lemma perf_understood:
  "understood (request_frame REQ_PERF_REPORT (perf_args p)) REQ_PERF_REPORT (perf_args p)"
  by (rule request_understood) (auto simp: perf_args_def REQ_defs)

end
