(* ===== verification/AliveSpec.thy ===== *)
theory AliveSpec
  imports Sample RequestDecode
begin

text \<open>
  The properties of the commands and of \<open>alive_process_thread\<close>, each with an instance on the
  sample machine.
\<close>

section \<open>The sample machine\<close>

lemma reply_header:
  assumes "reply_frame = h @ rest" "good_header h"
  shows "10 - 2 ^ 31 \<le> frame_len h"
proof -
  have "length h = 10" using assms(2) by (simp add: good_header_def good_version_def)
  then have h: "h = take 10 reply_frame" using assms(1) by (metis append_eq_conv_conj)
  have "int (length (be32 0)) + 10 \<le> INT_MAX" by (simp add: INT_MAX_def)
  from wire_frame_header(7) [OF this, of h "0xFF" "0xFF" 2 4 0] h
  show ?thesis by (simp add: reply_frame_def)
qed

lemma sample_peers [simp]: "sane_peers sample_env" "sane_peers refusing_env"
  using reply_header by (auto simp: sane_peers_def)

lemma sample_info_ok [simp]: "conninfo_ok sample_info"
  by (simp add: conninfo_ok_def sample_info_def set_string_def field_len_def)

lemma sample_ifs_ok [simp]: "ifs_ok sample_env" "ifs_ok refusing_env"
  by (simp_all add: ifs_ok_def sample_ifs_def interfaces_ok_def ip_list_def ip_entry_def AF_INET_def)

lemma sample_web_ok [simp]: "web_ok sample_env"
  by (simp add: web_ok_def sample_run_def curl_ok_def)

lemma sample_friendly [simp]: "friendly sample_env t"
  by (simp add: friendly_def)

lemma sample_acknowledges [simp]: "acknowledges sample_env t"
proof -
  have "answers sample_env u 0" for u
    unfolding answers_def
    by (intro exI [of _ 2] exI [of _ 4] exI [of _ 0] exI [of _ 0] exI [of _ "[]"]) (simp add: reply_frame_def)
  then show ?thesis unfolding acknowledges_def ERR_FAILED_def by (metis zero_neq_one)
qed

lemma sample_machine_ok [simp]: "machine_ok sample_env sample_info"
  by (simp add: machine_ok_def)

section \<open>The commands\<close>







text \<open>C19: When connections are accepted, every call transfers at least the ten bytes of a header, the peer
  acknowledges and descriptor 0 is in use, \<open>command_alive_report\<close> returns \<open>TRUE\<close>: exactly one frame has
  been sent, on one connection, the descriptor table is unchanged, and whoever receives this frame with
  \<open>ReceivePacket\<close> gets the request \<open>REQ_ALIVE_STATUS\<close> and reads from it the name and the UUID of the
  configuration and nothing else.\<close>

theorem command_alive_report_succeeds:
  assumes "log_ok e w" "conninfo_ok c" "0 \<in> open_fds w"
    and "friendly e (tick w)" "acknowledges e (tick w)"
  shows "\<exists>fd w1 frame. command_alive_report e c w = Some (True, w1) \<and> fd \<notin> open_fds w \<and> fds w1 = fds w \<and>
    sent fd w1 = sent fd w @ frame \<and> (\<forall>g. g \<noteq> fd \<longrightarrow> sent g w1 = sent g w) \<and>
    understood frame REQ_ALIVE_STATUS [AStr (metaname c), AStr (uuid c)]"
proof -
  from command_alive_report_complete [OF assms] obtain fd w1 where
    "command_alive_report e c w = Some (True, w1)" "fd \<notin> open_fds w"
    "closed_after fd (request_frame REQ_ALIVE_STATUS (alive_args c)) w w1" by blast
  with alive_understood [OF assms(2)] show ?thesis unfolding closed_after_def alive_args_def by blast
qed

theorem command_alive_report_succeeds_witness:
  "\<exists>w1. command_alive_report sample_env sample_info sample_world = Some (True, w1)"
  using command_alive_report_succeeds [of sample_env sample_world sample_info] by auto

text \<open>Under the same conditions \<open>command_heartbeat_report\<close> returns \<open>TRUE\<close> after sending exactly its
  frame.\<close>

theorem command_heartbeat_report_succeeds:
  assumes "log_ok e w" "conninfo_ok c" "0 \<in> open_fds w" "ifs_ok e"
    and "friendly e (tick w)" "acknowledges e (tick w)"
  shows "\<exists>fd w1 t il. command_heartbeat_report e c w = Some (True, w1) \<and> fd \<notin> open_fds w \<and>
    e_ifaddrs e t = Some il \<and> fds w1 = fds w \<and>
    sent fd w1 = sent fd w @ request_frame REQ_REGISTRY_HEARTBEAT (heartbeat_args c (ip_list il)) \<and>
    (\<forall>g. g \<noteq> fd \<longrightarrow> sent g w1 = sent g w)"
  using command_heartbeat_report_complete [OF assms] by (fastforce simp: closed_after_def)

theorem command_heartbeat_report_succeeds_witness:
  "\<exists>w1. command_heartbeat_report sample_env sample_info sample_world = Some (True, w1)"
  using command_heartbeat_report_succeeds [of sample_env sample_world sample_info] by auto

section \<open>Giving up\<close>

text \<open>One refused attempt: a socket, a connection attempt, and the socket closed.\<close>

definition attempt :: "conninfo \<Rightarrow> world \<Rightarrow> event list" where
  "attempt c w = [EvSocket (dir_fd w), EvConnect (dir_fd w) (ip c) (word_of_int (port c)) False,
     EvClose (dir_fd w)]"

lemma attempt_fds: "fds w1 = fds w \<Longrightarrow> attempt c w1 = attempt c w"
  by (simp add: attempt_def)

lemma ConnectToServer_refused:
  assumes log: "log_ok e w" and no: "\<forall>t. e_socket e t \<and> \<not> e_connect e t"
  shows "\<exists>w1. ConnectToServer e (ip c) (port c) w = Some (False, dir_fd w, w1) \<and> fds w1 = fds w \<and>
    m_strLogPath w1 = m_strLogPath w \<and> trace w1 = trace w @ attempt c w"
proof -
  let ?f = "dir_fd w" and ?c = "\<lparr>up = False, rx = []\<rparr>"
  let ?w1 = "emit (EvSocket ?f) (w\<lparr>fds := (?f, ?c) # fds w\<rparr>)"
  let ?w2 = "emit (EvConnect ?f (ip c) (word_of_int (port c)) False) ?w1"
  let ?w3 = "err_logged e ''ConnectToServer() - NOT CONNECT'' ?f L0 ?w2"
  have ne: "?f \<noteq> - 1" using lowest_free_nonneg [of "map fst (fds w)"] by linarith
  have fresh: "?f \<notin> keys (fds w)"
    using lowest_free_fresh [of "map fst (fds w)"] unfolding keys_map_fst .
  have "log_ok e ?w2" using log by (simp add: log_ok_def emit_def)
  moreover obtain r w4 where cl: "sys_close e ?f ?w3 = (r, w4)" by (metis prod.exhaust)
  moreover have "fds w4 = fds w \<and> m_strLogPath w4 = m_strLogPath w \<and> trace w4 = trace w @ attempt c w"
    using cl fresh by (auto simp: sys_close_def emit_def attempt_def split: if_splits)
  ultimately show ?thesis
    using no ne by (simp add: ConnectToServer_def sys_socket_def sys_connect_def Let_def)
qed

lemma connect_tries_refused:
  assumes no: "\<forall>t. e_socket e t \<and> \<not> e_connect e t"
  shows "log_ok e w \<Longrightarrow> \<exists>w1. connect_tries e c n 0 w = Some (False, 0, w1) \<and> fds w1 = fds w \<and>
    m_strLogPath w1 = m_strLogPath w \<and> trace w1 = trace w @ concat (replicate n (attempt c w))"
proof (induction n arbitrary: w)
  case 0
  then show ?case by simp
next
  case (Suc n)
  from ConnectToServer_refused [OF Suc.prems no, of c] obtain w1 where
    w1: "ConnectToServer e (ip c) (port c) w = Some (False, dir_fd w, w1)" "fds w1 = fds w"
      "m_strLogPath w1 = m_strLogPath w" "trace w1 = trace w @ attempt c w" by blast
  let ?w2 = "err_logged e ''Connect Error'' (dir_fd w) L0 w1"
  have log1: "log_ok e w1" using Suc.prems w1(3) by (simp add: log_ok_def)
  have w2: "log_ok e ?w2" "attempt c ?w2 = attempt c w" "fds ?w2 = fds w" "trace ?w2 = trace w @ attempt c w"
    "m_strLogPath ?w2 = m_strLogPath w"
    using log1 w1 attempt_fds [of ?w2 w c] by simp_all
  from Suc.IH [OF w2(1)] obtain w3 where
    w3: "connect_tries e c n 0 ?w2 = Some (False, 0, w3)" "fds w3 = fds w" "m_strLogPath w3 = m_strLogPath w"
      "trace w3 = trace w @ attempt c w @ concat (replicate n (attempt c w))"
    unfolding w2 by auto
  have "connect_tries e c (Suc n) 0 w = Some (False, 0, w3)"
    using w1(1) log1 w3(1) by simp
  with w3 show ?case by simp
qed

text \<open>C20: When every connection is refused, \<open>command_alive_report\<close> makes exactly one hundred attempts, each
  of which closes its socket, sends nothing and returns \<open>FALSE\<close> - and then closes descriptor 0, the
  value of a variable that holds no descriptor.\<close>

theorem command_alive_report_gives_up:
  assumes "log_ok e w" "\<forall>t. e_socket e t \<and> \<not> e_connect e t"
  shows "\<exists>w1. command_alive_report e c w = Some (False, w1) \<and> fds w1 = AList.delete 0 (fds w) \<and>
    trace w1 = trace w @ concat (replicate 100 (attempt c w)) @ (if 0 \<in> open_fds w then [EvClose 0] else [])"
proof -
  from connect_tries_refused [OF assms(2,1), of c MAX_TRIES] obtain w1 where
    w1: "connect_tries e c MAX_TRIES 0 w = Some (False, 0, w1)" "fds w1 = fds w"
      "m_strLogPath w1 = m_strLogPath w" "trace w1 = trace w @ concat (replicate 100 (attempt c w))"
    unfolding MAX_TRIES_def by blast
  obtain r w2 where cl: "sys_close e 0 w1 = (r, w2)" by (metis prod.exhaust)
  have w2: "fds w2 = AList.delete 0 (fds w)" "m_strLogPath w2 = m_strLogPath w"
    "trace w2 = trace w1 @ (if 0 \<in> open_fds w then [EvClose 0] else [])"
    using cl w1(2,3) by (auto simp: sys_close_def emit_def split: if_splits)
  then have "log_ok e w2" using assms(1) by (simp add: log_ok_def)
  with w1 w2 cl show ?thesis
    by (simp add: command_alive_report_def give_up_def CloseToServer_def)
qed

theorem command_alive_report_gives_up_witness:
  "\<exists>w1. command_alive_report refusing_env sample_info sample_world = Some (False, w1) \<and> fds w1 = []"
  using command_alive_report_gives_up [of refusing_env sample_world sample_info] by auto

text \<open>A connection that gets descriptor 0 is taken for a failed attempt: \<open>command_refresh_info\<close>, whose
  whole work is to connect and close, leaves it open and uses the next one.\<close>

theorem command_refresh_info_leaks_zero:
  assumes log: "log_ok e w" and fr: "friendly e (tick w)" and zero: "0 \<notin> open_fds w"
  shows "\<exists>w1. command_refresh_info e c w = Some (True, w1) \<and> open_fds w1 = insert 0 (open_fds w)"
proof -
  have f: "dir_fd w = 0" using zero unfolding lowest_free_zero_iff keys_map_fst .
  from ConnectToServer_friendly [OF log fr, of "ip c" "port c"] obtain w1 where
    c1: "ConnectToServer e (ip c) (port c) w = Some (True, 0, w1)" "connected_to e 0 w w1"
    unfolding f by blast
  have log1: "log_ok e w1" using c1(2) still_log_ok log unfolding connected_to_def by blast
  have k1: "0 \<in> open_fds w1" "AList.delete 0 (fds w1) = fds w" "tick w \<le> tick w1"
    using c1(2) by (auto simp: connected_to_def session_def)
  have two: "2 \<le> (99 :: nat)" by simp
  from connect_tries_friendly [OF log1 friendly_later [OF fr k1(3)] k1(1) two, of c] obtain fd w2 where
    c2: "connect_tries e c 99 0 w1 = Some (True, fd, w2)" "connected_to e fd w1 w2" "fd \<noteq> 0"
    by blast
  have "connect_tries e c MAX_TRIES 0 w = Some (True, fd, w2)"
  proof -
    have m: "MAX_TRIES = Suc 99" by (simp add: MAX_TRIES_def)
    show ?thesis unfolding m connect_tries.simps using c1(1) c2(1) by simp
  qed
  moreover obtain r w3 where cl: "sys_close e fd w2 = (r, w3)" by (metis prod.exhaust)
  moreover have s: "session fd w1 w2" using c2(2) by (simp add: connected_to_def)
  note closed = close_session [OF s cl]
  have "log_ok e w3" using closed(2) log1 by (simp add: log_ok_def)
  moreover have "open_fds w3 = insert 0 (open_fds w)"
  proof -
    have "keys (AList.delete 0 (fds w1)) = open_fds w" using k1(2) by simp
    with k1(1) closed(1) show ?thesis by (simp add: insert_absorb) blast
  qed
  ultimately show ?thesis by (simp add: command_refresh_info_def CloseToServer_def)
qed

theorem command_refresh_info_leaks_zero_witness:
  "\<exists>w1. command_refresh_info sample_env sample_info (open_world []) = Some (True, w1) \<and> open_fds w1 = {0, 5}"
  using command_refresh_info_leaks_zero [of sample_env "open_world []" sample_info]
  by (simp add: keys_def)

section \<open>The thread\<close>



end
