(* ===== verification/MonitorSpec.thy ===== *)
theory MonitorSpec
  imports Sample RequestDecode
begin

text \<open>
  The properties of the other components: the connection to the monitor, the configuration
  file, the logs, the HTTP client and the JSON access, each with an instance on the sample
  machine.
\<close>

section \<open>The connection to the monitor\<close>

definition sample_perf :: perfinfo where
  "sample_perf = perf_static\<lparr>m_serveridx := 1, m_monitor_ip := ''13.125.108.50'', m_monitor_port := 32560\<rparr>"

lemma sample_clean_peers [simp]: "clean_peers sample_env"
  by (simp add: clean_peers_def reply_clean)



text \<open>\<open>CPerfInfo::Init\<close> under any behaviour of the network: it returns \<open>TRUE\<close> with the arguments stored,
  and either it holds a new connection, the only change to the descriptor table, or the table is
  unchanged and \<open>m_hSock\<close> is not 0 but the number of a descriptor that is not open.\<close>

theorem Init_any_network:
  assumes "log_ok e w" "clean_peers e" "card (open_fds w) < 1024"
    and "scan_into 32 monitor_ip (m_monitor_ip p) = Some a" "\<forall>t. e_mutex e t = 0" "0 \<in> open_fds w"
  shows "\<exists>q w1. Init e idx monitor_ip prt p w = Some (True, q, w1) \<and>
    m_serveridx q = idx \<and> m_monitor_ip q = a \<and> m_monitor_port q = prt \<and> m_connectioncnt q = 0 \<and>
    m_hSock q \<noteq> 0 \<and>
    (fds w1 = fds w \<and> m_hSock q \<notin> open_fds w1 \<or> m_hSock q = - 1 \<or>
     m_hSock q \<notin> open_fds w \<and> m_hSock q \<in> open_fds w1 \<and> AList.delete (m_hSock q) (fds w1) = fds w)"
proof -
  from Init_spec [OF assms(1-5), of idx prt] obtain q w1 where
    r: "Init e idx monitor_ip prt p w = Some (True, q, w1)" "init_result e q w w1"
       "m_connectioncnt q = 0" "m_serveridx q = idx" "m_monitor_ip q = a" "m_monitor_port q = prt" by blast
  have "m_hSock q \<noteq> 0 \<and>
    (fds w1 = fds w \<and> m_hSock q \<notin> open_fds w1 \<or> m_hSock q = - 1 \<or>
     m_hSock q \<notin> open_fds w \<and> m_hSock q \<in> open_fds w1 \<and> AList.delete (m_hSock q) (fds w1) = fds w)"
    using r(2) assms(6) by (auto simp: init_result_def session_def)
  with r show ?thesis by blast
qed

theorem Init_any_network_witness:
  "\<exists>q w1. Init sample_env 1 ''13.125.108.50 x'' 32560 perf_static sample_world = Some (True, q, w1) \<and> m_hSock q \<noteq> 0"
proof -
  have "scan_into 32 ''13.125.108.50 x'' (m_monitor_ip perf_static) = Some ''13.125.108.50''" by code_simp
  from Init_any_network [of sample_env sample_world, OF _ _ _ this, of 1 32560] show ?thesis by auto
qed

section \<open>The configuration file\<close>

text \<open>C27: A configuration file written as in conf/pubwatcher.conf - six values, each at the start of its
  line, with a remark after a blank if one likes - is read back to exactly these values, for all
  values that fit their variables.\<close>

theorem read_conf_roundtrip:
  assumes "conf_ok g" "remark_ok r0" "remark_ok r1" "remark_ok r2" "remark_ok r3" "remark_ok r4" "remark_ok r5"
  shows "read_conf 0 (conf_text g [r0, r1, r2, r3, r4, r5]) globals_static = Some g"
  using read_conf_text [OF assms] .

definition sample_globals :: globals where
  "sample_globals = \<lparr>SERVER_INDEX = 1, WMI_MANAGER_IP = ''13.125.108.50'', WMI_MANAGER_PORT = 32560,
     WMI_MANAGER_LOG_PATH = ''/opt/pub_watcher/log/'', PROCESS_POOL_SIZE = 3, SERVER_TYPE = ''VM''\<rparr>"

lemma sample_conf_ok: "conf_ok sample_globals"
  by (simp add: conf_ok_def sample_globals_def word_ok_def isspace_def)

theorem read_conf_roundtrip_witness:
  "read_conf 0 (conf_text sample_globals ['' server'', [], '' port'', [], [], []]) globals_static = Some sample_globals"
  by (rule read_conf_roundtrip [OF sample_conf_ok]) (simp_all add: remark_ok_def newline_def)

text \<open>Nothing checks a value against the array of its variable: a manager address of 128
  characters or more, on the second line of the file, is undefined behaviour.\<close>

theorem read_conf_overruns:
  assumes "first_line f = s" "word_ok 500 s" "128 \<le> length s"
  shows "read_conf 1 f g = None"
proof -
  have s: "takeWhile (\<lambda>c. c \<noteq> NUL) s = s" "s \<noteq> []"
    using assms(2) by (auto simp: word_ok_def takeWhile_NUL)
  have "starts_word s" using assms(2) by (cases s) (auto simp: starts_word_def word_ok_def)
  moreover have "takeWhile (\<lambda>c. \<not> isspace c) s = s"
    using takeWhile_word [of s "[]"] assms(2) by (metis append_Nil2 word_ok_def)
  ultimately have "scan_s s = Some s" using s(2) unfolding scan_s_def Let_def
    by (metis (no_types, lifting) dropWhile_word)
  then have "conf_line 1 s g = None" using assms(3) by (simp add: conf_line_def scan_into_def)
  with s assms(2) show ?thesis
    unfolding read_conf_def by (subst read_lines.simps) (simp add: word_ok_def Let_def assms(1) s(1) del: One_nat_def takeWhile_eq_all_conv)
qed

theorem read_conf_overruns_witness: "read_conf 1 (replicate 128 (CHR ''1'')) globals_static = None"
proof -
  have "first_line (replicate 128 (CHR ''1'')) = replicate 128 (CHR ''1'')"
    by (rule first_line_append(2)) (simp add: newline_def)
  from read_conf_overruns [OF this] show ?thesis by (simp add: word_ok_def isspace_def)
qed

section \<open>The logs\<close>

text \<open>\<open>WriteLog\<close> cannot fail: it appends one line, ending in a newline, to the file of the current hour
  and changes nothing else - no other file, no descriptor, nothing on the network; when the file
  cannot be opened it changes no file.\<close>

theorem WriteLog_appends_line:
  assumes "log_ok e w"
  shows "\<exists>w1 path line. WriteLog e m s a w = Some w1 \<and> calm w w1 \<and>
    path = info_path (m_strLogPath w) (e_tm e (tick w)) \<and>
    line = log_line (e_tm e (tick w)) (e_usec e (tick w + 2)) m s a \<and> (\<exists>t. line = t @ ''\<newline>'') \<and>
    files w1 = (if e_fopen e (Suc (tick w)) then (files w)(path := files w path @ line) else files w)"
proof -
  obtain t where "log_tail a = t @ ''\<newline>''" using log_tail_newline by blast
  then have "\<exists>t. log_line (e_tm e (tick w)) (e_usec e (tick w + 2)) m s a = t @ ''\<newline>''"
    by (simp add: log_line_def)
  with assms show ?thesis by (simp add: logged_files)
qed

theorem WriteLog_appends_line_witness:
  "\<exists>w1. WriteLog sample_env ''VM Name'' (- 1) (L3 ''vm1'') sample_world = Some w1 \<and>
     files w1 ''/log/INFO_2017-09-14_12'' = ''[12:30:05 000000] VM Name, P1 - vm1\<newline>''"
proof -
  have "info_path ''/log/'' noon = ''/log/INFO_2017-09-14_12''"
    "log_line noon 0 ''VM Name'' (- 1) (L3 ''vm1'') = ''[12:30:05 000000] VM Name, P1 - vm1\<newline>''"
    by code_simp+
  with WriteLog_appends_line [of sample_env sample_world "''VM Name''" "- 1" "L3 ''vm1''"] show ?thesis
    by auto
qed

text \<open>Two moments share an information log exactly when they lie in the same hour of the same day: the
  file name determines year, month, day and hour.\<close>

theorem info_path_by_hour:
  assumes "sane_tm t" "sane_tm u"
  shows "info_path p t = info_path p u \<longleftrightarrow>
    tm_year t = tm_year u \<and> tm_mon t = tm_mon u \<and> tm_mday t = tm_mday u \<and> tm_hour t = tm_hour u"
proof
  assume "info_path p t = info_path p u"
  with info_path_inject [OF assms] show "tm_year t = tm_year u \<and> tm_mon t = tm_mon u \<and>
    tm_mday t = tm_mday u \<and> tm_hour t = tm_hour u" by blast
next
  assume eq: "tm_year t = tm_year u \<and> tm_mon t = tm_mon u \<and> tm_mday t = tm_mday u \<and> tm_hour t = tm_hour u"
  show "info_path p t = info_path p u" by (simp only: info_path_def eq)
qed

theorem info_path_by_hour_witness:
  "info_path ''/log/'' noon = info_path ''/log/'' (noon\<lparr>tm_min := 59\<rparr>) \<and>
   info_path ''/log/'' noon \<noteq> info_path ''/log/'' (noon\<lparr>tm_hour := 13\<rparr>)"
proof -
  have "sane_tm (noon\<lparr>tm_min := 59\<rparr>)" "sane_tm (noon\<lparr>tm_hour := 13\<rparr>)"
    by (simp_all add: sane_tm_def noon_def)
  note by_hour = info_path_by_hour [OF sane_noon this(1)] info_path_by_hour [OF sane_noon this(2)]
  show ?thesis
    unfolding by_hour by (simp add: noon_def)
qed

text \<open>C29: \<open>ClearOldLog\<close> deletes exactly the regular files of the log directory that are older than five
  days, up to the first entry that cannot be examined, and nothing else; it gives its descriptor back
  exactly when every entry could be examined.\<close>

theorem ClearOldLog_deletes:
  assumes "e_opendir e (tick w) = Some ds" "names_fit (m_strLogPath w) ds"
  shows "\<exists>w1. ClearOldLog e w = Some w1 \<and>
    trace w1 = trace w @ unlinks (m_strLogPath w) (e_time e (Suc (tick w)) - 5 * 24 * 3600) ds \<and>
    (fds w1 = fds w \<longleftrightarrow> (\<forall>d\<in>set ds. d_stat d \<noteq> None)) \<and>
    (fds w1 \<noteq> fds w \<longrightarrow> open_fds w1 = insert (dir_fd w) (open_fds w))"
proof -
  have all: "examined ds = ds \<longleftrightarrow> (\<forall>d\<in>set ds. d_stat d \<noteq> None)"
    unfolding examined_def by (rule takeWhile_eq_all_conv)
  have fresh: "dir_fd w \<notin> open_fds w"
    using lowest_free_fresh [of "map fst (fds w)"] unfolding keys_map_fst .
  from ClearOldLog_spec [OF assms] obtain w1 where w1: "ClearOldLog e w = Some w1"
    "trace w1 = trace w @ unlinks (m_strLogPath w) (e_time e (Suc (tick w)) - 5 * 24 * 3600) ds"
    "fds w1 = (if examined ds = ds then fds w else (dir_fd w, \<lparr>up = False, rx = []\<rparr>) # fds w)" by blast
  have "(fds w1 = fds w \<longleftrightarrow> examined ds = ds) \<and>
    (fds w1 \<noteq> fds w \<longrightarrow> open_fds w1 = insert (dir_fd w) (open_fds w))"
    using w1(3) fresh by (cases "examined ds = ds") simp_all
  with w1(1,2) show ?thesis unfolding all by blast
qed

theorem ClearOldLog_deletes_witness:
  "\<exists>w1. ClearOldLog sample_env sample_world = Some w1 \<and> trace w1 = [EvUnlink ''/log//INFO_old'']"
proof -
  have "names_fit ''/log/'' sample_dir" by (simp add: names_fit_def sample_dir_def)
  moreover have "unlinks ''/log/'' (1500000000 - 5 * 24 * 3600) sample_dir = [EvUnlink ''/log//INFO_old'']"
    using sample_examined by (simp add: unlinks_def sample_dir_def old_log_def)
  ultimately show ?thesis using ClearOldLog_deletes [of sample_env sample_world sample_dir]
    unfolding sample_fields sample_world_fields by (metis append_Nil)
qed

text \<open>\<open>InitLog\<close> deletes the files older than thirty days in the same way, and never closes the
  directory it has opened: one descriptor, the lowest that was free, stays in use.\<close>

theorem InitLog_deletes_and_leaks:
  assumes "e_opendir e (tick w) = Some ds" "length path < 256" "names_fit path ds"
  shows "\<exists>w1. InitLog e path w = Some w1 \<and> m_strLogPath w1 = path \<and>
    trace w1 = trace w @ unlinks path (e_time e (Suc (tick w)) - 30 * 24 * 3600) ds \<and>
    open_fds w1 = insert (dir_fd w) (open_fds w) \<and> dir_fd w \<notin> open_fds w"
proof -
  have "dir_fd w \<notin> keys (fds w)"
    using lowest_free_fresh [of "map fst (fds w)"] unfolding keys_map_fst .
  with InitLog_spec [OF assms] show ?thesis by auto
qed

theorem InitLog_deletes_and_leaks_witness:
  "\<exists>w1. InitLog sample_env ''/log/'' (sample_world\<lparr>fds := []\<rparr>) = Some w1 \<and> open_fds w1 = {0}"
proof -
  have "names_fit ''/log/'' sample_dir" by (simp add: names_fit_def sample_dir_def)
  with InitLog_deletes_and_leaks [of sample_env "sample_world\<lparr>fds := []\<rparr>" sample_dir "''/log/''"]
  show ?thesis by (auto simp: keys_def lowest_free_def)
qed

section \<open>The HTTP client\<close>

text \<open>\<open>put\<close> hands the library every byte of the body exactly once and in order, however the library
  sizes its buffers, as long as they have room for it in all; no byte outside the body is read.\<close>

theorem put_sends_body:
  assumes "curl_ok (e_curl e (tick w) (url_arg url))" "curl_init (e_curl e (tick w) (url_arg url))"
    and "length dat \<le> sum_list (curl_reads (e_curl e (tick w) (url_arg url)))"
  shows "\<exists>r. put e url header dat w =
    Some (r, emit (EvHttp ''PUT'' (url_arg url) (header_lines header) dat) w)"
  using put_uploads [OF assms] .

theorem put_sends_body_witness:
  "\<exists>r. put sample_env ''http://h/'' [(''A'', ''b'')] ''hello'' sample_world =
     Some (r, emit (EvHttp ''PUT'' ''http://h/'' [''A: b''] ''hello'') sample_world)"
  using put_sends_body [of sample_env sample_world "''http://h/''" "''hello''" "[(''A'', ''b'')]"]
  by (simp add: sample_run_def curl_ok_def url_arg_def header_lines_def)

text \<open>\<open>get\<close> returns the pieces of the answer put together in order, with the status of the transfer;
  it changes nothing but the outside world. Without a curl handle the body is empty and the code has
  no value.\<close>

theorem get_returns_answer:
  assumes "curl_ok (e_curl e (tick w) (url_arg url))"
  shows "\<exists>r w1. get e url header w = Some (r, w1) \<and> fds w1 = fds w \<and> files w1 = files w \<and>
    res_body r = (if curl_init (e_curl e (tick w) (url_arg url))
      then concat (curl_body (e_curl e (tick w) (url_arg url))) else []) \<and>
    (res_code r = None \<longleftrightarrow> \<not> curl_init (e_curl e (tick w) (url_arg url)))"
  using assms by (auto simp: get_def Let_def deliver_ok curl_ok_def no_response_def emit_def)

theorem get_returns_answer_witness:
  "\<exists>r w1. get sample_env ''http://h/'' [] sample_world = Some (r, w1) \<and> res_body r = ''10.0.0.7''"
proof -
  have "curl_ok sample_run" by (simp add: sample_run_def curl_ok_def)
  with get_returns_answer [of sample_env sample_world "''http://h/''" "[]"] show ?thesis
    by (auto simp: sample_run_def)
qed

section \<open>JSON values\<close>

text \<open>C28: A string written under a key and read into a zeroed array that is longer comes back, as a C string;
  values under other keys stay what they were.\<close>

theorem json_string_roundtrip:
  assumes "json_laws J obj" "obj (m_root q)" "NUL \<notin> set s" "length s < n"
  shows "\<exists>r blk. WriteValueString J key (s @ [NUL]) q = Some r \<and>
    ReadValueString J key (replicate n NUL) r = Some (True, blk) \<and> c_str blk = Some s \<and>
    (\<forall>key' out. key' \<noteq> key \<longrightarrow> ReadValueInt J key' out r = ReadValueInt J key' out q)"
proof -
  let ?blk = "s @ replicate (n - length s) NUL"
  obtain r where r: "write_member J key (j_of_string J s) q = Some r"
    using write_member_total [OF assms(1,2)] by blast
  have "j_asCString J (j_of_string J s) = Some s" using assms(1,3) by (simp add: json_laws_def)
  then have "store_string J (replicate n NUL) (j_of_string J s) = Some ?blk"
    using copy_chars_zeroed [OF assms(3)] assms(4) by (simp add: store_string_def)
  then have "ReadValueString J key (replicate n NUL) r = Some (True, ?blk)"
    unfolding ReadValueString_def by (rule read_written [OF assms(1,2) r])
  moreover have "WriteValueString J key (s @ [NUL]) q = Some r"
    using r assms(3) c_str_terminated [of s "[]"] by (simp add: WriteValueString_def)
  moreover have "\<forall>key' out. key' \<noteq> key \<longrightarrow> ReadValueInt J key' out r = ReadValueInt J key' out q"
    unfolding ReadValueInt_def by (intro allI impI) (rule read_other [OF assms(1,2) r])
  ultimately show ?thesis using c_str_padded [OF assms(3,4)] by blast
qed

theorem json_string_roundtrip_witness:
  "\<exists>r blk. WriteValueString sample_json ''name'' (''vm1'' @ [NUL]) (CJsonParser_new sample_json) = Some r \<and>
     ReadValueString sample_json ''name'' (replicate 8 NUL) r = Some (True, blk) \<and> c_str blk = Some ''vm1''"
proof -
  have "jv_is_object (m_root (CJsonParser_new sample_json))"
    by (simp add: CJsonParser_new_def sample_json_def jv_is_object_def)
  moreover have "NUL \<notin> set ''vm1''" "length ''vm1'' < 8" by simp_all
  ultimately show ?thesis using json_string_roundtrip [OF sample_json_laws] by blast
qed

text \<open>\<open>ReadValueString\<close> copies without the terminating NUL and without a limit: into a block that holds
  a longer string the old tail stays behind the new value, and a value longer than the block is
  written past its end.\<close>

theorem ReadValueString_unterminated:
  assumes "j_isMember J (m_root q) key = Some True" "j_at J (m_root q) key = Some v" "j_asCString J v = Some s"
    and "NUL \<notin> set s" "NUL \<notin> set old"
  shows "(length s < length old \<longrightarrow>
      (\<exists>blk. ReadValueString J key (old @ [NUL]) q = Some (True, blk) \<and>
         c_str blk = Some (s @ drop (length s) old))) \<and>
    (length old + 1 < length s \<longrightarrow> ReadValueString J key (old @ [NUL]) q = None)"
  using copy_chars_stale [OF assms(4,5)] copy_chars_overflow [OF assms(4), of "old @ [NUL]"] assms(1-3)
  by (auto simp: ReadValueString_def read_member_def j_get_def store_string_def)

theorem ReadValueString_unterminated_witness:
  "\<exists>blk. ReadValueString sample_json ''k'' (''longer'' @ [NUL])
       (\<lparr>jp_strData = [], m_root = JObj [(''k'', JStr ''vm'')], jp_logflag = 0\<rparr>) = Some (True, blk) \<and>
     c_str blk = Some ''vmnger''"
proof -
  let ?q = "\<lparr>jp_strData = [], m_root = JObj [(''k'', JStr ''vm'')], jp_logflag = 0\<rparr>"
  have "j_isMember sample_json (m_root ?q) ''k'' = Some True" "j_at sample_json (m_root ?q) ''k'' = Some (JStr ''vm'')"
    "j_asCString sample_json (JStr ''vm'') = Some ''vm''"
    by (simp_all add: sample_json_def)
  note r = ReadValueString_unterminated [OF this]
  have "NUL \<notin> set ''vm''" "NUL \<notin> set ''longer''" "length ''vm'' < length ''longer''" "drop (length ''vm'') ''longer'' = ''nger''" "''vm'' @ ''nger'' = ''vmnger''"
    by simp_all
  with r [of "''longer''"] show ?thesis by metis
qed

end
