(* ===== verification/AliveOld.thy ===== *)
theory AliveOld
  imports PerfReport AliveCommands
begin

text \<open>
  bak/main_alive.cpp: the version of the alive thread before the one in main_alive.cpp. It keeps one
  connection in the variable \<open>sock\<close> of the thread for all its commands, and no command closes it. The
  name of the machine comes from \<open>gethostname\<close>, whose answers are the parameter \<open>hn\<close>, a function of the
  number of calls made so far like the answers of \<open>env\<close>.
\<close>

section \<open>Connecting\<close>

text \<open>The function of the same name in main_alive.cpp has the same steps.\<close>

definition old_ConnectToServer ::
  "env \<Rightarrow> string \<Rightarrow> int \<Rightarrow> world \<Rightarrow> (bool \<times> int \<times> world) option" where
  "old_ConnectToServer e addr prt w = (
     let (sock, w) = sys_socket e w in
     if sock = - 1 then Some (False, sock, w)
     else
       let (result, w) = sys_connect e sock addr (word_of_int prt) w in
       if result = - 1
       then do {
         w \<leftarrow> WriteErrorLog e ''ConnectToServer() - NOT CONNECT'' sock L0 w;
         let (_, w) = sys_close e sock w;
         Some (False, sock, w) }
       else do {
         let w = sys_setsockopt sock SO_KEEPALIVE 1 w;
         let w = sys_setsockopt sock TCP_NODELAY 1 w;
         let w = sys_setsockopt sock SO_RCVBUF SOCKET_BUFFER_SIZE w;
         let w = sys_setsockopt sock SO_SNDBUF SOCKET_BUFFER_SIZE w;
         let w = sys_setsockopt sock SO_LINGER 0 w;
         w \<leftarrow> WriteLog e ''ConnectToServer() SUCCESS'' sock L0 w;
         Some (True, sock, w) })"

lemma old_ConnectToServer_same: "old_ConnectToServer = ConnectToServer"
  by (intro ext) (simp only: old_ConnectToServer_def ConnectToServer_def set_options_def Let_def)

text \<open>The loop at the start of every round, \<open>n\<close> the number of attempts left; the last one pauses.\<close>

fun old_tries :: "env \<Rightarrow> conninfo \<Rightarrow> nat \<Rightarrow> int \<Rightarrow> world \<Rightarrow> (int \<times> world) option" where
  "old_tries e c 0 sock w = Some (sock, w)"
| "old_tries e c (Suc n) sock w =
     (if sock \<noteq> 0 then Some (sock, w)
      else do {
        (ok, sock, w) \<leftarrow> old_ConnectToServer e (ip c) (port c) w;
        (sock, w) \<leftarrow> (if ok then Some (sock, w)
                     else do {
                       w \<leftarrow> WriteErrorLog e ''Connect Error'' sock L0 w;
                       Some (0, w) });
        w \<leftarrow> (if n = 0
              then do {
                w \<leftarrow> WriteErrorLog e ''Connect try count exceed'' (- 1) L0 w;
                Some (sys_sleep 10 w) }
              else Some w);
        old_tries e c n sock w })"

section \<open>The commands\<close>

text \<open>\<open>gethostname\<close> into \<open>char host[128]\<close>: a name that does not fit is a failure.\<close>

definition sys_gethostname :: "(nat \<Rightarrow> string option) \<Rightarrow> world \<Rightarrow> char list option \<times> world" where
  "sys_gethostname hn w =
     (case hn (tick w) of
        None \<Rightarrow> (None, w\<lparr>tick := Suc (tick w)\<rparr>)
      | Some s \<Rightarrow> (if length s < 128 then Some (terminated s) else None, w\<lparr>tick := Suc (tick w)\<rparr>))"

text \<open>The end all commands share, from the first \<open>Write\<close> to the check of the error code.\<close>

definition old_request ::
  "env \<Rightarrow> int \<Rightarrow> int \<Rightarrow> arg list \<Rightarrow> world \<Rightarrow> (bool \<times> int \<times> world) option" where
  "old_request e command sock args w = do {
     (ok, send_packet) \<leftarrow> write_seq write_arg args
        (InitPacket3 CAT_REQUEST command sock (CPacket_new 0));
     if \<not> ok then Some (False, 0, w)
     else do {
       (ok, w) \<leftarrow> SendPacket e send_packet w;
       if \<not> ok then Some (False, 0, w)
       else do {
         (ok, receive_packet, w) \<leftarrow> ReceivePacket_Select e (InitPacket1 sock (CPacket_new 0)) w;
         if \<not> ok then Some (False, 0, w)
         else do {
           (ok, errorcode, receive_packet, w) \<leftarrow> ReadInt e 0 receive_packet w;
           if \<not> ok then Some (False, 0, w)
           else if \<not> IsEOD receive_packet then Some (False, 0, w)
           else if errorcode = ERR_FAILED then Some (False, 0, w)
           else Some (True, errorcode, w) } } } }"

definition old_heartbeat_report ::
  "env \<Rightarrow> (nat \<Rightarrow> string option) \<Rightarrow> int \<Rightarrow> int \<Rightarrow> char list option \<Rightarrow> world \<Rightarrow> (bool \<times> world) option" where
  "old_heartbeat_report e hn sock stype uid w = do {
     (ifap, w) \<leftarrow> sys_getifaddrs e w;
     l_szclient_ips \<leftarrow> client_ips ifap [];
     let (name, w) = sys_gethostname hn w;
     case name of
       None \<Rightarrow> Some (False, w)
     | Some hname \<Rightarrow> do {
         (ok, errorcode, w) \<leftarrow> old_request e REQ_REGISTRY_HEARTBEAT sock
           [AStr (Some hname), AInt stype, AStr uid, AStr (Some (terminated l_szclient_ips))] w;
         if \<not> ok then Some (False, w)
         else do {
           w \<leftarrow> WriteLog e ''CMD HEARTBEAT Response'' sock (L1 errorcode) w;
           Some (True, w) } } }"

definition old_alive_report ::
  "env \<Rightarrow> (nat \<Rightarrow> string option) \<Rightarrow> int \<Rightarrow> char list option \<Rightarrow> world \<Rightarrow> (bool \<times> world) option" where
  "old_alive_report e hn client_sockfd uid w = do {
     let (name, w) = sys_gethostname hn w;
     case name of
       None \<Rightarrow> Some (False, w)
     | Some hname \<Rightarrow> do {
         (ok, errorcode, w) \<leftarrow> old_request e REQ_ALIVE_STATUS client_sockfd [AStr (Some hname), AStr uid] w;
         Some (ok, w) } }"

definition old_refresh_info ::
  "env \<Rightarrow> (nat \<Rightarrow> string option) \<Rightarrow> int \<Rightarrow> int \<Rightarrow> char list option \<Rightarrow> world \<Rightarrow> (bool \<times> world) option" where
  "old_refresh_info e hn sock stype uid w = do {
     (ifap, w) \<leftarrow> sys_getifaddrs e w;
     l_szclient_ips \<leftarrow> client_ips ifap [];
     let (name, w) = sys_gethostname hn w;
     case name of
       None \<Rightarrow> Some (False, w)
     | Some hname \<Rightarrow> do {
         (ok, errorcode, w) \<leftarrow> old_request e REQ_REFRESH_INFO sock
           [AStr (Some hname), AInt stype, AStr uid, AStr (Some (terminated l_szclient_ips))] w;
         if \<not> ok then Some (False, w)
         else do {
           w \<leftarrow> WriteLog e ''CMD REFRESH_INFO Response'' sock (L1 errorcode) w;
           Some (True, w) } } }"

section \<open>The thread\<close>

definition OLD_REFRESH_INTERVAL :: nat where "OLD_REFRESH_INTERVAL = 3600"

record old_state =
  old_sock :: int
  old_ret :: bool
  old_refreshcnt :: nat

definition old_start :: old_state where
  "old_start = \<lparr>old_sock = 0, old_ret = False, old_refreshcnt = 0\<rparr>"

text \<open>One round of \<open>while(TRUE)\<close>.\<close>

definition old_round ::
  "env \<Rightarrow> (nat \<Rightarrow> string option) \<Rightarrow> conninfo \<Rightarrow> old_state \<Rightarrow> world \<Rightarrow> (old_state \<times> world) option" where
  "old_round e hn c s w = do {
     (sock, w) \<leftarrow> old_tries e c 100 (old_sock s) w;
     let s = s\<lparr>old_sock := sock\<rparr>;
     (s, w) \<leftarrow> (if \<not> old_ret s
                then do {
                  (r, w) \<leftarrow> old_heartbeat_report e hn sock (server_type c) (uuid c) w;
                  Some (s\<lparr>old_ret := r\<rparr>, w) }
                else Some (s, w));
     (ret2, w) \<leftarrow> old_alive_report e hn sock (uuid c) w;
     (s, w) \<leftarrow> (if old_refreshcnt s < OLD_REFRESH_INTERVAL
                then Some (s\<lparr>old_refreshcnt := old_refreshcnt s + 1\<rparr>, w)
                else do {
                  (ret2, w) \<leftarrow> old_refresh_info e hn sock (server_type c) (uuid c) w;
                  w \<leftarrow> WriteLog e ''Refresh Client Informs packet send'' sock L0 w;
                  Some (s\<lparr>old_refreshcnt := 0\<rparr>, w) });
     Some (s, sys_sleep 1 w) }"

fun old_rounds ::
  "nat \<Rightarrow> env \<Rightarrow> (nat \<Rightarrow> string option) \<Rightarrow> conninfo \<Rightarrow> old_state \<Rightarrow> world \<Rightarrow> (old_state \<times> world) option" where
  "old_rounds 0 e hn c s w = Some (s, w)"
| "old_rounds (Suc n) e hn c s w = do {
     (s, w) \<leftarrow> old_round e hn c s w;
     old_rounds n e hn c s w }"

definition old_alive_process_thread ::
  "nat \<Rightarrow> env \<Rightarrow> (nat \<Rightarrow> string option) \<Rightarrow> conninfo \<Rightarrow> world \<Rightarrow> (old_state \<times> world) option" where
  "old_alive_process_thread n e hn c w = do {
     w \<leftarrow> WriteLog e ''Start Alive'' (old_sock old_start) L0 w;
     old_rounds n e hn c old_start w }"

end
