(* ===== verification/AliveOldSpec.thy ===== *)
theory AliveOldSpec
  imports AliveOld Sample
begin

text \<open>
  What the old alive thread (bak/main_alive.cpp) does with its one connection: it keeps it, whatever
  becomes of it.
\<close>

section \<open>A standing connection\<close>

text \<open>
  From \<open>w\<close> to \<open>w1\<close> nothing has been opened, connected or closed; the only things done to the outside
  are writes on \<open>fd\<close> and pauses; \<open>fd\<close> has been read from the front. On a dead connection - closed, or
  every \<open>write\<close> fails from now on - nothing is written at all.
\<close>

definition dead :: "env \<Rightarrow> int \<Rightarrow> world \<Rightarrow> bool" where
  "dead e fd w \<longleftrightarrow> \<not> is_up fd w \<or> (\<forall>t\<ge>tick w. e_write e t = IoFail)"

definition stays :: "env \<Rightarrow> int \<Rightarrow> world \<Rightarrow> world \<Rightarrow> bool" where
  "stays e fd w w1 \<longleftrightarrow> AList.delete fd (fds w1) = AList.delete fd (fds w) \<and> open_fds w1 = open_fds w \<and>
     m_strLogPath w1 = m_strLogPath w \<and> tick w \<le> tick w1 \<and> is_up fd w1 = is_up fd w \<and>
     (\<exists>pre. pending fd w = pre @ pending fd w1) \<and>
     (\<exists>t. trace w1 = trace w @ t \<and> (\<forall>ev\<in>set t. writes_to fd ev \<or> (\<exists>n. ev = EvSleep n))) \<and>
     (dead e fd w \<longrightarrow> (\<forall>g. sent g w1 = sent g w))"

lemma stays_refl [simp]: "stays e fd w w"
  by (simp add: stays_def)

lemma stays_trans:
  assumes "stays e fd w w1" "stays e fd w1 w2"
  shows "stays e fd w w2"
proof -
  from assms obtain p1 p2 t1 t2 where
    "pending fd w = p1 @ pending fd w1" "pending fd w1 = p2 @ pending fd w2"
    "trace w1 = trace w @ t1" "trace w2 = trace w1 @ t2" and
    t: "\<forall>ev\<in>set t1. writes_to fd ev \<or> (\<exists>n. ev = EvSleep n)" "\<forall>ev\<in>set t2. writes_to fd ev \<or> (\<exists>n. ev = EvSleep n)"
    unfolding stays_def by blast
  then have "pending fd w = (p1 @ p2) @ pending fd w2" "trace w2 = trace w @ (t1 @ t2)" by simp_all
  moreover have "\<forall>ev\<in>set (t1 @ t2). writes_to fd ev \<or> (\<exists>n. ev = EvSleep n)" using t by auto
  ultimately have "\<exists>pre. pending fd w = pre @ pending fd w2"
    "\<exists>t. trace w2 = trace w @ t \<and> (\<forall>ev\<in>set t. writes_to fd ev \<or> (\<exists>n. ev = EvSleep n))" by blast+
  moreover have "dead e fd w \<Longrightarrow> dead e fd w1" using assms(1) by (auto simp: stays_def dead_def)
  ultimately show ?thesis using assms by (simp add: stays_def)
qed

lemma stays_calm: "calm w w1 \<Longrightarrow> stays e fd w w1"
  by (simp add: stays_def calm_keeps) (simp add: calm_def)

lemma stays_tick: "stays e fd w (w\<lparr>tick := Suc (tick w)\<rparr>)"
  by (simp add: stays_def pending_def is_up_def sent_def)

lemma stays_sleep: "stays e fd w (sys_sleep n w)"
  by (simp add: stays_def pending_def is_up_def sent_def sys_sleep_def emit_def written_def)

lemma stays_io:
  assumes io: "io fd w w1" and pre: "\<exists>pre. pending fd w = pre @ pending fd w1"
    and down: "dead e fd w \<Longrightarrow> sent fd w1 = sent fd w"
  shows "stays e fd w w1"
proof -
  have "sent g w1 = sent g w" if "dead e fd w" for g
    using io_sent_other [OF io, of g] down [OF that] by (cases "g = fd") auto
  with io pre show ?thesis by (auto simp: stays_def io_def)
qed

lemma stays_dead: "stays e fd w w1 \<Longrightarrow> dead e fd w \<Longrightarrow> dead e fd w1"
  by (auto simp: stays_def dead_def)

lemma stays_log_ok: "stays e fd w w1 \<Longrightarrow> log_ok e w \<Longrightarrow> log_ok e w1"
  by (simp add: stays_def log_ok_def)

lemma SendPacket_dead:
  assumes dead: "dead e (m_nClientSockfd p) w" and r: "SendPacket e p w = Some (ok, w1)"
  shows "\<not> ok" "sent g w1 = sent g w"
proof -
  obtain n w2 where wr: "sys_write e (m_nClientSockfd p) (packet_header (m_nDataPointer p + 10) p) w = (n, w2)"
    by (metis prod.exhaust)
  then have n: "n = - 1" "trace w2 = trace w"
    using dead by (auto simp: sys_write_def is_up_def dead_def Let_def split: option.splits if_splits)
  show "\<not> ok" using r wr n(1) by (auto simp: SendPacket_def Let_def bind_eq_Some_conv split: if_splits)
  have "trace v1 = trace v" if "WriteErrorLog e m s a v = Some v1" for m s a v v1
    using that by (auto simp: WriteErrorLog_def append_line_def wrote_line_def split: if_splits)
  then have "trace w1 = trace w"
    using r wr n by (auto simp: SendPacket_def Let_def bind_eq_Some_conv split: if_splits)
  then show "sent g w1 = sent g w" by (simp add: sent_def)
qed

text \<open>What the thread's connection must be like: bytes that do not reach the signed overflow, a descriptor \<open>select\<close>
  can watch.\<close>

definition sock_ok :: "int \<Rightarrow> world \<Rightarrow> bool" where
  "sock_ok fd w \<longleftrightarrow> clean_stream (pending fd w) \<and> (is_up fd w \<longrightarrow> 0 \<le> fd \<and> fd < 1024)"

lemma stays_sock_ok: "sock_ok fd w \<Longrightarrow> stays e fd w w1 \<Longrightarrow> sock_ok fd w1"
  using clean_stream_suffix by (auto simp: sock_ok_def stays_def)

lemma old_request_spec:
  assumes log: "log_ok e w" and args: "args_ok args" and s: "sock_ok fd w"
  shows "\<exists>ok ec w1. old_request e command fd args w = Some (ok, ec, w1) \<and> stays e fd w w1 \<and>
    (ok \<longrightarrow> \<not> dead e fd w \<and> sent fd w1 = sent fd w @ request_frame command args \<and>
      reports (pending fd w) ec \<and> ec \<noteq> ERR_FAILED)"
proof -
  let ?f = "request_frame command args" and ?p = "InitPacket1 fd (CPacket_new 0)"
  from written_request [OF args] obtain q where
    q: "write_seq write_arg args (InitPacket3 CAT_REQUEST command fd (CPacket_new 0)) = Some (True, q)"
       "wr_ok q" "m_nClientSockfd q = fd" "sent_frame q = ?f"
    by blast
  have sock: "m_nClientSockfd ?p = fd" by (simp add: InitPacket1_def)
  have up: "is_up fd w \<Longrightarrow> 0 \<le> fd \<and> fd < 1024" and clean: "clean_stream (pending fd w)"
    using s by (simp_all add: sock_ok_def)
  from send_receive [OF log q(2,3) sock clean up, unfolded q(4)] obtain ok w2 where
    snd: "SendPacket e q w = Some (ok, w2)" "io fd w w2" "pending fd w2 = pending fd w" and
    rec: "ok \<Longrightarrow> is_up fd w \<and> sent fd w2 = sent fd w @ ?f \<and>
      (\<exists>ok2 r w3. ReceivePacket_Select e ?p w2 = Some (ok2, r, w3) \<and> io fd w w3 \<and> sent fd w3 = sent fd w2 \<and>
        log_ok e w3 \<and> (\<exists>pre. pending fd w = pre @ pending fd w3) \<and>
        (ok2 \<longrightarrow> (\<exists>m1 m2 cat cmd rsv dat. int (length dat) + 10 \<le> INT_MAX \<and>
          pending fd w = wire_frame m1 m2 cat cmd rsv dat @ pending fd w3 \<and> r = received cat cmd dat ?p)))"
    by blast
  show ?thesis
  proof (cases ok)
    case False
    have "stays e fd w w2"
      using snd SendPacket_dead(2) [of e q w ok w2] q(3) by (intro stays_io) auto
    with False q(1) snd(1) show ?thesis by (auto simp: old_request_def)
  next
    case ok: True
    from rec [OF ok] obtain ok2 r w3 where
      u: "is_up fd w" "sent fd w2 = sent fd w @ ?f" and
      rc: "ReceivePacket_Select e ?p w2 = Some (ok2, r, w3)" "io fd w w3" "sent fd w3 = sent fd w2" "log_ok e w3"
        "\<exists>pre. pending fd w = pre @ pending fd w3" and
      dat: "ok2 \<Longrightarrow> \<exists>m1 m2 cat cmd rsv dat. int (length dat) + 10 \<le> INT_MAX \<and>
          pending fd w = wire_frame m1 m2 cat cmd rsv dat @ pending fd w3 \<and> r = received cat cmd dat ?p"
      by blast
    have alive: "\<not> dead e fd w" using SendPacket_dead(1) [OF _ snd(1)] q(3) ok by auto
    have st3: "stays e fd w w3" using rc(2,5) alive by (intro stays_io) auto
    show ?thesis
    proof (cases ok2)
      case False
      with q(1) snd(1) ok rc(1) st3 show ?thesis by (auto simp: old_request_def)
    next
      case True
      from dat [OF True] obtain m1 m2 cat cmd rsv dat where
        d: "int (length dat) + 10 \<le> INT_MAX"
           "pending fd w = wire_frame m1 m2 cat cmd rsv dat @ pending fd w3" "r = received cat cmd dat ?p"
        by blast
      have "int (length dat) \<le> INT_MAX" using d(1) by simp
      from ReadInt_first [OF this rc(4), of cat cmd ?p] obtain ok4 v p4 w4 where
        v: "ReadInt e 0 r w3 = Some (ok4, v, p4, w4)" "calm w3 w4"
           "ok4 \<longrightarrow> (\<exists>x tail. dat = be32 x @ tail \<and> v = sint x)"
        unfolding d(3) by blast
      have "stays e fd w w4" using stays_trans [OF st3 stays_calm [OF v(2)]] .
      moreover have "sent fd w4 = sent fd w @ ?f" using rc(3) u(2) calm_keeps(5) [OF v(2)] by simp
      moreover have "ok4 \<longrightarrow> reports (pending fd w) v"
        using v(3) d(2) unfolding reports_def by metis
      ultimately show ?thesis using q(1) snd(1) ok rc(1) True v(1) alive
        by (auto simp: old_request_def)
    qed
  qed
qed

section \<open>The commands\<close>

definition names_ok :: "(nat \<Rightarrow> string option) \<Rightarrow> bool" where
  "names_ok hn \<longleftrightarrow> (\<forall>t s. hn t = Some s \<longrightarrow> NUL \<notin> set s)"

lemma sys_gethostname_cases:
  assumes "names_ok hn"
  obtains w1 where "sys_gethostname hn w = (None, w1)" "stays e fd w w1"
  | s w1 where "sys_gethostname hn w = (Some (terminated s), w1)" "stays e fd w w1" "length s < 128" "NUL \<notin> set s"
proof (cases "hn (tick w)")
  case None
  then show ?thesis using that(1) stays_tick by (simp add: sys_gethostname_def)
next
  case (Some s)
  then show ?thesis using that assms stays_tick
    by (cases "length s < 128") (auto simp: sys_gethostname_def names_ok_def)
qed

text \<open>The outcome of a command: the connection stays, and success means that it was not dead.\<close>

definition old_outcome :: "env \<Rightarrow> int \<Rightarrow> world \<Rightarrow> bool \<Rightarrow> world \<Rightarrow> bool" where
  "old_outcome e fd w ok w1 \<longleftrightarrow> stays e fd w w1 \<and> (ok \<longrightarrow> \<not> dead e fd w)"

lemma old_args_ok:
  assumes "length h < 128" "NUL \<notin> set h" "set_string u" "length ips < 256" "NUL \<notin> set ips"
  shows "args_ok [AStr (Some (terminated h)), AInt n, AStr u, AStr (Some (terminated ips))]"
    and "args_ok [AStr (Some (terminated h)), AStr u]"
  using assms set_string_arg [of u] by (auto simp: args_ok_def)

lemma old_alive_report_spec:
  assumes log: "log_ok e w" and s: "sock_ok fd w" and hn: "names_ok hn" and u: "set_string u"
  shows "\<exists>ok w1. old_alive_report e hn fd u w = Some (ok, w1) \<and> old_outcome e fd w ok w1"
  using hn
proof (cases rule: sys_gethostname_cases [where e = e and w = w and fd = fd])
  case (1 w1)
  then show ?thesis by (simp add: old_alive_report_def old_outcome_def ex_bool_eq)
next
  case (2 h w1)
  from old_args_ok(2) [OF 2(3,4) u, of "[]"]
  have "args_ok [AStr (Some (terminated h)), AStr u]" by simp
  from old_request_spec [OF stays_log_ok [OF 2(2) log] this stays_sock_ok [OF s 2(2)], of REQ_ALIVE_STATUS]
  obtain ok ec w2 where
    "old_request e REQ_ALIVE_STATUS fd [AStr (Some (terminated h)), AStr u] w1 = Some (ok, ec, w2)"
    "stays e fd w1 w2" "ok \<longrightarrow> \<not> dead e fd w1" by blast
  moreover have "dead e fd w \<longrightarrow> dead e fd w1" using stays_dead [OF 2(2)] by blast
  ultimately show ?thesis using 2(1) stays_trans [OF 2(2)]
    by (auto simp: old_alive_report_def old_outcome_def)
qed

text \<open>The two commands that send the addresses differ in their number and their log line.\<close>

definition old_addresses ::
  "env \<Rightarrow> (nat \<Rightarrow> string option) \<Rightarrow> int \<Rightarrow> string \<Rightarrow> int \<Rightarrow> int \<Rightarrow> char list option \<Rightarrow> world \<Rightarrow> (bool \<times> world) option" where
  "old_addresses e hn command line sock stype uid w = do {
     (ifap, w) \<leftarrow> sys_getifaddrs e w;
     l_szclient_ips \<leftarrow> client_ips ifap [];
     let (name, w) = sys_gethostname hn w;
     case name of
       None \<Rightarrow> Some (False, w)
     | Some hname \<Rightarrow> do {
         (ok, errorcode, w) \<leftarrow> old_request e command sock
           [AStr (Some hname), AInt stype, AStr uid, AStr (Some (terminated l_szclient_ips))] w;
         if \<not> ok then Some (False, w)
         else do {
           w \<leftarrow> WriteLog e line sock (L1 errorcode) w;
           Some (True, w) } } }"

lemma old_reports:
  "old_heartbeat_report e hn = old_addresses e hn REQ_REGISTRY_HEARTBEAT ''CMD HEARTBEAT Response''"
  "old_refresh_info e hn = old_addresses e hn REQ_REFRESH_INFO ''CMD REFRESH_INFO Response''"
  by (intro ext; simp only: old_heartbeat_report_def old_refresh_info_def old_addresses_def)+

lemma old_addresses_spec:
  assumes log: "log_ok e w" and s: "sock_ok fd w" and hn: "names_ok hn" and u: "set_string u" and ifs: "ifs_ok e"
  shows "\<exists>ok w1. old_addresses e hn command line fd n u w = Some (ok, w1) \<and> old_outcome e fd w ok w1"
proof -
  let ?w0 = "w\<lparr>tick := Suc (tick w)\<rparr>"
  from ifs obtain il where il: "e_ifaddrs e (tick w) = Some il" "interfaces_ok il" unfolding ifs_ok_def by blast
  have g: "sys_getifaddrs e w = Some (il, ?w0)" using il(1) by (simp add: sys_getifaddrs_def)
  note ips = client_ips_ok [OF il(2)]
  have st0: "stays e fd w ?w0" by (rule stays_tick)
  show ?thesis using hn
  proof (cases rule: sys_gethostname_cases [where e = e and w = ?w0 and fd = fd])
    case (1 w1)
    with g ips stays_trans [OF st0] show ?thesis by (auto simp: old_addresses_def old_outcome_def ex_bool_eq)
  next
    case (2 h w1)
    have st1: "stays e fd w w1" using stays_trans [OF st0 2(2)] .
    have "length (ip_list il) < 256" using il(2) by (simp add: interfaces_ok_def)
    note args = old_args_ok(1) [OF 2(3,4) u this ip_list_no_NUL [OF il(2)], of n]
    from old_request_spec [OF stays_log_ok [OF st1 log] args stays_sock_ok [OF s st1], of command]
    obtain ok ec w2 where
      r: "old_request e command fd
        [AStr (Some (terminated h)), AInt n, AStr u, AStr (Some (terminated (ip_list il)))] w1 = Some (ok, ec, w2)"
      "stays e fd w1 w2" "ok \<longrightarrow> \<not> dead e fd w1" by blast
    have st2: "stays e fd w w2" using stays_trans [OF st1 r(2)] .
    have up: "ok \<longrightarrow> \<not> dead e fd w" using r(3) stays_dead [OF st1] by blast
    have log2: "log_ok e w2" using stays_log_ok [OF st2 log] .
    have "stays e fd w (logged e line fd (L1 ec) w2)"
      using stays_trans [OF st2 stays_calm [OF logged_calm(1)]] .
    with g ips 2(1) r(1) st2 up log2 show ?thesis
      by (cases ok) (auto simp: old_addresses_def old_outcome_def ex_bool_eq)
  qed
qed

section \<open>The thread\<close>

lemma old_tries_connected: "sock \<noteq> 0 \<Longrightarrow> old_tries e c n sock w = Some (sock, w)"
  by (cases n) simp_all

lemma old_round_spec:
  assumes "log_ok e w" "sock_ok fd w" "names_ok hn" "set_string (uuid c)" "ifs_ok e"
    and s: "old_sock s = fd" "fd \<noteq> 0"
  shows "\<exists>s1 w1. old_round e hn c s w = Some (s1, w1) \<and> old_sock s1 = fd \<and> stays e fd w w1 \<and>
    (dead e fd w \<longrightarrow> old_ret s1 = old_ret s)"
proof -
  note still_ok = stays_log_ok [OF _ assms(1)] stays_sock_ok [OF assms(2)]
  have hb: "\<exists>ok w2. old_addresses e hn cmd line fd n (uuid c) w1 = Some (ok, w2) \<and> stays e fd w w2 \<and>
      (ok \<longrightarrow> \<not> dead e fd w)" if "stays e fd w w1" for w1 cmd line n
    using old_addresses_spec [OF still_ok(1) [OF that] still_ok(2) [OF that] assms(3-5)] stays_trans [OF that] that
    stays_dead [OF that] unfolding old_outcome_def by metis
  have al: "\<exists>ok w2. old_alive_report e hn fd (uuid c) w1 = Some (ok, w2) \<and> stays e fd w w2" if "stays e fd w w1" for w1
    using old_alive_report_spec [OF still_ok(1) [OF that] still_ok(2) [OF that] assms(3,4)] stays_trans [OF that]
    unfolding old_outcome_def by blast
  let ?beat = "\<lambda>s w. if \<not> old_ret s
                then do {
                  (r, w) \<leftarrow> old_heartbeat_report e hn fd (server_type c) (uuid c) w;
                  Some (s\<lparr>old_ret := r\<rparr>, w) }
                else Some (s, w)"
  have "\<exists>r w1. ?beat s w = Some (s\<lparr>old_ret := r\<rparr>, w1) \<and> stays e fd w w1 \<and> (dead e fd w \<longrightarrow> r = old_ret s)"
  proof (cases "old_ret s")
    case True
    then have "?beat s w = Some (s\<lparr>old_ret := True\<rparr>, w)" by simp
    with True stays_refl show ?thesis by blast
  next
    case False
    from hb [OF stays_refl] obtain r w1 where
      "old_heartbeat_report e hn fd (server_type c) (uuid c) w = Some (r, w1)" "stays e fd w w1" "r \<longrightarrow> \<not> dead e fd w"
      unfolding old_reports by blast
    with False show ?thesis by auto
  qed
  then obtain r w1 where 1: "?beat s w = Some (s\<lparr>old_ret := r\<rparr>, w1)" "stays e fd w w1"
    "dead e fd w \<longrightarrow> r = old_ret s" by blast
  from al [OF 1(2)] obtain r2 w2 where
    2: "old_alive_report e hn fd (uuid c) w1 = Some (r2, w2)" "stays e fd w w2" by blast
  let ?refresh = "\<lambda>s w. if old_refreshcnt s < OLD_REFRESH_INTERVAL
                then Some (s\<lparr>old_refreshcnt := old_refreshcnt s + 1\<rparr>, w)
                else do {
                  (ret2, w) \<leftarrow> old_refresh_info e hn fd (server_type c) (uuid c) w;
                  w \<leftarrow> WriteLog e ''Refresh Client Informs packet send'' fd L0 w;
                  Some (s\<lparr>old_refreshcnt := 0\<rparr>, w) }"
  have "\<exists>k w3. ?refresh (s\<lparr>old_ret := r\<rparr>) w2 = Some (s\<lparr>old_ret := r, old_refreshcnt := k\<rparr>, w3) \<and> stays e fd w w3"
  proof (cases "old_refreshcnt s < OLD_REFRESH_INTERVAL")
    case True
    with 2(2) show ?thesis by auto
  next
    case False
    from hb [OF 2(2)] obtain ok w3 where
      3: "old_refresh_info e hn fd (server_type c) (uuid c) w2 = Some (ok, w3)" "stays e fd w w3"
      unfolding old_reports by blast
    have "log_ok e w3" using still_ok(1) [OF 3(2)] .
    with False 3 stays_trans [OF 3(2) stays_calm [OF logged_calm(1)]] show ?thesis by auto
  qed
  then obtain k w3 where 3: "?refresh (s\<lparr>old_ret := r\<rparr>) w2 = Some (s\<lparr>old_ret := r, old_refreshcnt := k\<rparr>, w3)"
    "stays e fd w w3" by blast
  have "s\<lparr>old_sock := fd\<rparr> = s" using s(1) by (cases s) simp
  then have "old_round e hn c s w = Some (s\<lparr>old_ret := r, old_refreshcnt := k\<rparr>, sys_sleep 1 w3)"
    unfolding old_round_def s(1) old_tries_connected [OF s(2)] using 1(1) 2(1) 3(1) by simp
  moreover have "stays e fd w (sys_sleep 1 w3)" using stays_trans [OF 3(2) stays_sleep] .
  ultimately show ?thesis using s(1) 1(3) by auto
qed

lemma old_rounds_spec:
  assumes "log_ok e w" "sock_ok fd w" "names_ok hn" "set_string (uuid c)" "ifs_ok e" "old_sock s = fd" "fd \<noteq> 0"
  shows "\<exists>s1 w1. old_rounds n e hn c s w = Some (s1, w1) \<and> old_sock s1 = fd \<and> stays e fd w w1 \<and>
    (dead e fd w \<longrightarrow> old_ret s1 = old_ret s)"
  using assms
proof (induction n arbitrary: s w)
  case (Suc n)
  from old_round_spec [OF Suc.prems] obtain s1 w1 where
    1: "old_round e hn c s w = Some (s1, w1)" "old_sock s1 = fd" "stays e fd w w1"
      "dead e fd w \<longrightarrow> old_ret s1 = old_ret s" by blast
  from Suc.IH [OF stays_log_ok [OF 1(3) Suc.prems(1)] stays_sock_ok [OF Suc.prems(2) 1(3)] Suc.prems(3-5) 1(2) Suc.prems(7)]
  obtain s2 w2 where
    "old_rounds n e hn c s1 w1 = Some (s2, w2)" "old_sock s2 = fd" "stays e fd w1 w2"
      "dead e fd w1 \<longrightarrow> old_ret s2 = old_ret s1" by blast
  with 1 stays_trans [OF 1(3)] stays_dead [OF 1(3)] show ?case by auto
qed simp

text \<open>C40: The old alive thread keeps its connection for good: once \<open>sock\<close> is set, any number of rounds runs without
  undefined behaviour, opens, connects and closes nothing, and leaves \<open>sock\<close> as it is; all it does to the
  outside is write on it and pause. On a dead connection - the descriptor is closed, or every \<open>write\<close>
  fails since the manager has gone away - it therefore never sends a byte again, to anybody, and never connects
  anew: this is what the version in main_alive.cpp, with a connection for each command, repairs.\<close>

theorem old_thread_keeps_connection:
  assumes "log_ok e w" "sock_ok fd w" "names_ok hn" "set_string (uuid c)" "ifs_ok e" "old_sock s = fd" "fd \<noteq> 0"
  shows "\<exists>s1 w1. old_rounds n e hn c s w = Some (s1, w1) \<and> old_sock s1 = fd \<and> open_fds w1 = open_fds w \<and>
    (\<exists>t. trace w1 = trace w @ t \<and> (\<forall>ev\<in>set t. writes_to fd ev \<or> (\<exists>n. ev = EvSleep n))) \<and>
    (dead e fd w \<longrightarrow> old_ret s1 = old_ret s \<and> (\<forall>g. sent g w1 = sent g w))"
  using old_rounds_spec [OF assms, of n] unfolding stays_def by blast

definition sample_hn :: "nat \<Rightarrow> string option" where
  "sample_hn t = Some ''vm1''"

definition gone_env :: env where
  "gone_env = sample_env\<lparr>e_write := (\<lambda>_. IoFail)\<rparr>"

theorem old_thread_keeps_connection_witness:
  "\<exists>s1 w1. old_rounds 100000 gone_env sample_hn sample_info (old_start\<lparr>old_sock := 5\<rparr>) (open_world []) = Some (s1, w1) \<and>
     old_sock s1 = 5 \<and> open_fds w1 = {5} \<and> (\<forall>g. sent g w1 = [])"
proof -
  have "log_ok gone_env (open_world [])" by (simp add: log_ok_def gone_env_def)
  moreover have "sock_ok 5 (open_world [])"
    by (simp add: sock_ok_def clean_stream_def good_version_def)
  moreover have "names_ok sample_hn" by (simp add: names_ok_def sample_hn_def)
  moreover have "set_string (uuid sample_info)"
    by (simp add: sample_info_def set_string_def field_len_def)
  moreover have "ifs_ok gone_env"
    by (simp add: ifs_ok_def interfaces_ok_def sample_ifs_def ip_list_def ip_entry_def gone_env_def)
  moreover have "dead gone_env 5 (open_world [])" by (simp add: dead_def gone_env_def)
  moreover have "open_fds (open_world []) = {5}" by (simp add: keys_def)
  ultimately show ?thesis
    using old_thread_keeps_connection
      [of gone_env "open_world []" 5 sample_hn sample_info "old_start\<lparr>old_sock := 5\<rparr>" 100000]
    by auto
qed

end
