(* ===== verification/AQueue.thy ===== *)
theory AQueue
  imports C_Prelude
begin

text \<open>
  \<open>AQueue\<close> (inc/aqueue.h): a ring buffer behind a mutex. \<open>m_nHead\<close> is the slot the next item goes
  to, \<open>m_nTail\<close> the slot the next item is taken from; equal means empty, so that one slot always
  stays free. When an item is added to a full queue the oldest one is lost. \<open>Begin\<close> and \<open>End\<close>
  bracket a transaction of the producer, \<open>SetLast\<close> moves the consumer to the last one.

  A member that holds -1 for "none" is an option here. A slot is \<open>None\<close> until it is assigned to:
  \<open>new DItem[m_nMax]\<close> leaves it indeterminate. A pointer to a slot is its index. Locking a mutex
  that is held blocks, which is a result of its own.
\<close>

section \<open>The object\<close>

datatype 'r outcome = Done 'r | Blocked | Undefined

record 'a aqueue =
  m_szName :: string
  m_nMax :: nat
  m_pqList :: "'a option list option"
  m_nHead :: nat
  m_nTail :: nat
  m_nBegin :: "nat option"
  m_nEnd :: "nat option"
  m_nLast :: "nat option"
  m_nCount :: int
  m_nLoss :: int
  m_mLock :: bool
  m_bLock :: bool

definition AQueue_new :: "'a aqueue" where
  "AQueue_new =
     \<lparr>m_szName = [], m_nMax = 0, m_pqList = None, m_nHead = 0, m_nTail = 0, m_nBegin = None,
      m_nEnd = None, m_nLast = None, m_nCount = 0, m_nLoss = 0, m_mLock = False, m_bLock = False\<rparr>"

text \<open>\<open>strncpy(m_szName, pName, 31)\<close>; a null \<open>pName\<close> is \<open>None\<close>.\<close>

definition SetMax :: "int \<Rightarrow> string option \<Rightarrow> 'a aqueue \<Rightarrow> int \<times> 'a aqueue" where
  "SetMax nMax pName q =
     (let (nRet, q) =
        (if 0 < nMax
         then (nMax, q\<lparr>m_nMax := nat nMax, m_pqList := Some (replicate (nat nMax) None)\<rparr>)
         else (0, q));
          q = (case pName of None \<Rightarrow> q | Some s \<Rightarrow> q\<lparr>m_szName := take 31 s\<rparr>)
      in (nRet, q))"

definition GetMax :: "'a aqueue \<Rightarrow> int" where
  "GetMax q = int (m_nMax q)"

definition IsEmpty :: "'a aqueue \<Rightarrow> bool" where
  "IsEmpty q \<longleftrightarrow> \<not> 0 < m_nCount q"

definition GetCount :: "'a aqueue \<Rightarrow> int" where
  "GetCount q = m_nCount q"

definition GetLoss :: "'a aqueue \<Rightarrow> int" where
  "GetLoss q = m_nLoss q"

definition Empty :: "'a aqueue \<Rightarrow> 'a aqueue outcome" where
  "Empty q =
     (if m_mLock q then Blocked
      else Done (q\<lparr>m_nHead := 0, m_nTail := 0, m_nCount := 0, m_nLoss := 0\<rparr>))"

text \<open>\<open>&m_pqList[i]\<close>, which must point into the array or just behind it.\<close>

definition slot :: "nat \<Rightarrow> 'a aqueue \<Rightarrow> nat option outcome" where
  "slot i q = (if i \<le> m_nMax q then Done (Some i) else Undefined)"

definition GetCur :: "'a aqueue \<Rightarrow> nat option outcome" where
  "GetCur q =
     (if m_mLock q then Blocked
      else if m_pqList q \<noteq> None \<and> m_nHead q \<noteq> m_nTail q then slot (m_nTail q) q
      else Done None)"

definition GetNext :: "'a aqueue \<Rightarrow> (nat option \<times> 'a aqueue) outcome" where
  "GetNext q =
     (if m_mLock q then Blocked
      else
        let nLast = (case m_nLast q of None \<Rightarrow> m_nHead q | Some l \<Rightarrow> l) in
        if m_pqList q \<noteq> None \<and> nLast \<noteq> m_nTail q
        then (case (slot (m_nTail q) q, c_int (m_nCount q - 1)) of
                (Done p, Some n) \<Rightarrow>
                  Done (p, q\<lparr>m_nTail := (m_nTail q + 1) mod m_nMax q, m_nCount := n\<rparr>)
              | _ \<Rightarrow> Undefined)
        else Done (None, q\<lparr>m_nLast := None\<rparr>))"

definition GetHead :: "'a aqueue \<Rightarrow> nat option outcome" where
  "GetHead q =
     (if m_mLock q then Blocked
      else if m_pqList q \<noteq> None \<and> 0 < m_nHead q then slot (m_nHead q - 1) q
      else Done None)"

text \<open>Inside a transaction the lock is held already and is not taken again.\<close>

definition AddTail :: "'a \<Rightarrow> 'a aqueue \<Rightarrow> (int \<times> 'a aqueue) outcome" where
  "AddTail item q =
     (case m_pqList q of
        None \<Rightarrow> Done (0, q)
      | Some l \<Rightarrow>
          if \<not> m_bLock q \<and> m_mLock q then Blocked
          else if length l \<le> m_nHead q then Undefined
          else
            let q = q\<lparr>m_pqList := Some (l[m_nHead q := Some item]),
                      m_nHead := (m_nHead q + 1) mod m_nMax q\<rparr> in
            if m_nHead q = m_nTail q
            then (case c_int (m_nLoss q + 1) of
                    None \<Rightarrow> Undefined
                  | Some n \<Rightarrow>
                      Done (m_nCount q, q\<lparr>m_nTail := (m_nTail q + 1) mod m_nMax q, m_nLoss := n\<rparr>))
            else (case c_int (m_nCount q + 1) of
                    None \<Rightarrow> Undefined
                  | Some n \<Rightarrow> Done (n, q\<lparr>m_nCount := n\<rparr>)))"

definition Begin :: "'a aqueue \<Rightarrow> 'a aqueue outcome" where
  "Begin q =
     (if m_mLock q then Blocked
      else Done (q\<lparr>m_mLock := True, m_bLock := True, m_nBegin := Some (m_nHead q)\<rparr>))"

text \<open>Unlocking a mutex that is not locked is undefined.\<close>

definition End :: "'a aqueue \<Rightarrow> 'a aqueue outcome" where
  "End q =
     (if \<not> m_mLock q then Undefined
      else Done (q\<lparr>m_nEnd := Some (m_nHead q), m_mLock := False, m_bLock := False\<rparr>))"

definition SetLast :: "'a aqueue \<Rightarrow> (int \<times> 'a aqueue) outcome" where
  "SetLast q =
     (if m_mLock q then Blocked
      else
        let q = q\<lparr>m_nLast := None\<rparr>;
            q = (case m_nBegin q of None \<Rightarrow> q | Some b \<Rightarrow> q\<lparr>m_nTail := b, m_nBegin := None\<rparr>);
            q = (case m_nEnd q of None \<Rightarrow> q | Some f \<Rightarrow> q\<lparr>m_nLast := Some f, m_nEnd := None\<rparr>)
        in Done (case m_nLast q of None \<Rightarrow> - 1 | Some l \<Rightarrow> int l, q))"

text \<open>The item a pointer points to.\<close>

definition item_at :: "nat \<Rightarrow> 'a aqueue \<Rightarrow> 'a option" where
  "item_at i q =
     (case m_pqList q of None \<Rightarrow> None | Some l \<Rightarrow> if i < length l then l ! i else None)"

end
