(* ===== verification/AQueueRing.thy ===== *)
theory AQueueRing
  imports AQueue
begin

text \<open>
  The ring: which slots are in use, what they hold, and how each operation of \<open>AQueue\<close> changes
  the sequence of items between tail and head.
\<close>

section \<open>Distances on a ring\<close>

definition dist :: "nat \<Rightarrow> nat \<Rightarrow> nat \<Rightarrow> nat" where
  "dist M a b = (if a \<le> b then b - a else b + M - a)"

lemma ring_add:
  fixes a M :: nat
  assumes "a < M" "j \<le> M"
  shows "(a + j) mod M = (if a + j < M then a + j else a + j - M)"
proof (cases "a + j < M")
  case False
  then have "(a + j) mod M = (a + j - M) mod M" by (intro le_mod_geq) simp
  moreover have "a + j - M < M" using assms False by linarith
  ultimately show ?thesis using False by simp
qed simp

lemma dist_less [simp]: "a < M \<Longrightarrow> b < M \<Longrightarrow> dist M a b < M"
  by (auto simp: dist_def)

lemma dist_eq_0 [simp]: "a < M \<Longrightarrow> b < M \<Longrightarrow> dist M a b = 0 \<longleftrightarrow> a = b"
  by (auto simp: dist_def)

lemma dist_self [simp]: "dist M a a = 0"
  by (simp add: dist_def)

lemma dist_next:
  "a < M \<Longrightarrow> b < M \<Longrightarrow>
   dist M a (Suc b mod M) = (if Suc b mod M = a then 0 else Suc (dist M a b))"
  using ring_add [of b M 1] by (auto simp: dist_def split: if_splits)

lemma dist_full: "a < M \<Longrightarrow> b < M \<Longrightarrow> Suc b mod M = a \<Longrightarrow> dist M a b = M - 1"
  using ring_add [of b M 1] by (auto simp: dist_def split: if_splits)

lemma dist_drop: "a < M \<Longrightarrow> b < M \<Longrightarrow> a \<noteq> b \<Longrightarrow> dist M (Suc a mod M) b = dist M a b - 1"
  using ring_add [of a M 1] by (auto simp: dist_def split: if_splits)

lemma dist_reach: "a < M \<Longrightarrow> b < M \<Longrightarrow> (a + dist M a b) mod M = b"
  using ring_add [of a M "dist M a b"] dist_less [of a M b]
  by (auto simp: dist_def split: if_splits)

lemma dist_inject: "a < M \<Longrightarrow> j < M \<Longrightarrow> dist M a ((a + j) mod M) = j"
  using ring_add [of a M j] by (auto simp: dist_def split: if_splits)

section \<open>The items on a stretch of the ring\<close>

definition stretch :: "nat \<Rightarrow> nat \<Rightarrow> 'a aqueue \<Rightarrow> 'a option list" where
  "stretch i n q = map (\<lambda>j. item_at ((i + j) mod m_nMax q) q) [0..<n]"

lemma length_stretch [simp]: "length (stretch i n q) = n"
  by (simp add: stretch_def)

lemma stretch_0 [simp]: "stretch i 0 q = []"
  by (simp add: stretch_def)

lemma stretch_snoc: "stretch i (Suc n) q = stretch i n q @ [item_at ((i + n) mod m_nMax q) q]"
  by (simp add: stretch_def)

lemma stretch_Cons:
  "stretch i (Suc n) q = item_at (i mod m_nMax q) q # stretch (Suc i mod m_nMax q) n q"
proof -
  have "[0..<Suc n] = 0 # map Suc [0..<n]"
    by (simp add: map_Suc_upt upt_conv_Cons)
  then show ?thesis by (simp add: stretch_def mod_simps)
qed

lemma stretch_cong:
  "m_nMax q' = m_nMax q \<Longrightarrow>
   (\<And>j. j < n \<Longrightarrow> item_at ((i + j) mod m_nMax q) q' = item_at ((i + j) mod m_nMax q) q) \<Longrightarrow>
   stretch i n q' = stretch i n q"
  by (simp add: stretch_def)

section \<open>A queue in order\<close>

definition used :: "'a aqueue \<Rightarrow> nat" where
  "used q = dist (m_nMax q) (m_nTail q) (m_nHead q)"

text \<open>The array is there, the positions are inside it, the slots from tail to head are assigned.\<close>

definition ring_ok :: "'a aqueue \<Rightarrow> bool" where
  "ring_ok q \<longleftrightarrow> (\<exists>l. m_pqList q = Some l \<and> length l = m_nMax q) \<and>
     m_nHead q < m_nMax q \<and> m_nTail q < m_nMax q"

definition holds :: "'a aqueue \<Rightarrow> 'a list \<Rightarrow> bool" where
  "holds q xs \<longleftrightarrow> ring_ok q \<and> stretch (m_nTail q) (used q) q = map Some xs"

lemma holds_length: "holds q xs \<Longrightarrow> length xs = used q"
  unfolding holds_def by (metis length_map length_stretch)

lemma holds_unique: "holds q xs \<Longrightarrow> holds q ys \<Longrightarrow> xs = ys"
  unfolding holds_def by (metis list.inj_map_strong option.inject)

lemma ring_less: "ring_ok q \<Longrightarrow> used q < m_nMax q"
  by (simp add: ring_ok_def used_def)

text \<open>Storing an item at the head and advancing.\<close>

definition pushed :: "'a \<Rightarrow> 'a aqueue \<Rightarrow> 'a aqueue" where
  "pushed x q = q\<lparr>m_pqList := map_option (\<lambda>l. l[m_nHead q := Some x]) (m_pqList q),
     m_nHead := Suc (m_nHead q) mod m_nMax q\<rparr>"

lemma pushed_fields [simp]:
  "m_nMax (pushed x q) = m_nMax q" "m_nTail (pushed x q) = m_nTail q"
  "m_nHead (pushed x q) = Suc (m_nHead q) mod m_nMax q" "m_nCount (pushed x q) = m_nCount q"
  "m_nLoss (pushed x q) = m_nLoss q" "m_mLock (pushed x q) = m_mLock q" "m_bLock (pushed x q) = m_bLock q"
  "m_nBegin (pushed x q) = m_nBegin q" "m_nEnd (pushed x q) = m_nEnd q" "m_nLast (pushed x q) = m_nLast q"
  by (simp_all add: pushed_def)

lemma item_at_pushed:
  "ring_ok q \<Longrightarrow> item_at i (pushed x q) = (if i = m_nHead q then Some x else item_at i q)"
  by (auto simp: ring_ok_def item_at_def pushed_def)

lemma ring_ok_pushed [simp]: "ring_ok q \<Longrightarrow> ring_ok (pushed x q)"
  by (auto simp: ring_ok_def pushed_def)

lemma stretch_pushed_old:
  assumes q: "ring_ok q" and i: "i < m_nMax q" and n: "n \<le> dist (m_nMax q) i (m_nHead q)"
  shows "stretch i n (pushed x q) = stretch i n q"
proof (rule stretch_cong)
  fix j assume j: "j < n"
  have h: "m_nHead q < m_nMax q" using q by (simp add: ring_ok_def)
  then have "j < m_nMax q" using j n dist_less [OF i h] by simp
  then have "dist (m_nMax q) i ((i + j) mod m_nMax q) = j" using dist_inject [OF i] by blast
  then have "(i + j) mod m_nMax q \<noteq> m_nHead q" using j n by auto
  then show "item_at ((i + j) mod m_nMax q) (pushed x q) = item_at ((i + j) mod m_nMax q) q"
    using item_at_pushed [OF q] by simp
qed simp

text \<open>The stretch up to the head grows by the item.\<close>

lemma stretch_pushed:
  assumes q: "ring_ok q" and i: "i < m_nMax q"
  shows "stretch i (Suc (dist (m_nMax q) i (m_nHead q))) (pushed x q) =
    stretch i (dist (m_nMax q) i (m_nHead q)) q @ [Some x]"
proof -
  have h: "m_nHead q < m_nMax q" using q by (simp add: ring_ok_def)
  show ?thesis
    unfolding stretch_snoc stretch_pushed_old [OF q i order_refl]
    using dist_reach [OF i h] item_at_pushed [OF q] by simp
qed

end
