(* ===== verification/AQueueFifo.thy ===== *)
theory AQueueFifo
  imports AQueueRing
begin

text \<open>
  The contract of a lossy queue - first in, first out, the oldest item lost when there is no
  room - as a locale with the behaviour of whole runs of operations proved from it, and the proof
  that \<open>AddTail\<close> and \<open>GetNext\<close> keep it.
\<close>

section \<open>The abstract queue\<close>

datatype 'x qop = Put 'x | Get

text \<open>A queue of the \<open>cap\<close> latest items.\<close>

fun queue_step :: "nat \<Rightarrow> 'x qop \<Rightarrow> 'x list \<Rightarrow> 'x option list \<times> 'x list" where
  "queue_step cap (Put x) xs = ([], drop (Suc (length xs) - cap) (xs @ [x]))"
| "queue_step cap Get xs = ([case xs of [] \<Rightarrow> None | x # _ \<Rightarrow> Some x], tl xs)"

fun queue_run :: "nat \<Rightarrow> 'x qop list \<Rightarrow> 'x list \<Rightarrow> 'x option list \<times> 'x list" where
  "queue_run cap [] xs = ([], xs)"
| "queue_run cap (op # ops) xs =
     (let (out, xs) = queue_step cap op xs; (outs, xs) = queue_run cap ops xs in (out @ outs, xs))"

lemma queue_run_puts:
  "length xs \<le> cap \<Longrightarrow> queue_run cap (map Put ys) xs = ([], drop (length xs + length ys - cap) (xs @ ys))"
proof (induction ys arbitrary: xs)
  case (Cons y ys)
  let ?xs = "drop (Suc (length xs) - cap) (xs @ [y])"
  have "length ?xs \<le> cap" by simp
  from Cons.IH [OF this] show ?case using Cons.prems
    by (cases "length xs < cap"; cases cap) (simp_all add: drop_append Suc_diff_le)
qed simp

lemma queue_run_gets: "queue_run cap (replicate (length xs) Get) xs = (map Some xs, [])"
  by (induction xs) auto

section \<open>The interface\<close>

fun run_ops ::
  "('x \<Rightarrow> 'q \<Rightarrow> 'q option) \<Rightarrow> ('q \<Rightarrow> ('x option \<times> 'q) option) \<Rightarrow> 'x qop list \<Rightarrow> 'q \<Rightarrow>
     ('x option list \<times> 'q) option" where
  "run_ops put get [] q = Some ([], q)"
| "run_ops put get (Put x # ops) q = do { q \<leftarrow> put x q; run_ops put get ops q }"
| "run_ops put get (Get # ops) q = do {
     (out, q) \<leftarrow> get q;
     (outs, q) \<leftarrow> run_ops put get ops q;
     Some (out # outs, q) }"

text \<open>\<open>ok q n\<close>: the queue is in order and good for \<open>n\<close> more operations.\<close>

locale lossy_queue =
  fixes put :: "'x \<Rightarrow> 'q \<Rightarrow> 'q option"
    and get :: "'q \<Rightarrow> ('x option \<times> 'q) option"
    and items :: "'q \<Rightarrow> 'x list"
    and ok :: "'q \<Rightarrow> nat \<Rightarrow> bool"
    and cap :: "'q \<Rightarrow> nat"
  assumes put_law: "ok q (Suc n) \<Longrightarrow> \<exists>q'. put x q = Some q' \<and> ok q' n \<and> cap q' = cap q \<and>
      items q' = drop (Suc (length (items q)) - cap q) (items q @ [x])"
    and get_law: "ok q (Suc n) \<Longrightarrow>
      \<exists>q'. get q = Some (case items q of [] \<Rightarrow> None | x # _ \<Rightarrow> Some x, q') \<and> ok q' n \<and>
        cap q' = cap q \<and> items q' = tl (items q)"
    and ok_less: "ok q (Suc n) \<Longrightarrow> ok q n"
begin

lemma run_refines:
  "ok q (length ops + n) \<Longrightarrow>
   \<exists>q'. run_ops put get ops q = Some (fst (queue_run (cap q) ops (items q)), q') \<and> ok q' n \<and>
     cap q' = cap q \<and> items q' = snd (queue_run (cap q) ops (items q))"
proof (induction ops arbitrary: q)
  case Nil
  then show ?case by simp
next
  case (Cons op ops)
  show ?case
  proof (cases op)
    case (Put x)
    from put_law [of q "length ops + n" x] Cons.prems obtain q1 where
      q1: "put x q = Some q1" "ok q1 (length ops + n)" "cap q1 = cap q"
        "items q1 = drop (Suc (length (items q)) - cap q) (items q @ [x])" by auto
    from Cons.IH [OF q1(2)] q1 Put show ?thesis by (auto simp: Let_def split: prod.splits)
  next
    case Get
    from get_law [of q "length ops + n"] Cons.prems obtain q1 where
      q1: "get q = Some (case items q of [] \<Rightarrow> None | x # _ \<Rightarrow> Some x, q1)" "ok q1 (length ops + n)"
        "cap q1 = cap q" "items q1 = tl (items q)" by auto
    from Cons.IH [OF q1(2)] q1 Get show ?thesis by (auto simp: Let_def split: prod.splits)
  qed
qed

end

section \<open>\<open>AQueue\<close> is a lossy queue\<close>

definition put_item :: "'a \<Rightarrow> 'a aqueue \<Rightarrow> 'a aqueue option" where
  "put_item x q = (case AddTail x q of Done (_, q') \<Rightarrow> Some q' | _ \<Rightarrow> None)"

text \<open>The item behind the pointer \<open>GetNext\<close> returns, read right after the call.\<close>

definition get_item :: "'a aqueue \<Rightarrow> ('a option \<times> 'a aqueue) option" where
  "get_item q = (case GetNext q of Done (p, q') \<Rightarrow> Some (Option.bind p (\<lambda>i. item_at i q'), q') | _ \<Rightarrow> None)"

definition items :: "'a aqueue \<Rightarrow> 'a list" where
  "items q = map the (stretch (m_nTail q) (used q) q)"

lemma holds_items: "holds q xs \<Longrightarrow> items q = xs"
  by (simp add: holds_def items_def comp_def)

lemma stretch_upd [simp]:
  "stretch i n (q\<lparr>m_nTail := t\<rparr>) = stretch i n q" "stretch i n (q\<lparr>m_nCount := c\<rparr>) = stretch i n q"
  "stretch i n (q\<lparr>m_nLoss := c\<rparr>) = stretch i n q" "stretch i n (q\<lparr>m_nLast := r\<rparr>) = stretch i n q"
  by (simp_all add: stretch_def item_at_def)

lemma item_at_upd [simp]:
  "item_at i (q\<lparr>m_nTail := t\<rparr>) = item_at i q" "item_at i (q\<lparr>m_nCount := c\<rparr>) = item_at i q"
  "item_at i (q\<lparr>m_nLoss := c\<rparr>) = item_at i q"
  by (simp_all add: item_at_def)

text \<open>The two ways \<open>AddTail\<close> ends.\<close>

lemma AddTail_room:
  assumes "ring_ok q" "m_bLock q \<or> \<not> m_mLock q" "Suc (m_nHead q) mod m_nMax q \<noteq> m_nTail q"
    and "int_range (m_nCount q + 1)"
  shows "AddTail x q = Done (m_nCount q + 1, pushed x q\<lparr>m_nCount := m_nCount q + 1\<rparr>)"
  using assms by (auto simp: AddTail_def ring_ok_def pushed_def Let_def)

lemma AddTail_full:
  assumes "ring_ok q" "m_bLock q \<or> \<not> m_mLock q" "Suc (m_nHead q) mod m_nMax q = m_nTail q"
    and "int_range (m_nLoss q + 1)"
  shows "AddTail x q = Done (m_nCount q,
    pushed x q\<lparr>m_nTail := Suc (m_nTail q) mod m_nMax q, m_nLoss := m_nLoss q + 1\<rparr>)"
  using assms by (auto simp: AddTail_def ring_ok_def pushed_def Let_def)

lemma holds_room:
  assumes q: "holds q xs" and room: "Suc (m_nHead q) mod m_nMax q \<noteq> m_nTail q"
  shows "holds (pushed x q\<lparr>m_nCount := c\<rparr>) (xs @ [x])"
proof -
  from q have r: "ring_ok q" "m_nTail q < m_nMax q" "m_nHead q < m_nMax q"
    and s: "stretch (m_nTail q) (dist (m_nMax q) (m_nTail q) (m_nHead q)) q = map Some xs"
    by (auto simp: holds_def ring_ok_def used_def)
  have "ring_ok (pushed x q\<lparr>m_nCount := c\<rparr>)"
    using ring_ok_pushed [OF r(1)] by (simp add: ring_ok_def)
  then show ?thesis
    using stretch_pushed [OF r(1,2)] dist_next [OF r(2,3)] room s by (simp add: holds_def used_def)
qed

lemma dist_all: "a < M \<Longrightarrow> dist M (Suc a mod M) a = M - 1"
  using ring_add [of a M 1] by (auto simp: dist_def split: if_splits)

lemma holds_full:
  assumes q: "holds q xs" and full: "Suc (m_nHead q) mod m_nMax q = m_nTail q"
  shows "holds (pushed x q\<lparr>m_nTail := Suc (m_nTail q) mod m_nMax q, m_nLoss := c\<rparr>) (tl (xs @ [x]))"
    and "length xs = m_nMax q - 1"
proof -
  from q have r: "ring_ok q" "m_nTail q < m_nMax q" "m_nHead q < m_nMax q"
    and s: "stretch (m_nTail q) (dist (m_nMax q) (m_nTail q) (m_nHead q)) q = map Some xs"
    by (auto simp: holds_def ring_ok_def used_def)
  have d: "dist (m_nMax q) (m_nTail q) (m_nHead q) = m_nMax q - 1" using dist_full [OF r(2,3) full] .
  have M: "Suc (m_nMax q - 1) = m_nMax q" using r(2) by simp
  from stretch_pushed [OF r(1,2), of x] d M s
  have "stretch (m_nTail q) (Suc (m_nMax q - 1)) (pushed x q) = map Some (xs @ [x])" by simp
  then have "stretch (Suc (m_nTail q) mod m_nMax q) (m_nMax q - 1) (pushed x q) = map Some (tl (xs @ [x]))"
    unfolding stretch_Cons by (metis list.sel(3) map_tl pushed_fields(1))
  moreover have "ring_ok (pushed x q\<lparr>m_nTail := Suc (m_nTail q) mod m_nMax q, m_nLoss := c\<rparr>)"
    using ring_ok_pushed [OF r(1)] r(2) by (auto simp: ring_ok_def)
  ultimately show "holds (pushed x q\<lparr>m_nTail := Suc (m_nTail q) mod m_nMax q, m_nLoss := c\<rparr>) (tl (xs @ [x]))"
    using full dist_all [OF r(2)] by (simp add: holds_def used_def)
  show "length xs = m_nMax q - 1" using holds_length [OF q] d by (simp add: used_def)
qed

lemma holds_get:
  assumes q: "holds q (x # xs)"
  shows "holds (q\<lparr>m_nTail := Suc (m_nTail q) mod m_nMax q, m_nCount := c\<rparr>) xs"
    and "item_at (m_nTail q) q = Some x" and "m_nHead q \<noteq> m_nTail q"
proof -
  from q have r: "ring_ok q" "m_nTail q < m_nMax q" "m_nHead q < m_nMax q"
    and s: "stretch (m_nTail q) (used q) q = map Some (x # xs)"
    by (auto simp: holds_def ring_ok_def)
  have u: "used q = Suc (length xs)" using holds_length [OF q] by simp
  then show ne: "m_nHead q \<noteq> m_nTail q" by (auto simp: used_def)
  from s [unfolded u stretch_Cons] r(2)
  have s': "item_at (m_nTail q) q = Some x"
    "stretch (Suc (m_nTail q) mod m_nMax q) (length xs) q = map Some xs" by auto
  show "item_at (m_nTail q) q = Some x" by (rule s')
  have "dist (m_nMax q) (Suc (m_nTail q) mod m_nMax q) (m_nHead q) = length xs"
    using dist_drop [OF r(2,3) ne [symmetric]] u by (simp add: used_def)
  with s'(2) r show "holds (q\<lparr>m_nTail := Suc (m_nTail q) mod m_nMax q, m_nCount := c\<rparr>) xs"
    by (auto simp: holds_def used_def ring_ok_def)
qed

lemma GetNext_item:
  assumes "holds q (x # xs)" "\<not> m_mLock q" "m_nLast q = None" "int_range (m_nCount q - 1)"
  shows "GetNext q = Done (Some (m_nTail q),
    q\<lparr>m_nTail := Suc (m_nTail q) mod m_nMax q, m_nCount := m_nCount q - 1\<rparr>)"
  using holds_get(3) [OF assms(1)] assms by (auto simp: GetNext_def holds_def ring_ok_def slot_def)

lemma GetNext_empty:
  assumes "holds q []" "\<not> m_mLock q" "m_nLast q = None"
  shows "GetNext q = Done (None, q)"
proof -
  have "m_nHead q = m_nTail q"
    using holds_length [OF assms(1)] assms(1) by (auto simp: holds_def used_def ring_ok_def)
  with assms show ?thesis by (simp add: GetNext_def)
qed

text \<open>Outside transactions the counter is the number of items; the losses must stay countable.\<close>

definition fifo_ok :: "'a aqueue \<Rightarrow> nat \<Rightarrow> bool" where
  "fifo_ok q n \<longleftrightarrow> holds q (items q) \<and> m_nLast q = None \<and> \<not> m_mLock q \<and>
     m_nCount q = int (used q) \<and> int (m_nMax q) \<le> INT_MAX \<and>
     0 \<le> m_nLoss q \<and> m_nLoss q + int n \<le> INT_MAX"

definition capacity :: "'a aqueue \<Rightarrow> nat" where
  "capacity q = m_nMax q - 1"

interpretation aqueue: lossy_queue put_item get_item items fifo_ok capacity
proof
  fix q :: "'a aqueue" and n x
  assume ok: "fifo_ok q (Suc n)"
  then have q: "holds q (items q)" "m_nLast q = None" "\<not> m_mLock q" "m_nCount q = int (length (items q))"
    "int (m_nMax q) \<le> INT_MAX" "0 \<le> m_nLoss q" "m_nLoss q + int (Suc n) \<le> INT_MAX"
    using holds_length [of q "items q"] by (auto simp: fifo_ok_def)
  have r: "ring_ok q" using q(1) by (simp add: holds_def)
  have len: "length (items q) < m_nMax q" using holds_length [OF q(1)] ring_less [OF r] by simp
  show "\<exists>q'. put_item x q = Some q' \<and> fifo_ok q' n \<and> capacity q' = capacity q \<and>
    items q' = drop (Suc (length (items q)) - capacity q) (items q @ [x])"
  proof (cases "Suc (m_nHead q) mod m_nMax q = m_nTail q")
    case True
    let ?q = "pushed x q\<lparr>m_nTail := Suc (m_nTail q) mod m_nMax q, m_nLoss := m_nLoss q + 1\<rparr>"
    have h: "holds ?q (tl (items q @ [x]))" "length (items q) = m_nMax q - 1"
      using holds_full [OF q(1) True] by blast+
    have "AddTail x q = Done (m_nCount q, ?q)"
      using AddTail_full [OF r _ True] q(3,6,7) by (simp add: INT_MAX_def)
    moreover have "items ?q = tl (items q @ [x])" using holds_items [OF h(1)] .
    moreover have "used ?q = length (items q)" using holds_length [OF h(1)] by simp
    moreover have "drop (Suc (length (items q)) - capacity q) (items q @ [x]) = tl (items q @ [x])"
      unfolding capacity_def h(2) by (simp add: drop_Suc del: drop_append)
    ultimately show ?thesis using h q by (auto simp: put_item_def fifo_ok_def capacity_def)
  next
    case False
    let ?q = "pushed x q\<lparr>m_nCount := m_nCount q + 1\<rparr>"
    have h: "holds ?q (items q @ [x])" using holds_room [OF q(1) False] .
    have "used ?q < m_nMax q" using h ring_less [of ?q] by (simp add: holds_def)
    then have u: "used ?q = Suc (length (items q))" "Suc (length (items q)) < m_nMax q"
      using holds_length [OF h] by simp_all
    have "AddTail x q = Done (m_nCount q + 1, ?q)"
      using AddTail_room [OF r _ False] q(3,4,5) u(2) by (simp add: INT_MAX_def)
    moreover have "items ?q = items q @ [x]" using holds_items [OF h] .
    ultimately show ?thesis using h q u by (auto simp: put_item_def fifo_ok_def capacity_def)
  qed
  show "\<exists>q'. get_item q = Some (case items q of [] \<Rightarrow> None | x # _ \<Rightarrow> Some x, q') \<and> fifo_ok q' n \<and>
    capacity q' = capacity q \<and> items q' = tl (items q)"
  proof (cases "items q")
    case Nil
    with q ok show ?thesis
      using GetNext_empty [of q] by (simp add: get_item_def fifo_ok_def)
  next
    case (Cons y ys)
    let ?q = "q\<lparr>m_nTail := Suc (m_nTail q) mod m_nMax q, m_nCount := m_nCount q - 1\<rparr>"
    note h = holds_get(1) [OF q(1) [unfolded Cons], of "m_nCount q - 1"] holds_get(2) [OF q(1) [unfolded Cons]]
    have "GetNext q = Done (Some (m_nTail q), ?q)"
      using GetNext_item [OF q(1) [unfolded Cons] q(3,2)] q(4,5) len Cons by (simp add: INT_MAX_def)
    moreover have "items ?q = ys" using holds_items [OF h(1)] .
    moreover have "used ?q = length ys" using holds_length [OF h(1)] by simp
    ultimately show ?thesis using h q Cons by (simp add: get_item_def fifo_ok_def capacity_def)
  qed
  show "fifo_ok q n" using ok by (simp add: fifo_ok_def)
qed

end
