(* ===== verification/AQueueTx.thy ===== *)
theory AQueueTx
  imports AQueueFifo
begin

text \<open>
  Transactions of \<open>AQueue\<close>: what the producer adds between \<open>Begin\<close> and \<open>End\<close> is what the
  consumer reads after \<open>SetLast\<close>; the loop that reads a queue until \<open>GetNext\<close> returns null; and
  the self test of test/INNOLIB/src/aqueue.cpp.
\<close>

section \<open>Adding and reading many\<close>

fun add_all :: "'a list \<Rightarrow> 'a aqueue \<Rightarrow> 'a aqueue outcome" where
  "add_all [] q = Done q"
| "add_all (x # xs) q = (case AddTail x q of
     Done (_, q) \<Rightarrow> add_all xs q | Blocked \<Rightarrow> Blocked | Undefined \<Rightarrow> Undefined)"

text \<open>\<open>while ((pi = GetNext()))\<close> with at most \<open>n\<close> calls; an item that was never stored has no value.\<close>

fun drain :: "nat \<Rightarrow> 'a aqueue \<Rightarrow> ('a list \<times> 'a aqueue) option" where
  "drain 0 q = None"
| "drain (Suc n) q = (case GetNext q of
     Done (None, q) \<Rightarrow> Some ([], q)
   | Done (Some i, q) \<Rightarrow> do {
       x \<leftarrow> item_at i q;
       (xs, q) \<leftarrow> drain n q;
       Some (x # xs, q) }
   | _ \<Rightarrow> None)"

section \<open>A transaction\<close>

text \<open>Inside a transaction that began at slot \<open>b\<close>, with \<open>ys\<close> added so far.\<close>

definition in_tx :: "nat \<Rightarrow> 'a list \<Rightarrow> 'a aqueue \<Rightarrow> bool" where
  "in_tx b ys q \<longleftrightarrow> ring_ok q \<and> b < m_nMax q \<and> m_mLock q \<and> m_bLock q \<and> m_nBegin q = Some b \<and>
     dist (m_nMax q) b (m_nHead q) = length ys \<and> stretch b (length ys) q = map Some ys"

definition countable :: "'a aqueue \<Rightarrow> nat \<Rightarrow> bool" where
  "countable q n \<longleftrightarrow> - (2 ^ 31) \<le> m_nCount q - int n \<and> m_nCount q + int n \<le> INT_MAX \<and>
     0 \<le> m_nLoss q \<and> m_nLoss q + int n \<le> INT_MAX"

lemma stretch_fields [simp]:
  "stretch i n (q\<lparr>m_nTail := t, m_nLoss := c\<rparr>) = stretch i n q"
  by (simp add: stretch_def item_at_def)

lemma AddTail_tx:
  assumes tx: "in_tx b ys q" and room: "Suc (length ys) < m_nMax q" and n: "countable q (Suc n)"
  shows "\<exists>k q'. AddTail x q = Done (k, q') \<and> in_tx b (ys @ [x]) q' \<and> m_nMax q' = m_nMax q \<and> countable q' n \<and>
    m_nCount q' = (if Suc (m_nHead q) mod m_nMax q = m_nTail q then m_nCount q else m_nCount q + 1)"
proof -
  from tx have r: "ring_ok q" "b < m_nMax q" "m_bLock q" "m_mLock q" "m_nBegin q = Some b"
    "m_nHead q < m_nMax q" "m_nTail q < m_nMax q"
    and d: "dist (m_nMax q) b (m_nHead q) = length ys" and s: "stretch b (length ys) q = map Some ys"
    by (auto simp: in_tx_def ring_ok_def)
  have "Suc (m_nHead q) mod m_nMax q \<noteq> b"
    using dist_full [OF r(2,6)] d room by auto
  then have d1: "dist (m_nMax q) b (Suc (m_nHead q) mod m_nMax q) = Suc (length ys)"
    using dist_next [OF r(2,6)] d by simp
  have s1: "stretch b (Suc (length ys)) (pushed x q) = map Some (ys @ [x])"
    using stretch_pushed [OF r(1,2), of x] d s by simp
  have p: "ring_ok (pushed x q)" using r(1) by simp
  show ?thesis
  proof (cases "Suc (m_nHead q) mod m_nMax q = m_nTail q")
    case True
    have "AddTail x q = Done (m_nCount q,
        pushed x q\<lparr>m_nTail := Suc (m_nTail q) mod m_nMax q, m_nLoss := m_nLoss q + 1\<rparr>)"
      using AddTail_full [OF r(1) _ True] r(3) n by (simp add: countable_def INT_MAX_def)
    then show ?thesis
      using r d1 s1 p n True by (auto simp: in_tx_def ring_ok_def countable_def)
  next
    case False
    have "AddTail x q = Done (m_nCount q + 1, pushed x q\<lparr>m_nCount := m_nCount q + 1\<rparr>)"
      using AddTail_room [OF r(1) _ False] r(3) n by (simp add: countable_def INT_MAX_def)
    then show ?thesis
      using r d1 s1 p n False by (auto simp: in_tx_def ring_ok_def countable_def)
  qed
qed

lemma add_all_tx:
  "in_tx b ys q \<Longrightarrow> length ys + length xs < m_nMax q \<Longrightarrow> countable q (length xs + n) \<Longrightarrow>
   \<exists>q'. add_all xs q = Done q' \<and> in_tx b (ys @ xs) q' \<and> m_nMax q' = m_nMax q \<and> countable q' n"
proof (induction xs arbitrary: ys q)
  case (Cons x xs)
  from AddTail_tx [OF Cons.prems(1), of "length xs + n" x] Cons.prems(2,3) obtain k q1 where
    q1: "AddTail x q = Done (k, q1)" "in_tx b (ys @ [x]) q1" "m_nMax q1 = m_nMax q"
      "countable q1 (length xs + n)" by auto
  from Cons.IH [OF q1(2)] q1 Cons.prems(2) show ?case by auto
qed auto

text \<open>Reading up to \<open>m_nLast\<close>.\<close>

definition to_read :: "'a list \<Rightarrow> 'a aqueue \<Rightarrow> bool" where
  "to_read xs q \<longleftrightarrow> ring_ok q \<and> \<not> m_mLock q \<and> (\<exists>e < m_nMax q. m_nLast q = Some e \<and>
     dist (m_nMax q) (m_nTail q) e = length xs) \<and> stretch (m_nTail q) (length xs) q = map Some xs"

lemma GetNext_tx:
  assumes q: "to_read (x # xs) q" and n: "countable q (Suc n)"
  shows "\<exists>q'. GetNext q = Done (Some (m_nTail q), q') \<and> item_at (m_nTail q) q' = Some x \<and> to_read xs q' \<and>
    countable q' n \<and> m_nCount q' = m_nCount q - 1 \<and> m_nHead q' = m_nHead q \<and> m_nMax q' = m_nMax q \<and>
    m_nLast q' = m_nLast q"
proof -
  from q obtain e where e: "e < m_nMax q" "m_nLast q = Some e"
    "dist (m_nMax q) (m_nTail q) e = Suc (length xs)"
    and r: "ring_ok q" "\<not> m_mLock q" "m_nTail q < m_nMax q" "m_nHead q < m_nMax q"
    and s: "stretch (m_nTail q) (Suc (length xs)) q = Some x # map Some xs"
    by (auto simp: to_read_def ring_ok_def)
  let ?q = "q\<lparr>m_nTail := Suc (m_nTail q) mod m_nMax q, m_nCount := m_nCount q - 1\<rparr>"
  have ne: "m_nTail q \<noteq> e" using e(3) by auto
  from s [unfolded stretch_Cons] r(3) have s': "item_at (m_nTail q) q = Some x"
    "stretch (Suc (m_nTail q) mod m_nMax q) (length xs) q = map Some xs" by auto
  have "GetNext q = Done (Some (m_nTail q), ?q)"
    using r e(2) ne n by (auto simp: GetNext_def ring_ok_def slot_def countable_def INT_MAX_def)
  moreover have "dist (m_nMax q) (Suc (m_nTail q) mod m_nMax q) e = length xs"
    using dist_drop [OF r(3) e(1) ne] e(3) by simp
  then have "to_read xs ?q" using r e s'(2) by (auto simp: to_read_def ring_ok_def)
  moreover have "countable ?q n" using n by (simp add: countable_def)
  ultimately show ?thesis using s'(1) by auto
qed

lemma drain_tx:
  "to_read xs q \<Longrightarrow> countable q (length xs) \<Longrightarrow>
   \<exists>q'. drain (Suc (length xs)) q = Some (xs, q') \<and> m_nLast q' = None \<and> m_nHead q' = m_nHead q \<and>
     m_nMax q' = m_nMax q \<and> Some (m_nTail q') = m_nLast q \<and> m_nCount q' = m_nCount q - int (length xs)"
proof (induction xs arbitrary: q)
  case Nil
  then obtain e where "e < m_nMax q" "m_nLast q = Some e" "dist (m_nMax q) (m_nTail q) e = 0"
    "m_nTail q < m_nMax q" "\<not> m_mLock q" by (auto simp: to_read_def ring_ok_def)
  then show ?case by (simp add: GetNext_def)
next
  case (Cons x xs)
  from GetNext_tx [OF Cons.prems(1), of "length xs"] Cons.prems(2) obtain q1 where
    q1: "GetNext q = Done (Some (m_nTail q), q1)" "item_at (m_nTail q) q1 = Some x" "to_read xs q1"
      "countable q1 (length xs)" "m_nCount q1 = m_nCount q - 1" "m_nHead q1 = m_nHead q"
      "m_nMax q1 = m_nMax q" "m_nLast q1 = m_nLast q" by auto
  from Cons.IH [OF q1(3,4)] obtain q2 where "drain (Suc (length xs)) q1 = Some (xs, q2)"
      "m_nLast q2 = None" "m_nHead q2 = m_nHead q1" "m_nMax q2 = m_nMax q1"
      "Some (m_nTail q2) = m_nLast q1" "m_nCount q2 = m_nCount q1 - int (length xs)" by blast
  with q1 show ?case by (simp del: drain.simps(2) add: drain.simps(2) [of "Suc (length xs)"])
qed

text \<open>The whole transaction, and the consumer that asks for it.\<close>

definition transaction :: "'a list \<Rightarrow> 'a aqueue \<Rightarrow> 'a aqueue outcome" where
  "transaction xs q = (case Begin q of
     Done q \<Rightarrow> (case add_all xs q of Done q \<Rightarrow> End q | other \<Rightarrow> other)
   | other \<Rightarrow> other)"

lemma stretch_tx [simp]:
  "stretch i n (q\<lparr>m_mLock := a, m_bLock := b, m_nBegin := c\<rparr>) = stretch i n q"
  "stretch i n (q\<lparr>m_nEnd := d, m_mLock := a, m_bLock := b\<rparr>) = stretch i n q"
  "stretch i n (q\<lparr>m_nLast := l, m_nTail := t, m_nBegin := c, m_nEnd := d\<rparr>) = stretch i n q"
  "stretch i n (q\<lparr>m_nTail := t, m_nBegin := c, m_nLast := l, m_nEnd := d\<rparr>) = stretch i n q"
  by (simp_all add: stretch_def item_at_def)

lemma transaction_read:
  assumes q: "ring_ok q" "\<not> m_mLock q" and room: "length xs < m_nMax q"
    and n: "countable q (length xs + length xs)"
  shows "\<exists>q1 k q2 q3. transaction xs q = Done q1 \<and> SetLast q1 = Done (k, q2) \<and> k = int (m_nHead q1) \<and>
    drain (Suc (length xs)) q2 = Some (xs, q3) \<and> m_nHead q3 = m_nTail q3 \<and> m_nLast q3 = None \<and>
    m_nCount q3 = m_nCount q1 - int (length xs)"
proof -
  let ?q0 = "q\<lparr>m_mLock := True, m_bLock := True, m_nBegin := Some (m_nHead q)\<rparr>"
  have "in_tx (m_nHead q) [] ?q0" using q(1) by (auto simp: in_tx_def ring_ok_def)
  from add_all_tx [OF this, of xs "length xs"] room n obtain q1 where
    a: "add_all xs ?q0 = Done q1" "in_tx (m_nHead q) xs q1" "m_nMax q1 = m_nMax q" "countable q1 (length xs)"
    by (auto simp: countable_def)
  let ?q1 = "q1\<lparr>m_nEnd := Some (m_nHead q1), m_mLock := False, m_bLock := False\<rparr>"
  have t: "transaction xs q = Done ?q1"
    using q(2) a(1,2) by (simp add: transaction_def Begin_def End_def in_tx_def)
  let ?q2 = "?q1\<lparr>m_nLast := None, m_nTail := m_nHead q, m_nBegin := None,
    m_nLast := Some (m_nHead q1), m_nEnd := None\<rparr>"
  have s: "SetLast ?q1 = Done (int (m_nHead q1), ?q2)"
    using a(2) by (simp add: SetLast_def in_tx_def Let_def)
  have "to_read xs ?q2"
    using a(2) by (auto simp: to_read_def in_tx_def ring_ok_def stretch_def item_at_def)
  moreover have "countable ?q2 (length xs)" using a(4) by (simp add: countable_def)
  ultimately obtain q3 where "drain (Suc (length xs)) ?q2 = Some (xs, q3)" "m_nLast q3 = None"
      "m_nHead q3 = m_nHead q1" "Some (m_nTail q3) = Some (m_nHead q1)"
      "m_nCount q3 = m_nCount q1 - int (length xs)"
    using drain_tx [of xs ?q2] by auto
  with t s show ?thesis by auto
qed

text \<open>Without a loss every item added is counted.\<close>

lemma add_all_count:
  "ring_ok q \<Longrightarrow> m_bLock q \<Longrightarrow> used q + length xs < m_nMax q \<Longrightarrow> countable q (length xs + n) \<Longrightarrow>
   add_all xs q = Done q' \<Longrightarrow> m_nCount q' = m_nCount q + int (length xs)"
proof (induction xs arbitrary: q)
  case (Cons x xs)
  let ?q = "pushed x q\<lparr>m_nCount := m_nCount q + 1\<rparr>"
  have r: "m_nTail q < m_nMax q" "m_nHead q < m_nMax q" using Cons.prems(1) by (simp_all add: ring_ok_def)
  have room: "Suc (m_nHead q) mod m_nMax q \<noteq> m_nTail q"
    using dist_full [OF r] Cons.prems(3) by (auto simp: used_def)
  have a: "AddTail x q = Done (m_nCount q + 1, ?q)"
    using AddTail_room [OF Cons.prems(1) _ room] Cons.prems(2,4) by (simp add: countable_def INT_MAX_def)
  have u: "used ?q = Suc (used q)" using dist_next [OF r] room by (simp add: used_def)
  have "ring_ok ?q" using ring_ok_pushed [OF Cons.prems(1)] by (simp add: ring_ok_def)
  from Cons.IH [OF this] u a Cons.prems show ?case by (simp add: countable_def)
qed simp

lemma transaction_count:
  assumes q: "ring_ok q" "\<not> m_mLock q" and room: "used q + length xs < m_nMax q"
    and n: "countable q (length xs + length xs)" and t: "transaction xs q = Done q1"
  shows "m_nCount q1 = m_nCount q + int (length xs)"
proof -
  let ?q = "q\<lparr>m_mLock := True, m_bLock := True, m_nBegin := Some (m_nHead q)\<rparr>"
  from t q(2) obtain q2 where a: "add_all xs ?q = Done q2" "End q2 = Done q1"
    by (auto simp: transaction_def Begin_def split: outcome.splits)
  have "ring_ok ?q" using q(1) by (simp add: ring_ok_def)
  moreover have "used ?q + length xs < m_nMax ?q" using room by (simp add: used_def)
  moreover have "countable ?q (length xs + length xs)" using n by (simp add: countable_def)
  ultimately have "m_nCount q2 = m_nCount ?q + int (length xs)"
    using add_all_count [of ?q xs "length xs" q2] a(1) by simp
  then show ?thesis using a(2) by (auto simp: End_def split: if_splits)
qed

end
