(* ===== verification/AQueueThreads.thy ===== *)
theory AQueueThreads
  imports Main
begin

text \<open>
  The locking of \<open>AQueue\<close> (inc/aqueue.h) with several threads, as a step relation. Each access to
  the mutex \<open>m_mLock\<close> and to the flag \<open>m_bLock\<close>, which is read and written outside the mutex, is a
  step of its own; what happens between them is where the thread is. The fields of the queue
  itself are not needed to say who may touch them.
\<close>

section \<open>Threads\<close>

text \<open>
  \<open>ToLock\<close>: waiting in \<open>AddTail\<close> for the lock; \<open>Adding\<close>: in the body of \<open>AddTail\<close>; \<open>Reading\<close>: in the
  body of an operation that always locks (\<open>GetCur\<close>, \<open>GetNext\<close>, \<open>GetHead\<close>, \<open>Empty\<close>, \<open>SetLast\<close>); \<open>TxSet\<close>,
  \<open>Tx\<close>, \<open>TxToLock\<close>, \<open>TxAdding\<close>, \<open>TxClear\<close>: in \<open>Begin\<close> after locking, in the transaction, in an \<open>AddTail\<close> of
  it that waits for the lock or is in its body, in \<open>End\<close> after unlocking; \<open>Broken\<close>: having unlocked a
  mutex that the thread does not hold, which is undefined.
\<close>

datatype place = Idle | ToLock | Adding | Reading | TxSet | Tx | TxToLock | TxAdding | TxClear | Broken

record threads =
  holder :: "nat option"
  flag :: bool
  at :: "nat \<Rightarrow> place"

definition start :: threads where
  "start = \<lparr>holder = None, flag = False, at = (\<lambda>_. Idle)\<rparr>"

abbreviation go :: "nat \<Rightarrow> place \<Rightarrow> threads \<Rightarrow> threads" where
  "go t p s \<equiv> s\<lparr>at := (at s)(t := p)\<rparr>"

text \<open>
  \<open>A\<close>: the threads that call \<open>AddTail\<close>; \<open>X\<close>: the threads that call \<open>Begin\<close> and \<open>End\<close>. Every thread may
  read. In a transaction a thread only adds.
\<close>

inductive step :: "nat set \<Rightarrow> nat set \<Rightarrow> threads \<Rightarrow> threads \<Rightarrow> bool" for A X where
  add_check: "t \<in> A \<Longrightarrow> at s t = Idle \<Longrightarrow> \<not> flag s \<Longrightarrow> step A X s (go t ToLock s)"
| add_lock: "at s t = ToLock \<Longrightarrow> holder s = None \<Longrightarrow> step A X s (go t Adding (s\<lparr>holder := Some t\<rparr>))"
| add_no_lock: "t \<in> A \<Longrightarrow> at s t = Idle \<Longrightarrow> flag s \<Longrightarrow> step A X s (go t Adding s)"
| add_unlock: "at s t = Adding \<Longrightarrow> \<not> flag s \<Longrightarrow> holder s = Some t \<Longrightarrow>
    step A X s (go t Idle (s\<lparr>holder := None\<rparr>))"
| add_bad_unlock: "at s t = Adding \<Longrightarrow> \<not> flag s \<Longrightarrow> holder s \<noteq> Some t \<Longrightarrow> step A X s (go t Broken s)"
| add_no_unlock: "at s t = Adding \<Longrightarrow> flag s \<Longrightarrow> step A X s (go t Idle s)"
| read_lock: "at s t = Idle \<Longrightarrow> holder s = None \<Longrightarrow> step A X s (go t Reading (s\<lparr>holder := Some t\<rparr>))"
| read_unlock: "at s t = Reading \<Longrightarrow> holder s = Some t \<Longrightarrow> step A X s (go t Idle (s\<lparr>holder := None\<rparr>))"
| read_bad_unlock: "at s t = Reading \<Longrightarrow> holder s \<noteq> Some t \<Longrightarrow> step A X s (go t Broken s)"
| begin_lock: "t \<in> X \<Longrightarrow> at s t = Idle \<Longrightarrow> holder s = None \<Longrightarrow>
    step A X s (go t TxSet (s\<lparr>holder := Some t\<rparr>))"
| begin_flag: "at s t = TxSet \<Longrightarrow> step A X s (go t Tx (s\<lparr>flag := True\<rparr>))"
| tx_check: "t \<in> A \<Longrightarrow> at s t = Tx \<Longrightarrow> \<not> flag s \<Longrightarrow> step A X s (go t TxToLock s)"
| tx_lock: "at s t = TxToLock \<Longrightarrow> holder s = None \<Longrightarrow> step A X s (go t TxAdding (s\<lparr>holder := Some t\<rparr>))"
| tx_no_lock: "t \<in> A \<Longrightarrow> at s t = Tx \<Longrightarrow> flag s \<Longrightarrow> step A X s (go t TxAdding s)"
| tx_unlock: "at s t = TxAdding \<Longrightarrow> \<not> flag s \<Longrightarrow> holder s = Some t \<Longrightarrow>
    step A X s (go t Tx (s\<lparr>holder := None\<rparr>))"
| tx_bad_unlock: "at s t = TxAdding \<Longrightarrow> \<not> flag s \<Longrightarrow> holder s \<noteq> Some t \<Longrightarrow> step A X s (go t Broken s)"
| tx_no_unlock: "at s t = TxAdding \<Longrightarrow> flag s \<Longrightarrow> step A X s (go t Tx s)"
| end_unlock: "at s t = Tx \<Longrightarrow> holder s = Some t \<Longrightarrow> step A X s (go t TxClear (s\<lparr>holder := None\<rparr>))"
| end_bad_unlock: "at s t = Tx \<Longrightarrow> holder s \<noteq> Some t \<Longrightarrow> step A X s (go t Broken s)"
| end_flag: "at s t = TxClear \<Longrightarrow> step A X s (go t Idle (s\<lparr>flag := False\<rparr>))"

inductive reach :: "nat set \<Rightarrow> nat set \<Rightarrow> threads \<Rightarrow> bool" for A X where
  start: "reach A X start"
| step: "reach A X s \<Longrightarrow> step A X s s' \<Longrightarrow> reach A X s'"

inductive_cases stepE: "step A X s s'"

section \<open>One producer, or no transactions\<close>

text \<open>The places where a thread is to have the lock, and those where it has set the flag.\<close>

definition inside :: "place set" where
  "inside = {Adding, Reading, TxSet, Tx, TxAdding}"

definition flagged :: "place set" where
  "flagged = {Tx, TxAdding, TxClear}"

text \<open>A thread is inside exactly when it holds the lock, and the flag is set exactly by a thread.\<close>

definition locked_ok :: "nat set \<Rightarrow> nat set \<Rightarrow> threads \<Rightarrow> bool" where
  "locked_ok A X s \<longleftrightarrow>
     (\<forall>t. (holder s = Some t \<longleftrightarrow> at s t \<in> inside) \<and> at s t \<notin> {Broken, TxToLock} \<and>
          (at s t \<in> {ToLock, Adding} \<longrightarrow> t \<in> A) \<and> (at s t \<in> {TxSet} \<union> flagged \<longrightarrow> t \<in> X)) \<and>
     (flag s \<longleftrightarrow> (\<exists>t. at s t \<in> flagged))"

lemma locked_ok_start: "locked_ok A X start"
  by (simp add: locked_ok_def start_def inside_def flagged_def)

text \<open>One thread moves: what is left to show is about that thread and about the flag.\<close>

lemma locked_ok_go:
  assumes "locked_ok A X s" "at s' = (at s)(t := q)"
    and "\<And>u. u \<noteq> t \<Longrightarrow> (holder s' = Some u) = (holder s = Some u)" "(holder s' = Some t) = (q \<in> inside)"
    and "q \<notin> {Broken, TxToLock}" "q \<in> {ToLock, Adding} \<Longrightarrow> t \<in> A" "q \<in> {TxSet} \<union> flagged \<Longrightarrow> t \<in> X"
    and "flag s' = (q \<in> flagged \<or> (\<exists>u. u \<noteq> t \<and> at s u \<in> flagged))"
  shows "locked_ok A X s'"
  unfolding locked_ok_def
proof (intro conjI allI)
  fix u
  show "(holder s' = Some u) = (at s' u \<in> inside)" "at s' u \<notin> {Broken, TxToLock}"
    "at s' u \<in> {ToLock, Adding} \<longrightarrow> u \<in> A" "at s' u \<in> {TxSet} \<union> flagged \<longrightarrow> u \<in> X"
    by (cases "u = t"; use assms in \<open>simp add: locked_ok_def\<close>)+
next
  show "flag s' = (\<exists>u. at s' u \<in> flagged)" using assms(2,8) by auto
qed

lemma locked_okD:
  assumes "locked_ok A X s"
  shows "(holder s = Some t) = (at s t \<in> inside)" "at s t \<noteq> Broken" "at s t \<noteq> TxToLock"
    "at s t = ToLock \<Longrightarrow> t \<in> A" "at s t = Adding \<Longrightarrow> t \<in> A" "at s t = TxSet \<Longrightarrow> t \<in> X" "at s t \<in> flagged \<Longrightarrow> t \<in> X"
    "flag s = (\<exists>t. at s t \<in> flagged)"
  using assms by (auto simp: locked_ok_def)

lemma locked_ok_step:
  assumes sole: "X = {} \<or> A \<union> X \<subseteq> {p}" and "step A X s s'" and ok: "locked_ok A X s"
  shows "locked_ok A X s'"
proof -
  note [simp] = inside_def flagged_def and d = locked_okD [OF ok] and go = locked_ok_go [OF ok]
  have alone: "\<not> (\<exists>u. u \<noteq> t \<and> at s u \<in> flagged)" if "t \<in> A \<union> X" for t
    using d(7) sole that by blast
  have fl: "flag s = (at s t \<in> flagged)" if "t \<in> A \<union> X" for t
    using d(8) alone [OF that] by metis
  have f: "flag s = (at s t \<in> flagged \<or> (\<exists>u. u \<noteq> t \<and> at s u \<in> flagged))" for t
    using d(8) by metis
  from assms(2) show ?thesis
  proof (cases rule: step.cases)
    case (add_check t)
    then show ?thesis by (intro go [of _ t ToLock]) (use d(1) f [of t] in auto)
  next
    case (add_lock t)
    then show ?thesis by (intro go [of _ t Adding]) (use d(4) f [of t] in auto)
  next
    case (add_no_lock t)
    with fl [of t] show ?thesis by simp
  next
    case (add_unlock t)
    then show ?thesis by (intro go [of _ t Idle]) (use f [of t] in auto)
  next
    case (add_bad_unlock t)
    with d(1) [of t] show ?thesis by simp
  next
    case (add_no_unlock t)
    with fl [of t] d(5) [of t] show ?thesis by simp
  next
    case (read_lock t)
    then show ?thesis by (intro go [of _ t Reading]) (use f [of t] in auto)
  next
    case (read_unlock t)
    then show ?thesis by (intro go [of _ t Idle]) (use f [of t] in auto)
  next
    case (read_bad_unlock t)
    with d(1) [of t] show ?thesis by simp
  next
    case (begin_lock t)
    then show ?thesis by (intro go [of _ t TxSet]) (use f [of t] in auto)
  next
    case (begin_flag t)
    then show ?thesis by (intro go [of _ t Tx]) (use d(1) [of t] d(6) f [of t] in auto)
  next
    case (tx_check t)
    with d(8) show ?thesis by auto
  next
    case (tx_lock t)
    with d(3) [of t] show ?thesis by simp
  next
    case (tx_no_lock t)
    then show ?thesis by (intro go [of _ t TxAdding]) (use d(1) [of t] d(7) [of t] f [of t] in auto)
  next
    case (tx_unlock t)
    with d(8) show ?thesis by auto
  next
    case (tx_bad_unlock t)
    with d(8) show ?thesis by auto
  next
    case (tx_no_unlock t)
    then show ?thesis by (intro go [of _ t Tx]) (use d(1) [of t] d(7) [of t] f [of t] in auto)
  next
    case (end_unlock t)
    then show ?thesis by (intro go [of _ t TxClear]) (use d(7) [of t] f [of t] in auto)
  next
    case (end_bad_unlock t)
    with d(1) [of t] show ?thesis by simp
  next
    case (end_flag t)
    with d(7) [of t] alone [of t] show ?thesis by (intro go [of _ t Idle]) (use d(1) [of t] f [of t] in auto)
  qed
qed

lemma locked_ok_reach: "reach A X s \<Longrightarrow> X = {} \<or> A \<union> X \<subseteq> {p} \<Longrightarrow> locked_ok A X s"
  by (induction rule: reach.induct) (auto intro: locked_ok_start locked_ok_step)

text \<open>The thread that holds the lock is never stopped.\<close>

lemma holder_moves:
  assumes "locked_ok A X s" "holder s = Some t"
  shows "\<exists>s'. step A X s s' \<and> at s' t \<noteq> at s t"
proof -
  from assms have "at s t \<in> inside" by (simp add: locked_okD(1))
  then consider "at s t = Adding" | "at s t = Reading" | "at s t = TxSet" | "at s t = Tx" | "at s t = TxAdding"
    by (auto simp: inside_def)
  then show ?thesis
  proof cases
    case 1
    show ?thesis
    proof (cases "flag s")
      case True
      with 1 show ?thesis by (intro exI conjI, rule_tac add_no_unlock) auto
    next
      case False
      with 1 assms(2) show ?thesis by (intro exI conjI, rule_tac add_unlock) auto
    qed
  next
    case 2
    with assms(2) show ?thesis by (intro exI conjI, rule_tac read_unlock) auto
  next
    case 3
    then show ?thesis by (intro exI conjI, rule_tac begin_flag) auto
  next
    case 4
    with assms(2) show ?thesis by (intro exI conjI, rule_tac end_unlock) auto
  next
    case 5
    then have "flag s" using locked_okD(8) [OF assms(1)] by (auto simp: flagged_def)
    with 5 show ?thesis by (intro exI conjI, rule_tac tx_no_unlock) auto
  qed
qed

section \<open>With transactions\<close>

lemma reach_steps: "reach A X s \<Longrightarrow> (step A X)\<^sup>*\<^sup>* s s' \<Longrightarrow> reach A X s'"
  by (rotate_tac) (induction rule: rtranclp_induct, auto intro: reach.step)

text \<open>Thread 1 is in a transaction when thread 2 looks at the flag.\<close>

definition in_transaction :: threads where
  "in_transaction = \<lparr>holder = Some 1, flag = True, at = (\<lambda>_. Idle)(1 := Tx)\<rparr>"

lemma reach_transaction:
  assumes "1 \<in> X"
  shows "reach A X in_transaction"
proof -
  have "reach A X (go 1 TxSet (start\<lparr>holder := Some 1\<rparr>))" (is "reach A X ?s")
    by (rule reach.step [OF reach.start], rule begin_lock) (use assms in \<open>simp_all add: AQueueThreads.start_def\<close>)
  then have "reach A X (go 1 Tx (?s\<lparr>flag := True\<rparr>))"
    by (rule reach.step, intro begin_flag) simp
  then show ?thesis by (simp add: in_transaction_def AQueueThreads.start_def)
qed

lemma go_1_2 [simp]: "(1::nat) \<noteq> 2" "(2::nat) \<noteq> 1"
  by simp_all

definition both_adding :: threads where
  "both_adding = \<lparr>holder = Some 1, flag = True, at = (\<lambda>_. Idle)(1 := TxAdding, 2 := Adding)\<rparr>"

lemma reach_one_adds: "reach {1, 2} {1, 2} \<lparr>holder = Some 1, flag = True, at = (\<lambda>_. Idle)(1 := Tx, 2 := Adding)\<rparr>"
  using reach.step [OF reach_transaction [of "{1, 2}" "{1, 2}"] add_no_lock [of 2 _ in_transaction]]
  by (simp add: in_transaction_def)

lemma reach_both: "reach {1, 2} {1, 2} both_adding"
  using reach.step [OF reach_one_adds tx_no_lock [of 1]]
  by (simp add: both_adding_def fun_upd_twist)

text \<open>Thread 1 ends its transaction while thread 2 is in the \<open>AddTail\<close> that took no lock.\<close>

lemma reach_broken: "\<exists>s. reach {1, 2} {1, 2} s \<and> at s 2 = Broken"
proof -
  let ?a = "\<lparr>holder = Some 1, flag = True, at = (\<lambda>_. Idle)(1 := Tx, 2 := Adding)\<rparr>"
  let ?b = "go 1 TxClear (?a\<lparr>holder := None\<rparr>)"
  let ?c = "go 1 Idle (?b\<lparr>flag := False\<rparr>)"
  have "reach {1, 2} {1, 2} ?b" by (rule reach.step [OF reach_one_adds], rule end_unlock) simp_all
  then have "reach {1, 2} {1, 2} ?c" by (rule reach.step, intro end_flag) simp
  then have "reach {1, 2} {1, 2} (go 2 Broken ?c)" by (rule reach.step, intro add_bad_unlock) simp_all
  then show ?thesis by (intro exI conjI) (assumption, simp_all)
qed

text \<open>Thread 1 clears the flag after thread 2 has begun its own transaction.\<close>

lemma reach_stuck: "\<exists>s. reach {1, 2} {1, 2} s \<and> at s 2 = TxToLock \<and> holder s = Some 2"
proof -
  let ?b = "go 1 TxClear (in_transaction\<lparr>holder := None\<rparr>)"
  let ?c = "go 2 TxSet (?b\<lparr>holder := Some 2\<rparr>)"
  let ?d = "go 2 Tx (?c\<lparr>flag := True\<rparr>)"
  let ?e = "go 1 Idle (?d\<lparr>flag := False\<rparr>)"
  have "reach {1, 2} {1, 2} ?b" by (rule reach.step [OF reach_transaction [OF insertI1]], rule end_unlock) (simp_all add: in_transaction_def)
  then have "reach {1, 2} {1, 2} ?c" by (rule reach.step, intro begin_lock) (simp_all add: in_transaction_def)
  then have "reach {1, 2} {1, 2} ?d" by (rule reach.step, intro begin_flag) simp
  then have "reach {1, 2} {1, 2} ?e" by (rule reach.step, intro end_flag) simp
  then have "reach {1, 2} {1, 2} (go 2 TxToLock ?e)" by (rule reach.step, intro tx_check) simp_all
  then show ?thesis by (intro exI conjI) (assumption, simp_all add: in_transaction_def)
qed

text \<open>Thread 2 locks before the transaction of thread 1 and leaves while its flag is set.\<close>

lemma reach_lost: "\<exists>s. reach {1, 2} {1, 2} s \<and> (\<forall>t. at s t = Idle) \<and> holder s = Some 2"
proof -
  let ?a = "go 2 ToLock start"
  let ?b = "go 1 TxSet (?a\<lparr>holder := Some 1\<rparr>)"
  let ?c = "go 1 Tx (?b\<lparr>flag := True\<rparr>)"
  let ?d = "go 1 TxClear (?c\<lparr>holder := None\<rparr>)"
  let ?e = "go 2 Adding (?d\<lparr>holder := Some 2\<rparr>)"
  let ?f = "go 2 Idle ?e"
  let ?g = "go 1 Idle (?f\<lparr>flag := False\<rparr>)"
  have "reach {1, 2} {1, 2} ?a" by (rule reach.step [OF reach.start], rule add_check) (simp_all add: AQueueThreads.start_def)
  then have "reach {1, 2} {1, 2} ?b" by (rule reach.step, intro begin_lock) (simp_all add: AQueueThreads.start_def)
  then have "reach {1, 2} {1, 2} ?c" by (rule reach.step, intro begin_flag) simp
  then have "reach {1, 2} {1, 2} ?d" by (rule reach.step, intro end_unlock) simp_all
  then have "reach {1, 2} {1, 2} ?e" by (rule reach.step, intro add_lock) simp_all
  then have "reach {1, 2} {1, 2} ?f" by (rule reach.step, intro add_no_unlock) simp_all
  then have "reach {1, 2} {1, 2} ?g" by (rule reach.step, intro end_flag) simp
  then show ?thesis by (intro exI conjI) (assumption, simp_all add: AQueueThreads.start_def)
qed

end
