(* ===== verification/AQueueSpec.thy ===== *)
theory AQueueSpec
  imports AQueueTx AQueueThreads
begin

text \<open>The self test of \<open>AQueue\<close> and the properties of the queue and of its locking.\<close>

section \<open>The self test\<close>

fun finished :: "'r outcome \<Rightarrow> 'r option" where
  "finished (Done r) = Some r"
| "finished _ = None"

text \<open>A reading loop of the test: is every item in the range?\<close>

definition read_range :: "int \<Rightarrow> int \<Rightarrow> int aqueue \<Rightarrow> (bool \<times> int aqueue) option" where
  "read_range lo hi q = do {
     (xs, q) \<leftarrow> drain 100 q;
     Some (list_all (\<lambda>x. lo \<le> x \<and> x \<le> hi) xs, q) }"

definition AQueueTest :: "bool option" where
  "AQueueTest = do {
     let (_, q) = SetMax 13 None AQueue_new;
     q \<leftarrow> finished (transaction [1, 2, 3] q);
     (_, q) \<leftarrow> finished (SetLast q);
     (t1, q) \<leftarrow> read_range 1 3 q;
     q \<leftarrow> finished (transaction [4, 5, 6] q);
     q \<leftarrow> finished (transaction [7, 8, 9] q);
     q \<leftarrow> finished (transaction [10, 11, 12] q);
     (_, q) \<leftarrow> finished (SetLast q);
     (t2, q) \<leftarrow> read_range 10 12 q;
     (_, q) \<leftarrow> finished (SetLast q);
     (t3, q) \<leftarrow> read_range 1 0 q;
     q \<leftarrow> finished (transaction [13, 14, 15] q);
     q \<leftarrow> finished (transaction [16, 17, 18] q);
     (t4, q) \<leftarrow> read_range 13 18 q;
     q \<leftarrow> finished (transaction [19, 20, 21] q);
     (t5, q) \<leftarrow> read_range 19 21 q;
     q \<leftarrow> finished (add_all [22, 23, 24] q);
     (t6, q) \<leftarrow> read_range 22 24 q;
     q \<leftarrow> finished (add_all [25] q);
     (_, q) \<leftarrow> finished (GetNext q);
     (p, q) \<leftarrow> finished (GetNext q);
     Some (t1 \<and> t2 \<and> t3 \<and> t4 \<and> t5 \<and> t6 \<and> p = None) }"

text \<open>\<open>AQueueTest\<close> runs to its end without blocking or undefined behaviour and reports success.\<close>

theorem AQueueTest_passes: "AQueueTest = Some True"
  by code_simp

section \<open>The queue\<close>

lemma SetMax_fresh:
  assumes "0 < n" "n \<le> INT_MAX"
  shows "fifo_ok (snd (SetMax n name (AQueue_new :: 'a aqueue))) (nat INT_MAX)"
    and "items (snd (SetMax n name (AQueue_new :: 'a aqueue))) = []"
    and "capacity (snd (SetMax n name (AQueue_new :: 'a aqueue))) = nat n - 1"
proof -
  let ?q = "snd (SetMax n name (AQueue_new :: 'a aqueue))"
  have f: "m_nMax ?q = nat n" "m_pqList ?q = Some (replicate (nat n) None)" "m_nHead ?q = 0" "m_nTail ?q = 0"
    "m_nLast ?q = None" "\<not> m_mLock ?q" "m_nCount ?q = 0" "m_nLoss ?q = 0"
    using assms by (simp_all add: SetMax_def AQueue_new_def split: option.split)
  have u: "used ?q = 0" by (simp add: used_def f)
  then show "items ?q = []" by (simp add: items_def)
  then show "fifo_ok ?q (nat INT_MAX)"
    using f u assms by (simp add: fifo_ok_def holds_def ring_ok_def INT_MAX_def)
  show "capacity ?q = nat n - 1" by (simp add: capacity_def f)
qed

lemma fifo_ok_less: "fifo_ok q n \<Longrightarrow> m \<le> n \<Longrightarrow> fifo_ok q m"
  by (simp add: fifo_ok_def)

text \<open>C8: A fresh \<open>AQueue\<close> of \<open>n\<close> slots is a first-in-first-out queue of the last \<open>n - 1\<close> items: for every
  sequence of \<open>AddTail\<close> and \<open>GetNext\<close> that one thread makes, up to \<open>INT_MAX\<close> calls, nothing blocks,
  nothing is undefined, and the items returned and the items left are those of the abstract queue that
  drops its oldest item when it is full; \<open>GetCount\<close> is the number of items left.\<close>

theorem AQueue_lossy_fifo:
  assumes "0 < n" "n \<le> INT_MAX" "int (length ops) \<le> INT_MAX"
  shows "\<exists>q. run_ops put_item get_item ops (snd (SetMax n name AQueue_new)) =
      Some (fst (queue_run (nat n - 1) ops []), q) \<and>
    items q = snd (queue_run (nat n - 1) ops []) \<and> GetCount q = int (length (items q))"
proof -
  let ?q = "snd (SetMax n name AQueue_new)"
  have "fifo_ok ?q (length ops + 0)"
    using SetMax_fresh(1) [OF assms(1,2)] by (rule fifo_ok_less) (use assms(3) in linarith)
  from aqueue.run_refines [OF this] show ?thesis
    unfolding SetMax_fresh(2,3) [OF assms(1,2)]
    using holds_length by (fastforce simp: fifo_ok_def GetCount_def)
qed

theorem AQueue_lossy_fifo_witness:
  "\<exists>q. run_ops put_item get_item [Put 1, Put 2, Put (3 :: int), Get, Get, Get] (snd (SetMax 3 None AQueue_new)) =
     Some ([Some 2, Some 3, None], q) \<and> items q = []"
  using AQueue_lossy_fifo [of 3 "[Put 1, Put 2, Put (3 :: int), Get, Get, Get]" None]
  by (auto simp: INT_MAX_def)

text \<open>Whatever a queue holds, the items a producer adds in a transaction that fits are exactly what
  the consumer reads after \<open>SetLast\<close>, in order, and then \<open>GetNext\<close> returns null. The items that were
  waiting before are skipped - but the counter keeps them: the queue is empty and \<open>GetCount\<close> is still
  the number of skipped items.\<close>

theorem AQueue_transaction:
  assumes q: "ring_ok q" "\<not> m_mLock q" and room: "used q + length xs < m_nMax q"
    and n: "countable q (length xs + length xs)"
  shows "\<exists>q1 k q2 q3. transaction xs q = Done q1 \<and> SetLast q1 = Done (k, q2) \<and>
    drain (Suc (length xs)) q2 = Some (xs, q3) \<and> m_nHead q3 = m_nTail q3 \<and> GetCount q3 = GetCount q"
proof -
  have "length xs < m_nMax q" using room by simp
  from transaction_read [OF q this n] obtain q1 k q2 q3 where
    t: "transaction xs q = Done q1" "SetLast q1 = Done (k, q2)" "drain (Suc (length xs)) q2 = Some (xs, q3)"
      "m_nHead q3 = m_nTail q3" "m_nCount q3 = m_nCount q1 - int (length xs)" by blast
  moreover have "m_nCount q1 = m_nCount q + int (length xs)"
    using transaction_count [OF q room n t(1)] .
  ultimately show ?thesis by (auto simp: GetCount_def)
qed

theorem AQueue_transaction_witness:
  "\<exists>q0 q1 k q2 q3. put_item 7 (snd (SetMax 13 None AQueue_new)) = Some q0 \<and>
     transaction [1, 2, 3 :: int] q0 = Done q1 \<and> SetLast q1 = Done (k, q2) \<and>
     drain (Suc (length [1, 2, 3 :: int])) q2 = Some ([1, 2, 3], q3) \<and> m_nHead q3 = m_nTail q3 \<and> GetCount q3 = 1"
proof -
  let ?q0 = "the (put_item (7 :: int) (snd (SetMax 13 None AQueue_new)))"
  have "put_item (7 :: int) (snd (SetMax 13 None AQueue_new)) = Some ?q0" "GetCount ?q0 = 1"
    "m_pqList ?q0 \<noteq> None" "length (the (m_pqList ?q0)) = 13" "m_nMax ?q0 = 13"
    "m_nHead ?q0 = 1" "m_nTail ?q0 = 0" "\<not> m_mLock ?q0" "m_nCount ?q0 = 1" "m_nLoss ?q0 = 0"
    by code_simp+
  note f = this
  have "ring_ok ?q0" "\<not> m_mLock ?q0" "used ?q0 + length [1, 2, 3 :: int] < m_nMax ?q0"
    "countable ?q0 (length [1, 2, 3 :: int] + length [1, 2, 3 :: int])"
    using f(3-10) by (auto simp: ring_ok_def used_def dist_def countable_def INT_MAX_def)
  from AQueue_transaction [OF this, unfolded f(2)] f(1) show ?thesis by blast
qed

text \<open>\<open>GetHead\<close> does not find the item added last when the head has just wrapped around: it returns null
  although the queue holds items.\<close>

theorem GetHead_after_wrap:
  assumes "holds q (xs @ [x])" "\<not> m_mLock q"
  shows "GetHead q = (if m_nHead q = 0 then Done None else Done (Some (m_nHead q - 1))) \<and>
    (m_nHead q \<noteq> 0 \<longrightarrow> item_at (m_nHead q - 1) q = Some x)"
proof -
  from assms(1) have r: "ring_ok q" "m_nTail q < m_nMax q" "m_nHead q < m_nMax q"
    and s: "stretch (m_nTail q) (Suc (length xs)) q = map Some (xs @ [x])"
    and u: "dist (m_nMax q) (m_nTail q) (m_nHead q) = Suc (length xs)"
    using holds_length [OF assms(1)] by (auto simp: holds_def ring_ok_def used_def)
  have "item_at ((m_nTail q + length xs) mod m_nMax q) q = Some x"
    using s unfolding stretch_snoc by simp
  moreover have "(m_nTail q + length xs) mod m_nMax q = m_nHead q - 1" if "m_nHead q \<noteq> 0"
    using u that r(2,3) ring_add [of "m_nTail q" "m_nMax q" "length xs"]
    by (auto simp: dist_def split: if_splits)
  ultimately show ?thesis using assms(2) r by (auto simp: GetHead_def ring_ok_def slot_def)
qed

theorem GetHead_after_wrap_witness:
  "\<exists>q. put_item (7 :: int) (snd (SetMax 2 None AQueue_new)) = Some q \<and>
     (\<exists>q1. put_item 8 q = Some q1 \<and> GetHead q1 = Done None \<and> items q1 = [8])"
proof -
  let ?q = "the (put_item (7 :: int) (snd (SetMax 2 None AQueue_new)))" and
    ?q1 = "the (put_item (8 :: int) (the (put_item 7 (snd (SetMax 2 None AQueue_new)))))"
  have f: "put_item (7 :: int) (snd (SetMax 2 None AQueue_new)) = Some ?q" "put_item 8 ?q = Some ?q1"
    "items ?q1 = [8]"
    "m_nHead ?q1 = 0" "\<not> m_mLock ?q1"
    by code_simp+
  have "holds ?q1 ([] @ [8])" unfolding holds_def ring_ok_def
  proof (intro conjI)
    show "\<exists>l. m_pqList ?q1 = Some l \<and> length l = m_nMax ?q1"
      by (intro exI [of _ "the (m_pqList ?q1)"]) code_simp
  qed code_simp+
  from GetHead_after_wrap [OF this f(5)] f show ?thesis by auto
qed

section \<open>The locking\<close>



text \<open>C36: With transactions of two threads it does not, because \<open>AddTail\<close> asks the flag \<open>m_bLock\<close>, which does not say whose
  transaction it is. Reachable with two threads are: an \<open>AddTail\<close> in the middle of the other thread's
  transaction; the unlocking of a mutex another thread holds; a thread waiting in its own transaction for
  the lock it holds; and a lock that no thread will ever give back.\<close>

theorem AQueue_lock_transactions:
  "(\<exists>s. reach {1, 2} {1, 2} s \<and> at s 1 = TxAdding \<and> at s 2 = Adding) \<and>
   (\<exists>s. reach {1, 2} {1, 2} s \<and> at s 2 = Broken) \<and>
   (\<exists>s. reach {1, 2} {1, 2} s \<and> at s 2 = TxToLock \<and> holder s = Some 2) \<and>
   (\<exists>s. reach {1, 2} {1, 2} s \<and> (\<forall>t. at s t = Idle) \<and> holder s = Some 2)"
proof (intro conjI)
  show "\<exists>s. reach {1, 2} {1, 2} s \<and> at s 1 = TxAdding \<and> at s 2 = Adding"
    using reach_both by (auto simp: both_adding_def)
qed (use reach_broken reach_stuck reach_lost in blast)+

end
