(* ===== verification/HttpService.thy ===== *)
theory HttpService
  imports MiscUtil
begin

text \<open>
  The request handlers of the management service (inc/http/http_service.cpp). GNU libmicrohttpd
  calls them; it and the class \<open>CCloudMSApi\<close>, which does the work and is not in the repository, are
  parameters: \<open>mhd\<close> holds what the library's functions return for the connection at hand, \<open>api\<close>
  what \<open>CCloudMSApi\<close> answers to a request.

  The handlers append to a buffer with \<open>sprintf(data, "%s, ...", data, ...)\<close>: source and destination
  overlap, and what that call does the C standard leaves open. It is the parameter \<open>self_sprintf\<close>
  of \<open>mhd\<close>, the text after the call or \<open>None\<close>; \<open>in_place\<close> is the behaviour the code counts on.
\<close>

section \<open>The library and the service behind it\<close>

datatype con_type = GET | POST | PUT | DELETE

datatype kind = MHD_HEADER_KIND | MHD_GET_ARGUMENT_KIND

record mhd =
  mhd_values :: "kind \<Rightarrow> (string \<times> string) list"
  mhd_pollfd :: "int option"
  mhd_create :: bool
  mhd_queue :: int
  mhd_post :: bool
  self_sprintf :: "string \<Rightarrow> string \<Rightarrow> string option"

text \<open>\<open>mhd_create\<close>: can a response be created; \<open>mhd_queue\<close>: the result of \<open>MHD_queue_response\<close>; \<open>mhd_post\<close>:
  does \<open>MHD_post_process\<close> return, given a post processor the handlers never set.\<close>

definition MHD_YES :: int where "MHD_YES = 1"
definition MHD_NO :: int where "MHD_NO = 0"

record api_request =
  rq_type :: con_type
  rq_url :: string
  rq_header :: string
  rq_query :: string
  rq_body :: string
  rq_sockfd :: int

text \<open>\<open>StartWork\<close>, \<open>m_responsecode\<close>, \<open>GetResponseBodySize\<close>, and the buffer \<open>GetResponseBody\<close> fills.\<close>

record api_answer =
  an_started :: bool
  an_code :: int
  an_size :: int
  an_body :: "char list option"

section \<open>The handlers\<close>

text \<open>A page handed to the library: status and content. \<open>page\<close> is a block.\<close>

definition send_page :: "mhd \<Rightarrow> char list \<Rightarrow> int \<Rightarrow> (int \<times> (int \<times> string) option) option" where
  "send_page m page status_code = do {
     answer \<leftarrow> c_str page;
     if \<not> mhd_create m then Some (MHD_NO, None)
     else Some (mhd_queue m, Some (status_code, answer)) }"

record con_info =
  connection_type :: con_type
  con_url :: string
  con_header :: string
  con_query :: string
  con_body :: string

text \<open>\<open>con_info\<close> is allocated with \<open>new\<close>; its strings start empty.\<close>

definition new_con_info :: "con_type \<Rightarrow> con_info" where
  "new_con_info t = \<lparr>connection_type = t, con_url = [], con_header = [], con_query = [], con_body = []\<rparr>"

text \<open>What \<open>Init\<close> is called with; the descriptor is 0 when the library gives none.\<close>

definition work_request :: "mhd \<Rightarrow> con_info \<Rightarrow> api_request" where
  "work_request m c =
     \<lparr>rq_type = connection_type c, rq_url = con_url c, rq_header = con_header c, rq_query = con_query c,
      rq_body = con_body c, rq_sockfd = (case mhd_pollfd m of None \<Rightarrow> 0 | Some fd \<Rightarrow> fd)\<rparr>"

definition Work_function ::
  "env \<Rightarrow> mhd \<Rightarrow> (api_request \<Rightarrow> api_answer) \<Rightarrow> con_info \<Rightarrow> world \<Rightarrow>
     (int \<times> (int \<times> string) option \<times> world) option" where
  "Work_function e m api c w = do {
     let client_sockfd = rq_sockfd (work_request m c);
     let a = api (work_request m c);
     if \<not> an_started a
     then do {
       w \<leftarrow> WriteErrorLog e ''StartWork FAILED'' client_sockfd L0 w;
       (r, page) \<leftarrow> send_page m [NUL] (an_code a);
       Some (r, page, w) }
     else do {
       w \<leftarrow> WriteLog e ''GetResponseBodySize()'' 0 (L1 (an_size a)) w;
       if 0 < an_size a
       then case an_body a of
              None \<Rightarrow> do {
                w \<leftarrow> WriteErrorLog e ''Work_function GetResponseBody FAILED'' client_sockfd L0 w;
                (r, page) \<leftarrow> send_page m [NUL] (an_code a);
                Some (r, page, w) }
            | Some strBody \<Rightarrow> do {
                (r, page) \<leftarrow> send_page m strBody (an_code a);
                Some (r, page, w) }
       else do {
         (r, page) \<leftarrow> send_page m [NUL] (an_code a);
         Some (r, page, w) } } }"

text \<open>\<open>callback_client_connect\<close> accepts everybody.\<close>

definition callback_client_connect :: int where
  "callback_client_connect = MHD_YES"

text \<open>One pair of \<open>iterate_header\<close> and \<open>iterate_getdata\<close>, \<open>n\<close> the size of the buffer.\<close>

definition quoted :: "string \<Rightarrow> string \<Rightarrow> string" where
  "quoted key val = ''\"'' @ key @ ''\" : \"'' @ val @ ''\" ''"

definition fits :: "nat \<Rightarrow> string \<Rightarrow> string option" where
  "fits n s = (if length s < n then Some s else None)"

definition iterate_header :: "mhd \<Rightarrow> nat \<Rightarrow> string \<times> string \<Rightarrow> string \<Rightarrow> string option" where
  "iterate_header m n kv data =
     (case kv of (key, val) \<Rightarrow>
        if data = [] then fits n (''{ '' @ quoted key val)
        else Option.bind (self_sprintf m data ('', '' @ quoted key val)) (fits n))"

definition iterate_getdata :: "mhd \<Rightarrow> nat \<Rightarrow> string \<times> string \<Rightarrow> string \<Rightarrow> string option" where
  "iterate_getdata m n kv data =
     (case kv of (key, val) \<Rightarrow>
        if data = [] then fits n (''{ '' @ quoted key val)
        else Option.bind (self_sprintf m data ('', '' @ quoted key val)) (fits n))"

text \<open>\<open>MHD_get_connection_values\<close> calls the iterator on every pair, in order; both return \<open>MHD_YES\<close>.\<close>

fun MHD_get_connection_values ::
  "(string \<times> string \<Rightarrow> string \<Rightarrow> string option) \<Rightarrow> (string \<times> string) list \<Rightarrow> string \<Rightarrow> string option" where
  "MHD_get_connection_values iter [] data = Some data"
| "MHD_get_connection_values iter (kv # kvs) data = do {
     data \<leftarrow> iter kv data;
     MHD_get_connection_values iter kvs data }"

text \<open>Collect into a zeroed buffer of \<open>n\<close> bytes and close the brace when there is something in it.\<close>

definition collect ::
  "mhd \<Rightarrow> (nat \<Rightarrow> string \<times> string \<Rightarrow> string \<Rightarrow> string option) \<Rightarrow> kind \<Rightarrow> nat \<Rightarrow> string option" where
  "collect m iter k n = do {
     data \<leftarrow> MHD_get_connection_values (iter n) (mhd_values m k) [];
     if data \<noteq> [] then Option.bind (self_sprintf m data '' }'') (fits n) else Some data }"

definition method_of :: "string \<Rightarrow> con_type option" where
  "method_of s =
     (if s = ''GET'' then Some GET else if s = ''POST'' then Some POST
      else if s = ''PUT'' then Some PUT else if s = ''DELETE'' then Some DELETE else None)"

text \<open>
  One call of \<open>callback_request_to_connect\<close>: \<open>con_cls\<close> is the state of the request, \<open>upload_data\<close>
  the memory the pointer points to and \<open>upload_size\<close> the value of \<open>*upload_data_size\<close>. The result has
  the return value, the new state, the page, if one was sent, and the world.
\<close>

definition callback_request_to_connect ::
  "env \<Rightarrow> mhd \<Rightarrow> (api_request \<Rightarrow> api_answer) \<Rightarrow> string \<Rightarrow> string \<Rightarrow> char list \<Rightarrow> nat \<Rightarrow> con_info option \<Rightarrow> world \<Rightarrow>
     (int \<times> con_info option \<times> (int \<times> string) option \<times> world) option" where
  "callback_request_to_connect e m api url meth upload_data upload_size con_cls w =
     (case con_cls of
        None \<Rightarrow>
          (case method_of meth of
             None \<Rightarrow> Some (MHD_NO, None, None, w)
           | Some t \<Rightarrow> Some (MHD_YES, Some (new_con_info t), None, w))
      | Some c \<Rightarrow>
          if connection_type c = POST \<or> connection_type c = PUT
          then if upload_size \<noteq> 0
               then if \<not> mhd_post m then None
                    else do {
                      piece \<leftarrow> c_str upload_data;
                      Some (MHD_YES, Some (c\<lparr>con_body := con_body c @ piece\<rparr>), None, w) }
               else do {
                 let c = c\<lparr>con_url := url\<rparr>;
                 header \<leftarrow> collect m (iterate_header m) MHD_HEADER_KIND (20 * 1024);
                 let c = c\<lparr>con_header := header\<rparr>;
                 (r, page, w) \<leftarrow> Work_function e m api c w;
                 Some (r, Some c, page, w) }
          else do {
            query \<leftarrow> collect m (iterate_getdata m) MHD_GET_ARGUMENT_KIND 512;
            let c = c\<lparr>con_query := query, con_url := url\<rparr>;
            header \<leftarrow> collect m (iterate_header m) MHD_HEADER_KIND 512;
            let c = c\<lparr>con_header := header\<rparr>;
            (r, page, w) \<leftarrow> Work_function e m api c w;
            Some (r, Some c, page, w) })"

definition callback_request_completed :: "con_info option \<Rightarrow> con_info option" where
  "callback_request_completed con_cls = None"

section \<open>A request from the first call to the last\<close>

text \<open>
  The order in which the library calls the handlers: once with the method, for a body once per
  chunk, and once more when all of it has arrived. A call that does not return \<open>MHD_YES\<close> ends the
  request.
\<close>

fun feed ::
  "env \<Rightarrow> mhd \<Rightarrow> (api_request \<Rightarrow> api_answer) \<Rightarrow> string \<Rightarrow> string \<Rightarrow> (nat \<times> char list) list \<Rightarrow> con_info option \<Rightarrow> world \<Rightarrow>
     (int \<times> (int \<times> string) option \<times> world) option" where
  "feed e m api url meth [] con_cls w = do {
     (r, con_cls, page, w) \<leftarrow> callback_request_to_connect e m api url meth [NUL] 0 con_cls w;
     Some (r, page, w) }"
| "feed e m api url meth ((upload_size, upload_data) # chunks) con_cls w = do {
     (r, con_cls, page, w) \<leftarrow> callback_request_to_connect e m api url meth upload_data upload_size con_cls w;
     if r \<noteq> MHD_YES then Some (r, page, w) else feed e m api url meth chunks con_cls w }"

definition serve ::
  "env \<Rightarrow> mhd \<Rightarrow> (api_request \<Rightarrow> api_answer) \<Rightarrow> string \<Rightarrow> string \<Rightarrow> (nat \<times> char list) list \<Rightarrow> world \<Rightarrow>
     (int \<times> (int \<times> string) option \<times> world) option" where
  "serve e m api url meth chunks w = do {
     (r, con_cls, page, w) \<leftarrow> callback_request_to_connect e m api url meth [NUL] 0 None w;
     if r \<noteq> MHD_YES then Some (r, page, w)
     else feed e m api url meth chunks con_cls w }"

end
