(* ===== verification/HttpSpec.thy ===== *)
theory HttpSpec
  imports HttpService Sample
begin

text \<open>
  What the handlers of the management service hand to the service behind them: the text of the
  headers, its limits and what it does not distinguish, the body put together from its chunks, and
  a whole request.
\<close>

section \<open>The text of the headers\<close>

text \<open>What the code counts on: the overlapping \<open>sprintf\<close> appends.\<close>

definition in_place :: "mhd \<Rightarrow> bool" where
  "in_place m \<longleftrightarrow> (\<forall>data s. self_sprintf m data s = Some (data @ s))"

definition pairs_text :: "(string \<times> string) list \<Rightarrow> string" where
  "pairs_text kvs =
     (case kvs of [] \<Rightarrow> []
      | (k, v) # rest \<Rightarrow> ''{ '' @ quoted k v @ concat (map (\<lambda>(k, v). '', '' @ quoted k v) rest))"

definition json_text :: "(string \<times> string) list \<Rightarrow> string" where
  "json_text kvs = (if kvs = [] then [] else pairs_text kvs @ '' }'')"

lemma iterate_getdata_eq: "iterate_getdata = iterate_header"
  by (simp add: fun_eq_iff iterate_getdata_def iterate_header_def)

lemma iterate_more:
  assumes "in_place m"
  shows "data \<noteq> [] \<Longrightarrow> length data < n \<Longrightarrow> MHD_get_connection_values (iterate_header m n) kvs data =
    fits n (data @ concat (map (\<lambda>(k, v). '', '' @ quoted k v) kvs))"
proof (induction kvs arbitrary: data)
  case (Cons kv kvs)
  obtain k v where kv: "kv = (k, v)" by fastforce
  show ?case
  proof (cases "length (data @ '', '' @ quoted k v) < n")
    case True
    from Cons.IH [of "data @ '', '' @ quoted k v"] True Cons.prems(1) show ?thesis
      using assms by (simp add: kv iterate_header_def in_place_def fits_def)
  next
    case False
    with Cons.prems assms show ?thesis by (simp add: kv iterate_header_def in_place_def fits_def)
  qed
qed (simp add: fits_def)

lemma collect_text:
  assumes "in_place m"
  shows "collect m (iterate_header m) k n = (if mhd_values m k = [] then Some [] else fits n (json_text (mhd_values m k)))"
proof (cases "mhd_values m k")
  case Nil
  then show ?thesis by (simp add: collect_def)
next
  case (Cons kv kvs)
  obtain key v where kv: "kv = (key, v)" by fastforce
  let ?first = "''{ '' @ quoted key v"
  show ?thesis
  proof (cases "length ?first < n")
    case True
    have "MHD_get_connection_values (iterate_header m n) (kv # kvs) [] = fits n (pairs_text (kv # kvs))"
      using iterate_more [OF assms, of ?first n kvs] True
      by (simp add: kv iterate_header_def fits_def pairs_text_def)
    then show ?thesis
      using assms Cons by (auto simp: collect_def fits_def json_text_def in_place_def pairs_text_def kv)
  next
    case False
    then show ?thesis
      using Cons by (simp add: collect_def kv iterate_header_def fits_def json_text_def pairs_text_def)
  qed
qed

section \<open>The body\<close>

text \<open>The library calls the handler once per chunk; a chunk is taken up to its first NUL.\<close>

definition chunks_ok :: "mhd \<Rightarrow> (nat \<times> char list) list \<Rightarrow> bool" where
  "chunks_ok m chunks \<longleftrightarrow> (chunks \<noteq> [] \<longrightarrow> mhd_post m) \<and> (\<forall>(k, blk)\<in>set chunks. k \<noteq> 0 \<and> NUL \<in> set blk)"

definition body_of :: "(nat \<times> char list) list \<Rightarrow> string" where
  "body_of chunks = concat (map (\<lambda>(k, blk). takeWhile (\<lambda>c. c \<noteq> NUL) blk) chunks)"

lemma MHD_YES_NO [simp]: "MHD_YES \<noteq> MHD_NO" "MHD_NO \<noteq> MHD_YES"
  by (simp_all add: MHD_YES_def MHD_NO_def)

lemma feed_chunks:
  "connection_type c \<in> {POST, PUT} \<Longrightarrow> chunks_ok m chunks \<Longrightarrow>
   feed e m api url meth chunks (Some c) w =
   feed e m api url meth [] (Some (c\<lparr>con_body := con_body c @ body_of chunks\<rparr>)) w"
proof (induction chunks arbitrary: c)
  case Nil
  then show ?case by (simp add: body_of_def)
next
  case (Cons ch chunks)
  obtain k blk where ch: "ch = (k, blk)" by fastforce
  from Cons.prems(2) have "k \<noteq> 0" "NUL \<in> set blk" "mhd_post m" "chunks_ok m chunks"
    by (auto simp: chunks_ok_def ch)
  with Cons.IH [of "c\<lparr>con_body := con_body c @ takeWhile (\<lambda>c. c \<noteq> NUL) blk\<rparr>"] Cons.prems(1)
  show ?case
    by (auto simp: ch callback_request_to_connect_def c_str_def body_of_def simp del: feed.simps(1))
qed

section \<open>A whole request\<close>

text \<open>The page for an answer.\<close>

definition page_of :: "api_answer \<Rightarrow> char list" where
  "page_of a = (if an_started a \<and> 0 < an_size a
     then (case an_body a of None \<Rightarrow> [NUL] | Some blk \<Rightarrow> blk) else [NUL])"

lemma Work_function_page:
  assumes log: "log_ok e w"
    and a: "a = api (work_request m c)"
    and page: "c_str (page_of a) = Some text"
  shows "\<exists>w1. Work_function e m api c w = Some (if mhd_create m then (mhd_queue m, Some (an_code a, text), w1)
    else (MHD_NO, None, w1)) \<and> calm w w1"
proof -
  let ?fd = "rq_sockfd (work_request m c)"
  let ?v = "if an_started a
    then (let v = logged e ''GetResponseBodySize()'' 0 (L1 (an_size a)) w in
      if 0 < an_size a \<and> an_body a = None
      then err_logged e ''Work_function GetResponseBody FAILED'' ?fd L0 v else v)
    else err_logged e ''StartWork FAILED'' ?fd L0 w"
  have s: "send_page m (page_of a) (an_code a) =
      Some (if mhd_create m then (mhd_queue m, Some (an_code a, text)) else (MHD_NO, None))"
    using page by (simp add: send_page_def)
  have "Work_function e m api c w = Some (if mhd_create m then (mhd_queue m, Some (an_code a, text), ?v)
      else (MHD_NO, None, ?v))"
    using log s unfolding Work_function_def a [symmetric] Let_def page_of_def
    by (auto split: option.split if_splits)
  moreover have "calm w ?v"
    by (auto simp: Let_def logged_calm intro: calm_trans logged_calm)
  ultimately show ?thesis by blast
qed

lemma method_of_body: "meth \<in> {''POST'', ''PUT''} \<Longrightarrow> \<exists>t \<in> {POST, PUT}. method_of meth = Some t"
  and method_of_query: "meth \<in> {''GET'', ''DELETE''} \<Longrightarrow> \<exists>t \<in> {GET, DELETE}. method_of meth = Some t"
  by (auto simp: method_of_def)

lemma serve_body:
  assumes "method_of meth = Some t" "t \<in> {POST, PUT}" "chunks_ok m chunks"
  shows "serve e m api url meth chunks w =
    feed e m api url meth [] (Some (new_con_info t\<lparr>con_body := body_of chunks\<rparr>)) w"
  using feed_chunks [of "new_con_info t" m chunks e api url meth w] assms
  by (simp add: serve_def callback_request_to_connect_def new_con_info_def del: feed.simps)

definition headers :: "mhd \<Rightarrow> string" where
  "headers m = json_text (mhd_values m MHD_HEADER_KIND)"

definition arguments :: "mhd \<Rightarrow> string" where
  "arguments m = json_text (mhd_values m MHD_GET_ARGUMENT_KIND)"

lemma collect_fits:
  "in_place m \<Longrightarrow> length (json_text (mhd_values m k)) < n \<Longrightarrow>
   collect m (iterate_header m) k n = Some (json_text (mhd_values m k))"
  by (cases "mhd_values m k = []") (simp_all add: collect_text fits_def json_text_def)


text \<open>A GET or DELETE request likewise, with the arguments of the query as a text of fewer than 512
  characters like the headers.\<close>

theorem http_query_request:
  assumes "log_ok e w" "in_place m" "method_of meth = Some t" "t \<in> {GET, DELETE}"
    and "length (headers m) < 512" "length (arguments m) < 512"
    and "a = api \<lparr>rq_type = t, rq_url = url, rq_header = headers m, rq_query = arguments m, rq_body = [],
      rq_sockfd = (case mhd_pollfd m of None \<Rightarrow> 0 | Some fd \<Rightarrow> fd)\<rparr>"
    and "c_str (page_of a) = Some text"
  shows "\<exists>w1. serve e m api url meth [] w =
    Some (if mhd_create m then (mhd_queue m, Some (an_code a, text), w1) else (MHD_NO, None, w1)) \<and> calm w w1"
proof -
  let ?c = "new_con_info t\<lparr>con_query := arguments m, con_url := url, con_header := headers m\<rparr>"
  have "a = api (work_request m ?c)" using assms(7) by (simp add: new_con_info_def work_request_def)
  from Work_function_page [of e w a api m ?c, OF assms(1) this assms(8)] obtain w1 where
    w: "Work_function e m api ?c w = Some (if mhd_create m then (mhd_queue m, Some (an_code a, text), w1)
      else (MHD_NO, None, w1))" "calm w w1" by blast
  have "collect m (iterate_header m) MHD_HEADER_KIND 512 = Some (headers m)"
    "collect m (iterate_getdata m) MHD_GET_ARGUMENT_KIND 512 = Some (arguments m)"
    using collect_fits [OF assms(2)] assms(5,6) unfolding headers_def arguments_def iterate_getdata_eq by blast+
  then show ?thesis
    using w assms(3,4)
    by (intro exI [of _ w1]) (auto simp: serve_def callback_request_to_connect_def new_con_info_def)
qed

text \<open>The headers have a limit nobody checks: a POST or PUT request whose headers make a text of 20480
  characters or more writes past the buffer. And by the letter of the C standard, which leaves an
  overlapping \<open>sprintf\<close> undefined, a request with any header at all is undefined.\<close>

theorem http_headers_undefined:
  assumes "method_of meth = Some t" "t \<in> {POST, PUT}" "chunks_ok m chunks" "mhd_values m MHD_HEADER_KIND \<noteq> []"
    and "in_place m \<and> 20 * 1024 \<le> length (headers m) \<or> (\<forall>data s. self_sprintf m data s = None)"
  shows "serve e m api url meth chunks w = None"
proof -
  have "collect m (iterate_header m) MHD_HEADER_KIND (20 * 1024) = None"
    using assms(5)
  proof
    assume "in_place m \<and> 20 * 1024 \<le> length (headers m)"
    then show ?thesis using collect_text [of m MHD_HEADER_KIND "20 * 1024"] assms(4) by (simp add: fits_def headers_def)
  next
    assume no: "\<forall>data s. self_sprintf m data s = None"
    have "d \<noteq> []" if "MHD_get_connection_values (iterate_header m n) kvs d0 = Some d" "kvs \<noteq> [] \<or> d0 \<noteq> []" for n kvs d0 d
      using that no
      by (induction kvs arbitrary: d0)
        (auto simp: iterate_header_def fits_def bind_eq_Some_conv split: if_splits, metis list.distinct(1))
    note some = this [OF _ disjI1, OF _ assms(4)]
    show ?thesis
      by (cases "MHD_get_connection_values (iterate_header m (20 * 1024)) (mhd_values m MHD_HEADER_KIND) []")
        (use some no in \<open>auto simp: collect_def\<close>)
  qed
  then show ?thesis
    using assms(2) unfolding serve_body [OF assms(1-3)]
    by (auto simp: callback_request_to_connect_def new_con_info_def)
qed

lemma pairs_text_append:
  "pre \<noteq> [] \<Longrightarrow> pairs_text (pre @ kvs) = pairs_text pre @ concat (map (\<lambda>(k, v). '', '' @ quoted k v) kvs)"
  by (cases pre) (auto simp: pairs_text_def)

definition forged :: "string \<Rightarrow> string \<Rightarrow> string \<Rightarrow> string" where
  "forged v k2 v2 = v @ ''\" , \"'' @ k2 @ ''\" : \"'' @ v2"

lemma quoted_forged: "quoted k (forged v k2 v2) = quoted k v @ '', '' @ quoted k2 v2"
  by (simp add: quoted_def forged_def)

lemma json_text_forged:
  "json_text (pre @ (k, forged v k2 v2) # aft) = json_text (pre @ (k, v) # (k2, v2) # aft)"
proof (cases pre)
  case Nil
  then show ?thesis by (simp add: json_text_def pairs_text_def quoted_forged)
next
  case (Cons p ps)
  then show ?thesis by (simp add: json_text_def pairs_text_append [of "p # ps", simplified] quoted_forged)
qed

lemma serve_cong:
  assumes "\<And>n k. collect m (iterate_header m) k n = collect m' (iterate_header m') k n"
    and "mhd_pollfd m' = mhd_pollfd m" "mhd_create m' = mhd_create m" "mhd_queue m' = mhd_queue m"
      "mhd_post m' = mhd_post m"
  shows "serve e m api url meth chunks w = serve e m' api url meth chunks w"
proof -
  have "callback_request_to_connect e m = callback_request_to_connect e m'"
    unfolding fun_eq_iff callback_request_to_connect_def Work_function_def work_request_def send_page_def iterate_getdata_eq assms
    by simp
  note cb = this
  have "feed e m api url meth cs c w = feed e m' api url meth cs c w" for cs c w
    by (induction cs arbitrary: c w) (auto simp: cb split: prod.splits intro!: Option.bind_cong)
  then have "feed e m api url meth = feed e m' api url meth" by (intro ext)
  then show ?thesis by (simp only: serve_def cb)
qed


section \<open>Instances\<close>

definition sample_mhd :: mhd where
  "sample_mhd = \<lparr>mhd_values = (\<lambda>k. case k of MHD_HEADER_KIND \<Rightarrow> [(''Host'', ''h''), (''A'', ''b'')]
       | MHD_GET_ARGUMENT_KIND \<Rightarrow> [(''id'', ''7'')]),
     mhd_pollfd = Some 9, mhd_create = True, mhd_queue = MHD_YES, mhd_post = True,
     self_sprintf = (\<lambda>data s. Some (data @ s))\<rparr>"

text \<open>A service that answers with the body it was sent.\<close>

definition echo :: "api_request \<Rightarrow> api_answer" where
  "echo r = \<lparr>an_started = True, an_code = 200, an_size = int (length (rq_body r)) + 1,
     an_body = Some (rq_body r @ [NUL])\<rparr>"

lemma sample_in_place: "in_place sample_mhd"
  by (simp add: in_place_def sample_mhd_def)

lemma sample_mhd_fields [simp]:
  "mhd_create sample_mhd" "mhd_queue sample_mhd = MHD_YES" "mhd_pollfd sample_mhd = Some 9"
  "mhd_post sample_mhd"
  "mhd_values sample_mhd MHD_HEADER_KIND = [] @ (''Host'', ''h'') # (''A'', ''b'') # []"
  "headers sample_mhd = ''{ \"Host\" : \"h\" , \"A\" : \"b\"  }''"
  "arguments sample_mhd = ''{ \"id\" : \"7\"  }''"
  by (simp_all add: sample_mhd_def headers_def arguments_def json_text_def pairs_text_def quoted_def)


theorem http_query_request_witness:
  "\<exists>w1. serve sample_env sample_mhd echo ''/u'' ''GET'' [] sample_world = Some (MHD_YES, Some (200, []), w1)"
proof -
  have "c_str (page_of (echo \<lparr>rq_type = GET, rq_url = ''/u'', rq_header = headers sample_mhd,
      rq_query = arguments sample_mhd, rq_body = [],
      rq_sockfd = (case mhd_pollfd sample_mhd of None \<Rightarrow> 0 | Some fd \<Rightarrow> fd)\<rparr>)) = Some []"
    by (simp add: echo_def page_of_def c_str_def)
  moreover have "method_of ''GET'' = Some GET" by (simp add: method_of_def)
  ultimately show ?thesis
    using http_query_request [OF sample_log_ok(1) sample_in_place _ _ _ _ refl, of "''GET''" GET echo "''/u''" "[]"]
    by (auto simp: echo_def)
qed

theorem http_headers_undefined_witness:
  "serve sample_env (sample_mhd\<lparr>self_sprintf := (\<lambda>_ _. None)\<rparr>) echo ''/u'' ''PUT'' [] sample_world = None"
  by (rule http_headers_undefined [of _ PUT]) (simp_all add: method_of_def chunks_ok_def)


end
