(* ===== verification/ServiceMain.thy ===== *)
theory ServiceMain
  imports MainProg
begin

text \<open>
  inc/http/mainapp.cpp: the main program of the management service whose request handlers are in
  \<open>HttpService\<close>. Its configuration file, the single \<open>CMainApp\<close> object, the dispatch of the command
  line by the framework class \<open>CSvcApp\<close> (inc/svcapp.h), and the start-up sequence with its hundred
  attempts to reach the database. Of the classes it uses, \<open>CDatabase\<close> and \<open>CCommonThread\<close> are not in
  the repository and are parameters, like libmicrohttpd and the operations of \<open>CSvcApp\<close> that work on
  the program's files; \<open>CMiscUtil\<close> is the class of \<open>MiscUtil\<close>, the only one of that name.
\<close>

section \<open>The configuration\<close>

record service_conf =
  HTTP_PORT :: int
  LOG_PATH :: string
  DATABASE_POOL_SIZE :: int
  DATABASE_SERVER :: string
  DATABASE_USER :: string
  DATABASE_PASSWORD :: string
  DATABASE_DATABASE :: string
  APNS_POOL_SIZE :: int
  FD_LIMIT :: int
  message_keep_date :: int

text \<open>Static storage; \<open>message_keep_date\<close> is a member of \<open>CCommonThread\<close>, its first value a parameter.\<close>

definition service_static :: "int \<Rightarrow> service_conf" where
  "service_static keep =
     \<lparr>HTTP_PORT = 0, LOG_PATH = [], DATABASE_POOL_SIZE = 0, DATABASE_SERVER = [], DATABASE_USER = [],
      DATABASE_PASSWORD = [], DATABASE_DATABASE = [], APNS_POOL_SIZE = 0, FD_LIMIT = 0,
      message_keep_date = keep\<rparr>"

definition service_line :: "nat \<Rightarrow> string \<Rightarrow> service_conf \<Rightarrow> service_conf option" where
  "service_line confcount buffer g =
     (if confcount = 0
      then map_option (\<lambda>n. g\<lparr>HTTP_PORT := n\<rparr>) (scan_int buffer (HTTP_PORT g))
      else if confcount = 1
      then map_option (\<lambda>s. g\<lparr>LOG_PATH := s\<rparr>) (scan_into 256 buffer (LOG_PATH g))
      else if confcount = 2
      then map_option (\<lambda>n. g\<lparr>DATABASE_POOL_SIZE := n\<rparr>) (scan_int buffer (DATABASE_POOL_SIZE g))
      else if confcount = 3
      then map_option (\<lambda>s. g\<lparr>DATABASE_SERVER := s\<rparr>) (scan_into 256 buffer (DATABASE_SERVER g))
      else if confcount = 4
      then map_option (\<lambda>s. g\<lparr>DATABASE_USER := s\<rparr>) (scan_into 128 buffer (DATABASE_USER g))
      else if confcount = 5
      then map_option (\<lambda>s. g\<lparr>DATABASE_PASSWORD := s\<rparr>) (scan_into 128 buffer (DATABASE_PASSWORD g))
      else if confcount = 6
      then map_option (\<lambda>s. g\<lparr>DATABASE_DATABASE := s\<rparr>) (scan_into 128 buffer (DATABASE_DATABASE g))
      else if confcount = 7
      then map_option (\<lambda>n. g\<lparr>APNS_POOL_SIZE := n\<rparr>) (scan_int buffer (APNS_POOL_SIZE g))
      else if confcount = 8
      then map_option (\<lambda>n. g\<lparr>FD_LIMIT := n\<rparr>) (scan_int buffer (FD_LIMIT g))
      else if confcount = 9
      then map_option (\<lambda>n. g\<lparr>message_keep_date := n\<rparr>) (scan_int buffer (message_keep_date g))
      else Some g)"

definition read_service_conf :: "nat \<Rightarrow> string \<Rightarrow> service_conf \<Rightarrow> service_conf option" where
  "read_service_conf = read_lines service_line"

section \<open>The application object\<close>

text \<open>
  \<open>m_This\<close> and the \<open>CMainApp\<close> objects made so far, a deleted one \<open>None\<close>; of an object the restart
  time is kept, which \<open>SetRestartTime\<close> takes only when it is positive.
\<close>

record app =
  m_nRestartTm :: int

record app_store =
  m_This :: "nat option"
  objects :: "app option list"

definition no_app :: app_store where
  "no_app = \<lparr>m_This = None, objects = []\<rparr>"

definition SetRestartTime :: "int \<Rightarrow> app \<Rightarrow> app" where
  "SetRestartTime nSec a = (if 1 \<le> nSec then a\<lparr>m_nRestartTm := nSec\<rparr> else a)"

text \<open>\<open>base\<close> is the object as the constructor of \<open>CSvcApp\<close> and \<open>SetCurDir\<close> leave it.\<close>

definition CMainApp_new :: "app \<Rightarrow> app" where
  "CMainApp_new base = SetRestartTime 1 base"

definition InitInstance :: "app \<Rightarrow> app_store \<Rightarrow> nat \<times> app_store" where
  "InitInstance base s =
     (case m_This s of
        None \<Rightarrow> (length (objects s),
                 s\<lparr>m_This := Some (length (objects s)), objects := objects s @ [Some (CMainApp_new base)]\<rparr>)
      | Some p \<Rightarrow> (p, s))"

text \<open>Deleting an object twice is undefined.\<close>

definition ExitInstance :: "app_store \<Rightarrow> app_store option" where
  "ExitInstance s =
     (case m_This s of
        None \<Rightarrow> Some s
      | Some p \<Rightarrow> (case objects s ! p of None \<Rightarrow> None | Some _ \<Rightarrow> Some (s\<lparr>objects := (objects s)[p := None]\<rparr>)))"

definition PreProcessCommand :: "app \<Rightarrow> app" where
  "PreProcessCommand a = SetRestartTime 10 a"

section \<open>Commands\<close>

datatype command =
    DoInstall | DoService | DoRunService | DoDebug | DoStop | DoKill | DoUninstall | DoUpgrade
  | DoShow | DoViewIni | DoHelpMsg | DoVersionMsg

text \<open>The table \<open>BEGIN_CMDMAP\<close> makes; \<open>CMainApp\<close> adds no entry of its own before \<open>END_CMDMAP\<close>.\<close>

definition cmdEntry :: "(string \<times> command) list" where
  "cmdEntry =
     [(''-install'', DoInstall), (''-start'', DoService), (''-run'', DoRunService), (''-debug'', DoDebug),
      (''-stop'', DoStop), (''-kill'', DoKill), (''-uninstall'', DoUninstall), (''-upgrade'', DoUpgrade),
      (''-show'', DoShow), (''-i'', DoViewIni), (''-h'', DoHelpMsg), (''-v'', DoVersionMsg)]"

definition strncmp_eq :: "nat \<Rightarrow> string \<Rightarrow> string \<Rightarrow> bool" where
  "strncmp_eq n a b \<longleftrightarrow> take n (a @ [NUL]) = take n (b @ [NUL])"

fun GetCmdMap :: "(string \<times> command) list \<Rightarrow> string \<Rightarrow> command option" where
  "GetCmdMap [] cmd = None"
| "GetCmdMap ((szCmd, proc) # entries) cmd =
     (if 0 < length szCmd \<and> strncmp_eq 32 szCmd cmd then Some proc else GetCmdMap entries cmd)"

text \<open>
  What \<open>CSvcApp\<close> and the outside do: the operations behind the commands, with the index they are called
  with; the preparations of \<open>ProcessCommand\<close> (program name; program path and ini file);
  \<open>setrlimit\<close>; the database; the daemon.
\<close>

record service =
  sv_property :: "string \<Rightarrow> world \<Rightarrow> world option"
  sv_prepare :: "string \<Rightarrow> world \<Rightarrow> world option"
  sv_do :: "command \<Rightarrow> nat \<Rightarrow> string list \<Rightarrow> app \<Rightarrow> world \<Rightarrow> world option"
  sv_setrlimit :: "64 word \<Rightarrow> world \<Rightarrow> int \<times> world"
  db_Init :: "string \<Rightarrow> string \<Rightarrow> string \<Rightarrow> string \<Rightarrow> int \<Rightarrow> world \<Rightarrow> bool \<times> world"
  db_Destroy :: "world \<Rightarrow> world"
  MHD_start_daemon :: "16 word \<Rightarrow> world \<Rightarrow> bool \<times> world"

text \<open>The loop over the arguments from number \<open>i\<close> on; \<open>bRes\<close> says whether a command was known.\<close>

fun dispatch_all ::
  "service \<Rightarrow> string list \<Rightarrow> app \<Rightarrow> nat \<Rightarrow> string list \<Rightarrow> bool \<Rightarrow> world \<Rightarrow> (bool \<times> world) option" where
  "dispatch_all v argv a i [] bRes w = Some (bRes, w)"
| "dispatch_all v argv a i (arg # args) bRes w =
     (case (if arg \<noteq> [] \<and> (hd arg = CHR ''-'' \<or> hd arg = CHR ''/'') then GetCmdMap cmdEntry arg else None) of
        None \<Rightarrow> dispatch_all v argv a (Suc i) args bRes w
      | Some proc \<Rightarrow> do {
          w \<leftarrow> sv_do v proc i argv a w;
          dispatch_all v argv a (Suc i) args True w })"

definition ProcessCommand ::
  "service \<Rightarrow> string list \<Rightarrow> app \<Rightarrow> world \<Rightarrow> (bool \<times> app \<times> world) option" where
  "ProcessCommand v argv a w = do {
     w \<leftarrow> sv_property v (hd argv) w;
     if 1 < length argv \<and> argv ! 1 = ''-install''
     then do { w \<leftarrow> sv_do v DoInstall 1 argv a w; Some (True, a, w) }
     else if 1 < length argv \<and> argv ! 1 = ''-uninstall''
     then do { w \<leftarrow> sv_do v DoUninstall 1 argv a w; Some (True, a, w) }
     else do {
       w \<leftarrow> sv_prepare v (hd argv) w;
       let a = PreProcessCommand a;
       if length argv = 1
       then do { w \<leftarrow> sv_do v DoService 0 argv a w; Some (True, a, w) }
       else do {
         (bRes, w) \<leftarrow> dispatch_all v argv a 1 (tl argv) False w;
         w \<leftarrow> (if bRes then Some w else sv_do v DoHelpMsg 0 argv a w);
         Some (bRes, a, w) } } }"

section \<open>Start-up\<close>

text \<open>
  \<open>for(int i=0; i<100; i++)\<close> with \<open>n\<close> attempts left: after a failure the database is destroyed and the
  program sleeps, except that the last failure ends it.
\<close>

fun db_connect :: "service \<Rightarrow> service_conf \<Rightarrow> nat \<Rightarrow> world \<Rightarrow> bool \<times> world" where
  "db_connect v g 0 w = (True, w)"
| "db_connect v g (Suc n) w =
     (let (result, w) = db_Init v (DATABASE_SERVER g) (DATABASE_USER g) (DATABASE_PASSWORD g)
        (DATABASE_DATABASE g) (DATABASE_POOL_SIZE g) w in
      if \<not> result
      then if n = 0 then (False, w)
           else db_connect v g n (sys_sleep 30 (db_Destroy v w))
      else (True, w))"

fun start_apns_pool :: "env \<Rightarrow> nat \<Rightarrow> world \<Rightarrow> bool \<times> world" where
  "start_apns_pool e 0 w = (True, w)"
| "start_apns_pool e (Suc k) w =
     (let (result, w) = sys_code e w in
      if result \<noteq> 0 then (False, w) else start_apns_pool e k w)"

definition EXIT_FAILURE :: int where "EXIT_FAILURE = 1"

text \<open>The threads and the daemon, after the database: the lock, the semaphore, the pool, two more threads.\<close>

definition start_threads :: "env \<Rightarrow> service \<Rightarrow> service_conf \<Rightarrow> world \<Rightarrow> bool \<times> world" where
  "start_threads e v g w =
     (let (result, w) = sys_code e w in
      if result \<noteq> 0 then (False, w)
      else let (result, w) = sys_code e w in
      if result \<noteq> 0 then (False, w)
      else let (ok, w) = start_apns_pool e (nat (APNS_POOL_SIZE g)) w in
      if \<not> ok then (False, w)
      else let (result, w) = sys_code e w in
      if result \<noteq> 0 then (False, w)
      else let (result, w) = sys_code e w in
      if result \<noteq> 0 then (False, w)
      else MHD_start_daemon v (word_of_int (HTTP_PORT g)) w)"

text \<open>\<open>main\<close> up to its idle loop: \<open>keep\<close> and \<open>base\<close> as above, \<open>file\<close> the content of the configuration file.\<close>

definition service_start ::
  "env \<Rightarrow> service \<Rightarrow> int \<Rightarrow> app \<Rightarrow> string list \<Rightarrow> string option \<Rightarrow> world \<Rightarrow>
     ((service_conf \<times> app_store) startup \<times> world) option" where
  "service_start e v keep base argv file w = (
     case file of
       None \<Rightarrow> Some (Exit EXIT_FAILURE, w)
     | Some content \<Rightarrow> do {
         g \<leftarrow> read_service_conf 0 content (service_static keep);
         let (pMain, s) = InitInstance base no_app;
         a \<leftarrow> objects s ! pMain;
         (_, a, w) \<leftarrow> ProcessCommand v argv a w;
         let s = s\<lparr>objects := (objects s)[pMain := Some a]\<rparr>;
         w \<leftarrow> InitLog e (LOG_PATH g) w;
         let (result, w) = sv_setrlimit v (word_of_int (FD_LIMIT g)) w;
         if result < 0 then Some (Exit EXIT_FAILURE, w)
         else do {
           w \<leftarrow> InitLog e (LOG_PATH g) w;
           let (connected, w) = db_connect v g 100 w;
           if \<not> connected then Some (Exit EXIT_FAILURE, w)
           else let (ok, w) = start_threads e v g w in
             if \<not> ok then Some (Exit EXIT_FAILURE, w)
             else Some (Running (g, s), close_std e w) } })"

end
