(* ===== verification/ServiceSpec.thy ===== *)
theory ServiceSpec
  imports ServiceMain StartUp Sample
begin

text \<open>
  Properties of the service's main program (inc/http/mainapp.cpp): its configuration file, the
  \<open>CMainApp\<close> object, the dispatch of commands, the database loop, and the start as a whole.
\<close>

section \<open>The configuration\<close>

definition service_conf_ok :: "service_conf \<Rightarrow> bool" where
  "service_conf_ok g \<longleftrightarrow> int_range (HTTP_PORT g) \<and> word_ok 256 (LOG_PATH g) \<and>
     int_range (DATABASE_POOL_SIZE g) \<and> word_ok 256 (DATABASE_SERVER g) \<and> word_ok 128 (DATABASE_USER g) \<and>
     word_ok 128 (DATABASE_PASSWORD g) \<and> word_ok 128 (DATABASE_DATABASE g) \<and>
     int_range (APNS_POOL_SIZE g) \<and> int_range (FD_LIMIT g) \<and> int_range (message_keep_date g)"

definition service_words :: "service_conf \<Rightarrow> string list" where
  "service_words g = [fmt_d (HTTP_PORT g), LOG_PATH g, fmt_d (DATABASE_POOL_SIZE g), DATABASE_SERVER g,
     DATABASE_USER g, DATABASE_PASSWORD g, DATABASE_DATABASE g, fmt_d (APNS_POOL_SIZE g), fmt_d (FD_LIMIT g),
     fmt_d (message_keep_date g)]"

lemma service_lines_ok:
  assumes "service_conf_ok g" "list_all remark_ok rs"
  shows "\<forall>l\<in>set (zip (service_words g) rs). line_ok l"
proof
  fix l assume l: "l \<in> set (zip (service_words g) rs)"
  have "word_ok 256 (fmt_d n)" if "int_range n" for n
    using word_number [OF that] by (simp add: word_ok_def)
  moreover have "word_ok 128 s \<Longrightarrow> word_ok 256 s" for s by (simp add: word_ok_def)
  ultimately have "\<forall>s\<in>set (service_words g). word_ok 256 s"
    using assms(1) by (auto simp: service_words_def service_conf_ok_def)
  moreover obtain s r where "l = (s, r)" by (cases l)
  ultimately show "line_ok l"
    using l assms(2) set_zip_leftD [of s r] set_zip_rightD [of s r] by (auto simp: line_ok_def list_all_iff)
qed

lemma read_service_text:
  assumes "service_conf_ok g" "rs = [r0, r1, r2, r3, r4, r5, r6, r7, r8, r9]" "list_all remark_ok rs"
  shows "read_service_conf 0 (conf_lines (zip (service_words g) rs)) (service_static keep) = Some g"
proof -
  have num: "scan_int (fmt_d n @ r) old = Some n" if "int_range n" "remark_ok r" for n r old
    using scan_int_number that by blast
  have word: "scan_into n (s @ r) old = Some s" if "word_ok n s" "remark_ok r" for n s r old
    using scan_into_word that by blast
  have "parse_words service_line 0 (zip (service_words g) rs) (service_static keep) = Some g"
    using assms by (simp add: service_words_def service_line_def service_static_def service_conf_ok_def num word)
  then show ?thesis
    unfolding read_service_conf_def read_conf_lines [OF service_lines_ok [OF assms(1,3)]] .
qed

text \<open>The service's configuration file is read back as it is written, each value with or without a remark
  after it on its line, whatever value \<open>message_keep_date\<close> had before.\<close>

theorem service_conf_roundtrip:
  assumes "service_conf_ok g" "rs = [r0, r1, r2, r3, r4, r5, r6, r7, r8, r9]" "list_all remark_ok rs"
  shows "read_service_conf 0 (conf_lines (zip (service_words g) rs)) (service_static keep) = Some g"
  using assms by (rule read_service_text)

definition sample_service :: service_conf where
  "sample_service = \<lparr>HTTP_PORT = 8080, LOG_PATH = ''/log/'', DATABASE_POOL_SIZE = 4, DATABASE_SERVER = ''db'',
     DATABASE_USER = ''ms'', DATABASE_PASSWORD = ''secret'', DATABASE_DATABASE = ''cloud'', APNS_POOL_SIZE = 2,
     FD_LIMIT = 1024, message_keep_date = 7\<rparr>"

lemma sample_service_ok: "service_conf_ok sample_service"
  by (simp add: service_conf_ok_def sample_service_def word_ok_def isspace_def)

definition service_file :: string where
  "service_file = conf_lines (zip (service_words sample_service) ['' port'', [], [], [], [], [], [], [], [], []])"

lemma service_file_remarks: "list_all remark_ok ['' port'', [], [], [], [], [], [], [], [], []]"
  by (simp add: remark_ok_def newline_def)

theorem service_conf_roundtrip_witness:
  "read_service_conf 0 service_file (service_static 30) = Some sample_service"
  unfolding service_file_def
  by (rule service_conf_roundtrip [OF sample_service_ok refl service_file_remarks])

lemma service_file_read: "read_service_conf 0 service_file (service_static keep) = Some sample_service"
  unfolding service_file_def by (rule read_service_text [OF sample_service_ok refl service_file_remarks])

section \<open>The application object\<close>

fun instances :: "app \<Rightarrow> nat \<Rightarrow> app_store \<Rightarrow> nat list \<times> app_store" where
  "instances base 0 s = ([], s)"
| "instances base (Suc n) s =
     (let (p, s) = InitInstance base s; (ps, s) = instances base n s in (p # ps, s))"

lemma instances_again:
  "m_This s = Some p \<Longrightarrow> instances base n s = (replicate n p, s)"
  by (induction n) (simp_all add: InitInstance_def)

text \<open>However often \<open>InitInstance\<close> is called there is one \<open>CMainApp\<close>, and every call returns it. But
  \<open>ExitInstance\<close> deletes it without resetting \<open>m_This\<close>: afterwards \<open>InitInstance\<close> returns the deleted object, and a
  second \<open>ExitInstance\<close> is undefined.\<close>

theorem CMainApp_lifetime:
  "\<exists>s s1. instances base (Suc n) no_app = (replicate (Suc n) 0, s) \<and> objects s = [Some (CMainApp_new base)] \<and>
     ExitInstance s = Some s1 \<and> InitInstance base s1 = (0, s1) \<and> objects s1 = [None] \<and> ExitInstance s1 = None"
  by (simp add: InitInstance_def no_app_def instances_again ExitInstance_def)

section \<open>Commands\<close>

lemma strncmp_eq_short:
  assumes "length a < n" "NUL \<notin> set a" "NUL \<notin> set b"
  shows "strncmp_eq n a b \<longleftrightarrow> a = b"
proof
  assume eq: "strncmp_eq n a b"
  then have t: "a @ [NUL] = take n (b @ [NUL])" using assms(1) by (simp add: strncmp_eq_def)
  have "take n (b @ [NUL]) = b @ [NUL]"
  proof (rule ccontr)
    assume "take n (b @ [NUL]) \<noteq> b @ [NUL]"
    then have "n \<le> length b" by (cases "n - length b") auto
    then have "NUL \<in> set b" using t by (metis in_set_conv_decomp in_set_takeD take_append diff_is_0_eq take0 append_Nil2)
    with assms(3) show False by simp
  qed
  with t show "a = b" by simp
qed (simp add: strncmp_eq_def)

lemma GetCmdMap_map_of:
  assumes "\<forall>(s, c)\<in>set es. 0 < length s \<and> length s < 32 \<and> NUL \<notin> set s" "NUL \<notin> set cmd"
  shows "GetCmdMap es cmd = map_of es cmd"
  using assms(1)
proof (induction es)
  case (Cons e es)
  obtain s c where e: "e = (s, c)" by (cases e)
  have "strncmp_eq 32 s cmd \<longleftrightarrow> s = cmd"
    by (rule strncmp_eq_short) (use Cons.prems e assms(2) in auto)
  with Cons show ?case by (auto simp: e)
qed simp

lemma cmdEntry_lookup: "NUL \<notin> set cmd \<Longrightarrow> GetCmdMap cmdEntry cmd = map_of cmdEntry cmd"
  by (rule GetCmdMap_map_of) (simp_all add: cmdEntry_def)

lemma cmdEntry_dash: "map_of cmdEntry cmd = Some c \<Longrightarrow> cmd \<noteq> [] \<and> hd cmd = CHR ''-''"
  by (auto simp: cmdEntry_def split: if_splits)

text \<open>The commands of the arguments from number \<open>i\<close> on, with their numbers, and a run of them.\<close>

fun commands :: "nat \<Rightarrow> string list \<Rightarrow> (command \<times> nat) list" where
  "commands i [] = []"
| "commands i (arg # args) =
     (case map_of cmdEntry arg of None \<Rightarrow> commands (Suc i) args | Some c \<Rightarrow> (c, i) # commands (Suc i) args)"

fun run_commands :: "service \<Rightarrow> string list \<Rightarrow> app \<Rightarrow> (command \<times> nat) list \<Rightarrow> world \<Rightarrow> world option" where
  "run_commands v argv a [] w = Some w"
| "run_commands v argv a ((c, i) # cs) w = do {
     w \<leftarrow> sv_do v c i argv a w;
     run_commands v argv a cs w }"

lemma dispatch_all_commands:
  "\<forall>arg\<in>set args. NUL \<notin> set arg \<Longrightarrow>
   dispatch_all v argv a i args b w =
     map_option (\<lambda>w. (b \<or> commands i args \<noteq> [], w)) (run_commands v argv a (commands i args) w)"
proof (induction args arbitrary: i b w)
  case (Cons arg args)
  have look: "(if arg \<noteq> [] \<and> (hd arg = CHR ''-'' \<or> hd arg = CHR ''/'') then GetCmdMap cmdEntry arg else None) =
    map_of cmdEntry arg"
    using Cons.prems cmdEntry_lookup [of arg] cmdEntry_dash [of arg] by (cases "map_of cmdEntry arg") auto
  have IH: "dispatch_all v argv a (Suc i) args b' w' =
    map_option (\<lambda>w. (b' \<or> commands (Suc i) args \<noteq> [], w)) (run_commands v argv a (commands (Suc i) args) w')"
    for b' w' using Cons by simp
  show ?case
    unfolding dispatch_all.simps look
    by (cases "map_of cmdEntry arg") (simp_all add: IH split: bind_split)
qed simp


definition quiet_service :: service where
  "quiet_service = \<lparr>sv_property = (\<lambda>_. Some), sv_prepare = (\<lambda>_. Some), sv_do = (\<lambda>c i argv a. Some \<circ> sys_sleep i),
     sv_setrlimit = (\<lambda>_ w. (0, w)), db_Init = (\<lambda>_ _ _ _ _ w. (3 \<le> length (trace w), w)), db_Destroy = (\<lambda>w. w),
     MHD_start_daemon = (\<lambda>_ w. (True, w))\<rparr>"


section \<open>The database\<close>

definition db_call :: "service \<Rightarrow> service_conf \<Rightarrow> world \<Rightarrow> bool \<times> world" where
  "db_call v g w = db_Init v (DATABASE_SERVER g) (DATABASE_USER g) (DATABASE_PASSWORD g) (DATABASE_DATABASE g)
     (DATABASE_POOL_SIZE g) w"

text \<open>The world in which attempt number \<open>k\<close> is made, when all before have failed.\<close>

fun attempt :: "service \<Rightarrow> service_conf \<Rightarrow> world \<Rightarrow> nat \<Rightarrow> world" where
  "attempt v g w 0 = w"
| "attempt v g w (Suc k) = sys_sleep 30 (db_Destroy v (snd (db_call v g (attempt v g w k))))"

lemma attempt_shift:
  "attempt v g (sys_sleep 30 (db_Destroy v (snd (db_call v g w)))) k = attempt v g w (Suc k)"
  by (induction k) simp_all

lemma find_shift: "find P [0..<Suc n] = (if P 0 then Some 0 else map_option Suc (find (P \<circ> Suc) [0..<n]))"
proof -
  have "find P (map Suc xs) = map_option Suc (find (P \<circ> Suc) xs)" for xs
    by (induction xs) auto
  then show ?thesis by (simp add: upt_rec [of 0] map_Suc_upt [symmetric] del: map_Suc_upt upt_Suc)
qed

lemma db_connect_find:
  "db_connect v g (Suc n) w =
     (case find (\<lambda>k. fst (db_call v g (attempt v g w k))) [0..<Suc n] of
        None \<Rightarrow> (False, snd (db_call v g (attempt v g w n)))
      | Some k \<Rightarrow> (True, snd (db_call v g (attempt v g w k))))"
proof (induction n arbitrary: w)
  case 0
  then show ?case by (simp add: db_call_def split: prod.split)
next
  case (Suc n)
  obtain ok w1 where c: "db_call v g w = (ok, w1)" by (metis prod.exhaust)
  show ?case
  proof (cases ok)
    case True
    with c show ?thesis by (simp add: find_shift db_call_def del: upt_Suc)
  next
    case False
    have shift: "attempt v g (sys_sleep 30 (db_Destroy v w1)) k = attempt v g w (Suc k)" for k
      using attempt_shift [of v g w k] unfolding c snd_conv .
    have "db_connect v g (Suc (Suc n)) w = db_connect v g (Suc n) (sys_sleep 30 (db_Destroy v w1))"
      unfolding db_connect.simps(2) [of v g "Suc n" w] db_call_def [symmetric] c
      using False by (simp del: db_connect.simps)
    also have "\<dots> = (case find (\<lambda>k. fst (db_call v g (attempt v g w (Suc k)))) [0..<Suc n] of
        None \<Rightarrow> (False, snd (db_call v g (attempt v g w (Suc n))))
      | Some k \<Rightarrow> (True, snd (db_call v g (attempt v g w (Suc k)))))"
      unfolding Suc.IH shift ..
    finally show ?thesis
      unfolding find_shift [of _ "Suc n"] using c False by (simp add: o_def del: upt_Suc attempt.simps(2) split: option.split)
  qed
qed

text \<open>C33: The database loop makes at most a hundred attempts, with \<open>Destroy\<close> and a pause of thirty seconds between
  two of them; it ends with the first that succeeds, and fails exactly when none of the hundred does,
  without a pause after the last.\<close>

theorem db_connect_attempts:
  "db_connect v g 100 w =
     (case find (\<lambda>k. fst (db_call v g (attempt v g w k))) [0..<100] of
        None \<Rightarrow> (False, snd (db_call v g (attempt v g w 99)))
      | Some k \<Rightarrow> (True, snd (db_call v g (attempt v g w k))))"
  using db_connect_find [of v g 99 w] by (simp del: upt_Suc)

section \<open>The start as a whole\<close>

text \<open>What the library calls do not do: close a descriptor that is not theirs.\<close>

definition grows :: "world \<Rightarrow> world \<Rightarrow> bool" where
  "grows w w1 \<longleftrightarrow> open_fds w \<subseteq> open_fds w1"

lemma grows_trans: "grows w w1 \<Longrightarrow> grows w1 w2 \<Longrightarrow> grows w w2"
  by (auto simp: grows_def)

definition library_ok :: "service \<Rightarrow> service_conf \<Rightarrow> bool" where
  "library_ok v g \<longleftrightarrow>
     (\<forall>u n. 0 \<le> fst (sv_setrlimit v n u) \<and> grows u (snd (sv_setrlimit v n u))) \<and>
     (\<forall>u. grows u (snd (db_call v g u)) \<and> grows u (db_Destroy v u)) \<and>
     (\<forall>u. \<exists>k<100. fst (db_call v g (attempt v g u k))) \<and>
     (\<forall>u n. fst (MHD_start_daemon v n u) \<and> grows u (snd (MHD_start_daemon v n u)))"

lemma grows_attempt: "library_ok v g \<Longrightarrow> grows u (attempt v g u k)"
proof (induction k)
  case (Suc k)
  have sl: "grows x (sys_sleep n x)" for x n by (simp add: grows_def sys_sleep_def emit_def)
  from Suc have "grows u (attempt v g u k)" by blast
  moreover have "grows x (snd (db_call v g x))" "grows x (db_Destroy v x)" for x
    using Suc.prems by (simp_all add: library_ok_def)
  ultimately show ?case using sl grows_trans by (metis attempt.simps(2))
qed (simp add: grows_def)

lemma db_connect_ok:
  assumes "library_ok v g"
  shows "\<exists>u1. db_connect v g 100 u = (True, u1) \<and> grows u u1"
proof -
  obtain k where "k < 100" "fst (db_call v g (attempt v g u k))"
    using assms unfolding library_ok_def by blast
  then obtain j where "find (\<lambda>k. fst (db_call v g (attempt v g u k))) [0..<100] = Some j"
    by (metis atLeastLessThan_iff find_None_iff not_None_eq set_upt zero_le)
  then have "db_connect v g 100 u = (True, snd (db_call v g (attempt v g u j)))"
    using db_connect_find [of v g 99 u] by (simp del: upt_Suc)
  moreover have "grows u (snd (db_call v g (attempt v g u j)))"
    using assms grows_attempt [OF assms] grows_trans by (metis library_ok_def)
  ultimately show ?thesis by blast
qed

lemma sys_code_ok: "\<forall>t. e_mutex e t = 0 \<Longrightarrow> \<exists>u1. sys_code e u = (0, u1) \<and> grows u u1"
  by (simp add: sys_code_def grows_def)

lemma start_apns_pool_ok: "\<forall>t. e_mutex e t = 0 \<Longrightarrow> \<exists>u1. start_apns_pool e k u = (True, u1) \<and> grows u u1"
proof (induction k arbitrary: u)
  case (Suc k)
  from sys_code_ok [OF Suc.prems] obtain u1 where c: "sys_code e u = (0, u1)" "grows u u1" by blast
  from Suc.IH [OF Suc.prems] obtain u2 where "start_apns_pool e k u1 = (True, u2)" "grows u1 u2" by blast
  with c show ?case using grows_trans by auto
qed (simp add: grows_def)

lemma start_threads_ok:
  assumes e: "\<forall>t. e_mutex e t = 0" and v: "library_ok v g"
  shows "\<exists>u1. start_threads e v g u = (True, u1) \<and> grows u u1"
proof -
  from sys_code_ok [OF e] obtain u1 where 1: "sys_code e u = (0, u1)" "grows u u1" by blast
  from sys_code_ok [OF e] obtain u2 where 2: "sys_code e u1 = (0, u2)" "grows u1 u2" by blast
  from start_apns_pool_ok [OF e] obtain u3 where
    3: "start_apns_pool e (nat (APNS_POOL_SIZE g)) u2 = (True, u3)" "grows u2 u3" by blast
  from sys_code_ok [OF e] obtain u4 where 4: "sys_code e u3 = (0, u4)" "grows u3 u4" by blast
  from sys_code_ok [OF e] obtain u5 where 5: "sys_code e u4 = (0, u5)" "grows u4 u5" by blast
  obtain u6 where 6: "MHD_start_daemon v (word_of_int (HTTP_PORT g)) u5 = (True, u6)" "grows u5 u6"
    using v unfolding library_ok_def by (metis prod.collapse)
  have "start_threads e v g u = (True, u6)"
    by (simp add: start_threads_def 1 2 3 4 5 6)
  moreover have "grows u u6" using 1(2) 2(2) 3(2) 4(2) 5(2) 6(2) grows_trans by metis
  ultimately show ?thesis by blast
qed

lemma InitLog_opens:
  assumes "\<forall>t. \<exists>ds. e_opendir e t = Some ds \<and> names_fit path ds" "length path < 256"
  shows "\<exists>fd u1. InitLog e path u = Some u1 \<and> open_fds u1 = insert fd (open_fds u) \<and> fd \<notin> open_fds u"
proof -
  obtain ds where "e_opendir e (tick u) = Some ds" "names_fit path ds" using assms(1) by blast
  from InitLog_spec [OF this(1) assms(2) this(2)] obtain u1 where
    "InitLog e path u = Some u1" "fds u1 = (dir_fd u, \<lparr>up = False, rx = []\<rparr>) # fds u" by blast
  moreover have "dir_fd u \<notin> open_fds u"
    using lowest_free_fresh [of "map fst (fds u)"] unfolding keys_map_fst .
  ultimately show ?thesis by auto
qed

text \<open>On a machine where everything succeeds and the database can be reached within a hundred attempts the
  service gets to its idle loop with the configuration of its file, having called \<open>InitLog\<close> twice: two
  descriptors that were free before, one for each reading of the log directory, stay open for good
  unless they are those of the standard streams, which are closed last.\<close>

theorem service_start_leaks:
  assumes "read_service_conf 0 content (service_static keep) = Some g" "length (LOG_PATH g) < 256"
    and "ProcessCommand v argv (CMainApp_new base) w = Some (r, a, w1)" "grows w w1"
    and "\<forall>t. \<exists>ds. e_opendir e t = Some ds \<and> names_fit (LOG_PATH g) ds" "\<forall>t. e_mutex e t = 0" "library_ok v g"
  shows "\<exists>fd1 fd2 w2. service_start e v keep base argv (Some content) w =
      Some (Running (g, \<lparr>m_This = Some 0, objects = [Some a]\<rparr>), w2) \<and>
    fd1 \<notin> open_fds w \<and> fd2 \<notin> open_fds w \<and> fd1 \<noteq> fd2 \<and> open_fds w \<union> {fd1, fd2} - {0, 1, 2} \<subseteq> open_fds w2"
proof -
  from InitLog_opens [OF assms(5,2)] obtain fd1 w2 where
    i1: "InitLog e (LOG_PATH g) w1 = Some w2" "open_fds w2 = insert fd1 (open_fds w1)" "fd1 \<notin> open_fds w1" by blast
  obtain q w3 where rl: "sv_setrlimit v (word_of_int (FD_LIMIT g)) w2 = (q, w3)" "0 \<le> q" "grows w2 w3"
    using assms(7) unfolding library_ok_def by (metis prod.collapse)
  from InitLog_opens [OF assms(5,2)] obtain fd2 w4 where
    i2: "InitLog e (LOG_PATH g) w3 = Some w4" "open_fds w4 = insert fd2 (open_fds w3)" "fd2 \<notin> open_fds w3" by blast
  from db_connect_ok [OF assms(7)] obtain w5 where d: "db_connect v g 100 w4 = (True, w5)" "grows w4 w5" by blast
  from start_threads_ok [OF assms(6,7)] obtain w6 where t: "start_threads e v g w5 = (True, w6)" "grows w5 w6" by blast
  have "service_start e v keep base argv (Some content) w =
    Some (Running (g, \<lparr>m_This = Some 0, objects = [Some a]\<rparr>), close_std e w6)"
    using assms(1,3) i1(1) rl(1,2) i2(1) d(1) t(1)
    by (simp add: service_start_def InitInstance_def no_app_def)
  moreover have "fd1 \<notin> open_fds w" "fd2 \<notin> open_fds w" "fd1 \<noteq> fd2"
    using i1(2,3) i2(3) rl(3) assms(4) by (auto simp: grows_def)
  moreover have "open_fds w \<union> {fd1, fd2} - {0, 1, 2} \<subseteq> open_fds (close_std e w6)"
    using i1(2) rl(3) i2(2) d(2) t(2) assms(4) unfolding close_std_fds grows_def by blast
  ultimately show ?thesis by blast
qed

definition term_world :: world where
  "term_world = sample_world\<lparr>fds := map (\<lambda>fd. (fd, \<lparr>up = False, rx = []\<rparr>)) [0, 1, 2]\<rparr>"

lemma quiet_attempt: "length (trace (attempt quiet_service g u k)) = length (trace u) + k"
  by (induction k) (simp_all add: db_call_def quiet_service_def sys_sleep_def emit_def)

lemma quiet_library: "library_ok quiet_service g"
  unfolding library_ok_def
proof (intro conjI allI)
  fix u
  have "3 < (100 :: nat) \<and> fst (db_call quiet_service g (attempt quiet_service g u 3))"
    using quiet_attempt [of g u 3] by (simp add: db_call_def quiet_service_def del: attempt.simps)
  then show "\<exists>k<100. fst (db_call quiet_service g (attempt quiet_service g u k))" by blast
qed (simp_all add: quiet_service_def db_call_def grows_def)

theorem service_start_leaks_witness:
  "\<exists>s w2. service_start sample_env quiet_service 30 \<lparr>m_nRestartTm = 30\<rparr> [''ms'', ''-v''] (Some service_file) term_world =
     Some (Running (sample_service, s), w2) \<and> open_fds w2 - {0, 1, 2} \<noteq> {}"
proof -
  have dir: "\<forall>t. \<exists>ds. e_opendir sample_env t = Some ds \<and> names_fit (LOG_PATH sample_service) ds"
    by (simp add: names_fit_def sample_dir_def sample_service_def)
  have std: "open_fds term_world = {0, 1, 2}" by (auto simp: term_world_def keys_def)
  have pc: "ProcessCommand quiet_service [''ms'', ''-v''] (CMainApp_new \<lparr>m_nRestartTm = 30\<rparr>) term_world =
    Some (True, \<lparr>m_nRestartTm = 10\<rparr>, sys_sleep 1 term_world)"
    by (simp add: ProcessCommand_def quiet_service_def CMainApp_new_def PreProcessCommand_def SetRestartTime_def
        cmdEntry_def strncmp_eq_def)
  have gr: "grows term_world (sys_sleep 1 term_world)" by (simp add: grows_def sys_sleep_def emit_def)
  have len: "length (LOG_PATH sample_service) < 256" by (simp add: sample_service_def)
  have mutex: "\<forall>t. e_mutex sample_env t = 0" by simp
  from service_start_leaks [OF service_file_read [of 30] len pc gr dir mutex quiet_library, unfolded std]
  obtain fd1 fd2 w2 where
    r: "service_start sample_env quiet_service 30 \<lparr>m_nRestartTm = 30\<rparr> [''ms'', ''-v''] (Some service_file) term_world =
      Some (Running (sample_service, \<lparr>m_This = Some 0, objects = [Some \<lparr>m_nRestartTm = 10\<rparr>]\<rparr>), w2)"
    and fd: "fd1 \<notin> {0, 1, 2}" "{0, 1, 2} \<union> {fd1, fd2} - {0, 1, 2} \<subseteq> open_fds w2"
    by blast
  from fd have "fd1 \<in> open_fds w2 - {0, 1, 2}" by blast
  with r show ?thesis by blast
qed

end
