(* ===== verification/InetSock.thy ===== *)
theory InetSock
  imports OS_World
begin

text \<open>
  The message protocol of the base class of the sockets (inc/inetsock.h, test/INNOLIB/src/inetsock.cpp):
  a message is collected in the send buffer behind a header of eight numbers, padded to a multiple of
  128 bytes and sent; the receiver checks identification and sequence number and hands the fields out.
  The machine is little-endian with 32-bit \<open>int\<close> and 64-bit \<open>long\<close>; \<open>float\<close> and \<open>double\<close> are their bit
  patterns. The messages to \<open>stderr\<close> are left out.
\<close>

section \<open>Byte order\<close>

definition sizeint :: int where "sizeint = 4"
definition sizefloat :: int where "sizefloat = 4"
definition sizedouble :: int where "sizedouble = 8"
definition sizeint64 :: int where "sizeint64 = 8"

definition htonf :: "32 word \<Rightarrow> 32 word" where
  "htonf val = (let nv = of_le (to_le 4 val); nv = htonl nv in of_le (to_le 4 nv))"

definition ntohf :: "32 word \<Rightarrow> 32 word" where
  "ntohf val = (let nv = of_le (to_le 4 val); nv = ntohl nv in of_le (to_le 4 nv))"

definition htond :: "64 word \<Rightarrow> 64 word" where
  "htond val =
     (let ps = to_le 8 val;
          low = of_le (take 4 ps) :: 32 word; high = of_le (drop 4 ps) :: 32 word;
          high = htonl high; low = htonl low
      in of_le (to_le 4 high @ to_le 4 low))"

definition ntohd :: "64 word \<Rightarrow> 64 word" where
  "ntohd val =
     (let ps = to_le 8 val;
          high = of_le (take 4 ps) :: 32 word; low = of_le (drop 4 ps) :: 32 word;
          high = ntohl high; low = ntohl low
      in of_le (to_le 4 low @ to_le 4 high))"

definition htonint64 :: "64 word \<Rightarrow> 64 word" where
  "htonint64 val =
     (let ps = to_le 8 val;
          low = of_le (take 4 ps) :: 32 word; high = of_le (drop 4 ps) :: 32 word;
          high = htonl high; low = htonl low
      in of_le (to_le 4 high @ to_le 4 low))"

definition ntohint64 :: "64 word \<Rightarrow> 64 word" where
  "ntohint64 val =
     (let ps = to_le 8 val;
          high = of_le (take 4 ps) :: 32 word; low = of_le (drop 4 ps) :: 32 word;
          high = ntohl high; low = ntohl low
      in of_le (to_le 4 low @ to_le 4 high))"

section \<open>The header\<close>

record msg_header =
  mh_id :: "32 word"
  mh_ver :: "32 word"
  mh_msg :: "32 word"
  mh_sub :: "32 word"
  mh_len :: "32 word"
  mh_padd :: "32 word"
  mh_user :: "32 word"
  mh_seqno :: "32 word"

definition head_zero :: msg_header where
  "head_zero = \<lparr>mh_id = 0, mh_ver = 0, mh_msg = 0, mh_sub = 0, mh_len = 0, mh_padd = 0, mh_user = 0, mh_seqno = 0\<rparr>"

definition hton :: "msg_header \<Rightarrow> msg_header" where
  "hton h = \<lparr>mh_id = htonl (mh_id h), mh_ver = htonl (mh_ver h), mh_msg = htonl (mh_msg h),
     mh_sub = htonl (mh_sub h), mh_len = htonl (mh_len h), mh_padd = htonl (mh_padd h),
     mh_user = htonl (mh_user h), mh_seqno = htonl (mh_seqno h)\<rparr>"

definition ntoh :: "msg_header \<Rightarrow> msg_header" where
  "ntoh h = \<lparr>mh_id = ntohl (mh_id h), mh_ver = ntohl (mh_ver h), mh_msg = ntohl (mh_msg h),
     mh_sub = ntohl (mh_sub h), mh_len = ntohl (mh_len h), mh_padd = ntohl (mh_padd h),
     mh_user = ntohl (mh_user h), mh_seqno = ntohl (mh_seqno h)\<rparr>"

text \<open>The structure in memory, and the structure found in 32 bytes of memory.\<close>

definition sizeheader :: int where "sizeheader = 32"

definition head_bytes :: "msg_header \<Rightarrow> byte list" where
  "head_bytes h = concat (map (to_le 4)
     [mh_id h, mh_ver h, mh_msg h, mh_sub h, mh_len h, mh_padd h, mh_user h, mh_seqno h])"

definition head_of :: "byte list \<Rightarrow> msg_header" where
  "head_of bs = (let f = \<lambda>i. of_le (take 4 (drop (4 * i) bs)) in
     \<lparr>mh_id = f 0, mh_ver = f 1, mh_msg = f 2, mh_sub = f 3, mh_len = f 4, mh_padd = f 5, mh_user = f 6, mh_seqno = f 7\<rparr>)"

definition TCPSOCK_SEGSIZE :: int where "TCPSOCK_SEGSIZE = 128"
definition TCPSOCK_IDENT :: "32 word" where "TCPSOCK_IDENT = 0x62382060"
definition TCPSOCK_LIMITBUF :: int where "TCPSOCK_LIMITBUF = 5048576"

section \<open>The socket\<close>

text \<open>
  The sizes \<open>m_nSendBuf\<close> and \<open>m_nRecvBuf\<close> are the lengths of the two buffers. \<open>m_pDataBuf\<close>, host, port and
  backlog take no part in the protocol.
\<close>

record inet_sock =
  m_nSockFd :: int
  m_nTimeout :: int
  m_pSendBuf :: "byte list"
  m_nSendLen :: int
  m_pRecvBuf :: "byte list"
  m_nRecvLen :: int
  m_nRecvCur :: int
  m_msgHead :: msg_header
  m_uSendSeq :: "32 word"
  m_uRecvSeq :: "32 word"

definition InetSocket_new :: "int \<Rightarrow> inet_sock" where
  "InetSocket_new s = \<lparr>m_nSockFd = s, m_nTimeout = 30, m_pSendBuf = [], m_nSendLen = 0, m_pRecvBuf = [],
     m_nRecvLen = 0, m_nRecvCur = 0, m_msgHead = head_zero, m_uSendSeq = 0, m_uRecvSeq = 0\<rparr>"

definition IsConnected :: "inet_sock \<Rightarrow> bool" where
  "IsConnected s \<longleftrightarrow> 0 < m_nSockFd s"

definition SetTimeout :: "int \<Rightarrow> inet_sock \<Rightarrow> inet_sock" where
  "SetTimeout nSecs s = s\<lparr>m_nTimeout := nSecs\<rparr>"

text \<open>
  \<open>heap i\<close> is what \<open>realloc\<close> leaves at place \<open>i\<close> of a grown buffer. The first result is whether a pointer
  other than null is returned; the callers do not look at it.
\<close>

definition grown :: "(nat \<Rightarrow> byte) \<Rightarrow> int \<Rightarrow> byte list \<Rightarrow> byte list" where
  "grown heap n buf =
     (if int (length buf) < n then buf @ map heap [length buf..<nat (n + 1024)] else buf)"

definition GetSendBuf :: "(nat \<Rightarrow> byte) \<Rightarrow> int \<Rightarrow> inet_sock \<Rightarrow> bool \<times> inet_sock" where
  "GetSendBuf heap n s =
     (if TCPSOCK_LIMITBUF < n then (False, s)
      else (True, s\<lparr>m_pSendBuf := grown heap n (m_pSendBuf s)\<rparr>))"

definition GetRecvBuf :: "(nat \<Rightarrow> byte) \<Rightarrow> int \<Rightarrow> inet_sock \<Rightarrow> bool \<times> inet_sock" where
  "GetRecvBuf heap n s =
     (if TCPSOCK_LIMITBUF < n then (False, s)
      else (True, s\<lparr>m_pRecvBuf := grown heap n (m_pRecvBuf s)\<rparr>))"

text \<open>\<open>Close()\<close> without argument.\<close>

definition sock_close :: "env \<Rightarrow> inet_sock \<Rightarrow> world \<Rightarrow> inet_sock \<times> world" where
  "sock_close e s w =
     (let (s, w) = (if 0 < m_nSockFd s
                    then let (_, w) = sys_close e (m_nSockFd s) w in (s\<lparr>m_nSockFd := - 1\<rparr>, w)
                    else (s, w))
      in (s\<lparr>m_msgHead := head_zero, m_uSendSeq := 0, m_uRecvSeq := 0\<rparr>, w))"

section \<open>Moving bytes\<close>

text \<open>One turn of the loops: wait with \<open>select\<close> when there is a time limit, then \<open>send\<close> or \<open>recv\<close>.
  A \<open>select\<close> that times out or fails makes the loop return 0.\<close>

definition turn_send :: "env \<Rightarrow> inet_sock \<Rightarrow> byte list \<Rightarrow> world \<Rightarrow> int \<times> world" where
  "turn_send e s bs w =
     (if 0 < m_nTimeout s \<and> e_select e (tick w) \<le> 0 then (0, w\<lparr>tick := Suc (tick w)\<rparr>)
      else sys_write e (m_nSockFd s) bs (if 0 < m_nTimeout s then w\<lparr>tick := Suc (tick w)\<rparr> else w))"

definition turn_recv :: "env \<Rightarrow> inet_sock \<Rightarrow> nat \<Rightarrow> world \<Rightarrow> byte list option \<times> world" where
  "turn_recv e s n w =
     (if 0 < m_nTimeout s \<and> e_select e (tick w) \<le> 0 then (Some [], w\<lparr>tick := Suc (tick w)\<rparr>)
      else sys_read e (m_nSockFd s) n (if 0 < m_nTimeout s then w\<lparr>tick := Suc (tick w)\<rparr> else w))"

text \<open>\<open>FD_SET\<close> of a descriptor of 1024 or more is undefined.\<close>

definition watchable :: "inet_sock \<Rightarrow> bool" where
  "watchable s \<longleftrightarrow> m_nTimeout s \<le> 0 \<or> 0 \<le> m_nSockFd s \<and> m_nSockFd s < 1024"

text \<open>\<open>Send(msg, size, opt)\<close> of the \<open>size\<close> bytes \<open>msg\<close>.\<close>

definition sock_send :: "env \<Rightarrow> inet_sock \<Rightarrow> byte list \<Rightarrow> world \<Rightarrow> (int \<times> world) option" where
  "sock_send e s msg w =
     (if m_nSockFd s \<le> 0 then Some (- 1, w)
      else if \<not> watchable s then None
      else case write_all (turn_send e s) (length msg) msg w of
             (Some nwritten, w) \<Rightarrow> Some (nwritten, w)
           | (None, w) \<Rightarrow> Some (int (length msg), w))"

text \<open>\<open>Recv(msg, size, opt)\<close>: return value and the \<open>size\<close> bytes at \<open>msg\<close> afterwards, which are zeroed first.\<close>

definition sock_recv :: "env \<Rightarrow> inet_sock \<Rightarrow> nat \<Rightarrow> world \<Rightarrow> (int \<times> byte list \<times> world) option" where
  "sock_recv e s n w =
     (if \<not> watchable s then None
      else case read_all (turn_recv e s) n w of
             (got, st, w) \<Rightarrow>
               Some (case st of None \<Rightarrow> int n | Some nread \<Rightarrow> nread, got @ replicate (n - length got) 0, w))"

section \<open>Sending a message\<close>

definition SendHeader :: "(nat \<Rightarrow> byte) \<Rightarrow> int \<Rightarrow> int \<Rightarrow> inet_sock \<Rightarrow> inet_sock" where
  "SendHeader heap msg sub s =
     (let s = s\<lparr>m_msgHead := (m_msgHead s)\<lparr>mh_id := TCPSOCK_IDENT, mh_ver := 0, mh_msg := word_of_int msg,
                  mh_sub := word_of_int sub, mh_seqno := m_uSendSeq s + 1\<rparr>,
                m_uSendSeq := m_uSendSeq s + 1, m_nSendLen := sizeheader\<rparr>
      in snd (GetSendBuf heap (m_nSendLen s) s))"

definition SendVer :: "int \<Rightarrow> inet_sock \<Rightarrow> inet_sock" where
  "SendVer ver s = s\<lparr>m_msgHead := (m_msgHead s)\<lparr>mh_ver := word_of_int ver\<rparr>\<rparr>"

definition SendUser :: "int \<Rightarrow> inet_sock \<Rightarrow> inet_sock" where
  "SendUser user s = s\<lparr>m_msgHead := (m_msgHead s)\<lparr>mh_user := word_of_int user\<rparr>\<rparr>"

text \<open>What all \<open>SendSet\<close> have in common: room for the bytes, \<open>memcpy\<close>, and the new length.\<close>

definition put_bytes :: "(nat \<Rightarrow> byte) \<Rightarrow> byte list \<Rightarrow> inet_sock \<Rightarrow> inet_sock option" where
  "put_bytes heap bs s = do {
     let (_, s) = GetSendBuf heap (m_nSendLen s + int (length bs)) s;
     buf \<leftarrow> poke (m_nSendLen s) bs (m_pSendBuf s);
     Some (s\<lparr>m_pSendBuf := buf, m_nSendLen := m_nSendLen s + int (length bs)\<rparr>) }"

definition SendSet_int :: "(nat \<Rightarrow> byte) \<Rightarrow> int \<Rightarrow> inet_sock \<Rightarrow> inet_sock option" where
  "SendSet_int heap val s = put_bytes heap (to_le 4 (htonl (word_of_int val))) s"

definition SendSet_uint :: "(nat \<Rightarrow> byte) \<Rightarrow> 32 word \<Rightarrow> inet_sock \<Rightarrow> inet_sock option" where
  "SendSet_uint heap val s = put_bytes heap (to_le 4 (htonl val)) s"

text \<open>\<open>htonl\<close> takes the low half of the \<open>long\<close>; of the result the first four bytes are copied.\<close>

definition SendSet_long :: "(nat \<Rightarrow> byte) \<Rightarrow> 64 word \<Rightarrow> inet_sock \<Rightarrow> inet_sock option" where
  "SendSet_long heap val s =
     (let val = ucast (htonl (ucast val)) :: 64 word in put_bytes heap (take 4 (to_le 8 val)) s)"

definition SendSet_float :: "(nat \<Rightarrow> byte) \<Rightarrow> 32 word \<Rightarrow> inet_sock \<Rightarrow> inet_sock option" where
  "SendSet_float heap val s = put_bytes heap (to_le 4 (htonf val)) s"

definition SendSet_double :: "(nat \<Rightarrow> byte) \<Rightarrow> 64 word \<Rightarrow> inet_sock \<Rightarrow> inet_sock option" where
  "SendSet_double heap val s = put_bytes heap (to_le 8 (htond val)) s"

definition SendSet_int64 :: "(nat \<Rightarrow> byte) \<Rightarrow> 64 word \<Rightarrow> inet_sock \<Rightarrow> inet_sock option" where
  "SendSet_int64 heap val s = put_bytes heap (to_le 8 (htonint64 val)) s"

definition SendSet_bytes :: "(nat \<Rightarrow> byte) \<Rightarrow> byte list \<Rightarrow> int \<Rightarrow> inet_sock \<Rightarrow> inet_sock option" where
  "SendSet_bytes heap val n s = do {
     bs \<leftarrow> peek 0 n val;
     put_bytes heap bs s }"

text \<open>A string that does not fit is cut in the caller's own array, the first result.\<close>

definition SendSetStr ::
  "(nat \<Rightarrow> byte) \<Rightarrow> char list option \<Rightarrow> int \<Rightarrow> inet_sock \<Rightarrow> (char list option \<times> inet_sock) option" where
  "SendSetStr heap val n s =
     (case val of
        None \<Rightarrow> Some (None, s)
      | Some blk \<Rightarrow>
          if n \<le> 0 then Some (Some blk, s)
          else do {
            str \<leftarrow> c_str blk;
            let blk = (if n \<le> int (length str) then blk[nat (n - 1) := NUL] else blk);
            str \<leftarrow> c_str blk;
            s \<leftarrow> SendSet_int heap (int (length str)) s;
            s \<leftarrow> SendSet_bytes heap (bytes_of blk) (int (length str)) s;
            Some (Some blk, s) })"

definition SendFlush :: "env \<Rightarrow> (nat \<Rightarrow> byte) \<Rightarrow> inet_sock \<Rightarrow> world \<Rightarrow> (int \<times> inet_sock \<times> world) option" where
  "SendFlush e heap s w =
     (if \<not> IsConnected s then Some (- 1, s, w)
      else if 0 < m_nSendLen s \<and> mh_id (m_msgHead s) \<noteq> 0
      then do {
        let h = (m_msgHead s)\<lparr>mh_len := word_of_int (m_nSendLen s - sizeheader)\<rparr>;
        let ret = m_nSendLen s mod TCPSOCK_SEGSIZE;
        let s = (if 0 < ret
                 then snd (GetSendBuf heap (m_nSendLen s + (TCPSOCK_SEGSIZE - ret))
                        (s\<lparr>m_msgHead := h\<lparr>mh_padd := word_of_int (TCPSOCK_SEGSIZE - ret)\<rparr>,
                           m_nSendLen := m_nSendLen s + (TCPSOCK_SEGSIZE - ret)\<rparr>))
                 else s\<lparr>m_msgHead := h\<lparr>mh_padd := 0\<rparr>\<rparr>);
        let s = s\<lparr>m_msgHead := hton (m_msgHead s)\<rparr>;
        buf \<leftarrow> poke 0 (head_bytes (m_msgHead s)) (m_pSendBuf s);
        let s = s\<lparr>m_pSendBuf := buf, m_msgHead := ntoh (m_msgHead s)\<rparr>;
        msg \<leftarrow> peek 0 (m_nSendLen s) (m_pSendBuf s);
        (ret, w) \<leftarrow> sock_send e s msg w;
        let (ret, s, w) = (if ret \<noteq> m_nSendLen s
                           then let (s, w) = sock_close e s w in (- 1, s, w)
                           else (ret, s, w));
        Some (ret, s\<lparr>m_nSendLen := 0, m_msgHead := (m_msgHead s)\<lparr>mh_id := 0\<rparr>\<rparr>, w) }
      else let (s, w) = sock_close e s w in Some (- 1, s, w))"

section \<open>Receiving a message\<close>

text \<open>The result has the return value and \<open>msg\<close>. What is received goes to memory only inside the buffer.\<close>

definition RecvHeader ::
  "env \<Rightarrow> (nat \<Rightarrow> byte) \<Rightarrow> inet_sock \<Rightarrow> world \<Rightarrow> (int \<times> int \<times> inet_sock \<times> world) option" where
  "RecvHeader e heap s w =
     (if \<not> IsConnected s then Some (- 1, 0, s, w)
      else do {
        let s = s\<lparr>m_nRecvCur := 0, m_nRecvLen := 0\<rparr>;
        (ret, bs, w) \<leftarrow> sock_recv e s (nat sizeheader) w;
        let s = s\<lparr>m_msgHead := head_of bs\<rparr>;
        if ret = sizeheader
        then do {
          let s = s\<lparr>m_msgHead := ntoh (m_msgHead s), m_uRecvSeq := m_uRecvSeq s + 1\<rparr>;
          if mh_seqno (m_msgHead s) = m_uRecvSeq s \<and> mh_id (m_msgHead s) = TCPSOCK_IDENT
          then do {
            len \<leftarrow> c_int (sint (mh_len (m_msgHead s)) + sint (mh_padd (m_msgHead s)));
            if 0 < len
            then do {
              let (_, s) = GetRecvBuf heap len s;
              if int (length (m_pRecvBuf s)) < len then None
              else do {
                (num, bs, w) \<leftarrow> sock_recv e s (nat len) w;
                let s = s\<lparr>m_pRecvBuf := bs @ drop (nat len) (m_pRecvBuf s)\<rparr>;
                if num = len
                then Some (ret, sint (mh_msg (m_msgHead s)), s\<lparr>m_nRecvLen := sint (mh_len (m_msgHead s))\<rparr>, w)
                else let (s, w) = sock_close e s w in Some (- 1, 0, s, w) } }
            else Some (ret, 0, s, w) }
          else let (s, w) = sock_close e s w in Some (- 1, 0, s, w) }
        else let (s, w) = sock_close e s w in Some (- 1, 0, s, w) })"

text \<open>\<open>n\<close> bytes from the receive buffer, \<open>None\<close> inside when there are fewer: what the \<open>RecvGet\<close> of a number do.\<close>

definition take_bytes :: "int \<Rightarrow> inet_sock \<Rightarrow> (byte list option \<times> inet_sock) option" where
  "take_bytes n s =
     (if n \<le> m_nRecvLen s - m_nRecvCur s
      then do {
        bs \<leftarrow> peek (m_nRecvCur s) n (m_pRecvBuf s);
        Some (Some bs, s\<lparr>m_nRecvCur := m_nRecvCur s + n\<rparr>) }
      else Some (None, s))"

definition RecvGet_int :: "inet_sock \<Rightarrow> (int \<times> inet_sock) option" where
  "RecvGet_int s = do {
     (bs, s) \<leftarrow> take_bytes sizeint s;
     Some (case bs of None \<Rightarrow> 0 | Some bs \<Rightarrow> sint (ntohl (of_le bs)), s) }"

definition RecvGet_uint :: "inet_sock \<Rightarrow> (32 word \<times> inet_sock) option" where
  "RecvGet_uint s = do {
     (bs, s) \<leftarrow> take_bytes sizeint s;
     Some (case bs of None \<Rightarrow> 0 | Some bs \<Rightarrow> ntohl (of_le bs), s) }"

text \<open>Four bytes into the \<open>long\<close>, which is 0; \<open>ntohl\<close> takes and returns an unsigned 32-bit number.\<close>

definition RecvGet_long :: "inet_sock \<Rightarrow> (64 word \<times> inet_sock) option" where
  "RecvGet_long s = do {
     (bs, s) \<leftarrow> take_bytes sizeint s;
     Some (case bs of None \<Rightarrow> 0 | Some bs \<Rightarrow> ucast (ntohl (ucast (of_le (bs @ [0, 0, 0, 0]) :: 64 word))), s) }"

definition RecvGet_float :: "inet_sock \<Rightarrow> (32 word \<times> inet_sock) option" where
  "RecvGet_float s = do {
     (bs, s) \<leftarrow> take_bytes sizefloat s;
     Some (case bs of None \<Rightarrow> 0 | Some bs \<Rightarrow> ntohf (of_le bs), s) }"

definition RecvGet_double :: "inet_sock \<Rightarrow> (64 word \<times> inet_sock) option" where
  "RecvGet_double s = do {
     (bs, s) \<leftarrow> take_bytes sizedouble s;
     Some (case bs of None \<Rightarrow> 0 | Some bs \<Rightarrow> ntohd (of_le bs), s) }"

definition RecvGet_int64 :: "inet_sock \<Rightarrow> (64 word \<times> inet_sock) option" where
  "RecvGet_int64 s = do {
     (bs, s) \<leftarrow> take_bytes sizeint64 s;
     Some (case bs of None \<Rightarrow> 0 | Some bs \<Rightarrow> ntohint64 (of_le bs), s) }"

text \<open>\<open>RecvGet(val, size)\<close> into the array \<open>val\<close> of at least \<open>size\<close> bytes.\<close>

definition RecvGet_bytes :: "byte list \<Rightarrow> int \<Rightarrow> inet_sock \<Rightarrow> (byte list \<times> inet_sock) option" where
  "RecvGet_bytes val n s =
     (if n \<le> 0 then Some (val, s)
      else do {
        val \<leftarrow> poke 0 (replicate (nat n) 0) val;
        let len = (if n \<le> m_nRecvLen s - m_nRecvCur s then n else m_nRecvLen s - m_nRecvCur s);
        bs \<leftarrow> peek (m_nRecvCur s) len (m_pRecvBuf s);
        val \<leftarrow> poke 0 bs val;
        Some (val, s\<lparr>m_nRecvCur := m_nRecvCur s + len\<rparr>) })"

definition RecvGetStr :: "byte list \<Rightarrow> int \<Rightarrow> inet_sock \<Rightarrow> (byte list \<times> inet_sock) option" where
  "RecvGetStr val n s =
     (if n \<le> 0 then Some (val, s)
      else do {
        val \<leftarrow> poke 0 (replicate (nat n) 0) val;
        (len, s) \<leftarrow> RecvGet_int s;
        if len < 0 then Some (val, s)
        else if n \<le> len
        then do {
          (val, s) \<leftarrow> RecvGet_bytes val (n - 1) s;
          cur \<leftarrow> c_int (m_nRecvCur s + (len - (n - 1)));
          let s = s\<lparr>m_nRecvCur := cur\<rparr>;
          Some (val, if m_nRecvCur s < 0 then s\<lparr>m_nRecvLen := 0, m_nRecvCur := 0\<rparr> else s) }
        else RecvGet_bytes val len s })"

definition RecvLen :: "int \<Rightarrow> inet_sock \<Rightarrow> (int \<times> inet_sock) option" where
  "RecvLen n s = do {
     (val, s) \<leftarrow> RecvGet_int s;
     Some (if val < 0 then 0 else if n \<le> val then 0 else val, s) }"

end
