(* ===== verification/InetSockMsg.thy ===== *)
theory InetSockMsg
  imports InetSock
begin

text \<open>
  The pieces of the message protocol: byte order, the header in memory, filling the send buffer and
  emptying the receive buffer, field by field.
\<close>

section \<open>Byte order\<close>

lemma htonf_eq: "htonf = htonl" "ntohf = ntohl"
  by (simp_all add: htonf_def ntohf_def fun_eq_iff of_le_to_le_full)

lemma to_le_8_halves:
  "take 4 (to_le 8 (v :: 64 word)) = to_le 4 (of_le (take 4 (to_le 8 v)) :: 32 word)"
  "drop 4 (to_le 8 (v :: 64 word)) = to_le 4 (of_le (drop 4 (to_le 8 v)) :: 32 word)"
  by (simp_all add: to_le_of_le_n)

lemma to_le_htonint64: "to_le 8 (htonint64 v) = rev (to_le 8 v)"
proof -
  have "to_le 8 v = to_le 4 (of_le (take 4 (to_le 8 v)) :: 32 word) @ to_le 4 (of_le (drop 4 (to_le 8 v)) :: 32 word)"
    unfolding to_le_8_halves [symmetric] by simp
  then have "rev (to_le 8 v) =
    rev (to_le 4 (of_le (drop 4 (to_le 8 v)) :: 32 word)) @ rev (to_le 4 (of_le (take 4 (to_le 8 v)) :: 32 word))"
    by (metis rev_append)
  then show ?thesis by (simp add: htonint64_def Let_def to_le_htonl to_le_of_le_n)
qed

lemma htond_eq: "htond = htonint64" "ntohd = ntohint64"
  by (simp_all add: fun_eq_iff htond_def htonint64_def ntohd_def ntohint64_def)

lemma ntohint64_be: "ntohint64 (of_le (rev (to_le 8 v))) = v"
proof -
  let ?lo = "take 4 (to_le 8 v)" and ?hi = "drop 4 (to_le 8 v)"
  have len: "length ?lo = 4" "length ?hi = 4" by simp_all
  have split: "rev (to_le 8 v) = rev ?hi @ rev ?lo" by (metis append_take_drop_id rev_append)
  have b: "to_le 8 (of_le (rev (to_le 8 v)) :: 64 word) = rev ?hi @ rev ?lo"
    unfolding split by (rule to_le_of_le_n) simp_all
  have "to_le 4 (ntohl (of_le (rev ?lo) :: 32 word)) = ?lo" "to_le 4 (ntohl (of_le (rev ?hi) :: 32 word)) = ?hi"
    by (simp_all add: ntohl_def to_le_bswap to_le_of_le_n)
  then have "ntohint64 (of_le (rev (to_le 8 v))) = of_le (?lo @ ?hi)"
    unfolding ntohint64_def Let_def b by simp
  then show ?thesis by (simp add: of_le_to_le_full)
qed

section \<open>The header\<close>

lemma ntoh_hton [simp]: "ntoh (hton h) = h"
  by (cases h) (simp add: ntoh_def hton_def)

lemma length_head_bytes [simp]: "length (head_bytes h) = 32"
  by (simp add: head_bytes_def)

lemma head_of_bytes [simp]: "head_of (head_bytes h) = h"
proof -
  have "head_of (to_le 4 a @ to_le 4 b @ to_le 4 c @ to_le 4 d @ to_le 4 f @ to_le 4 g @ to_le 4 u @ to_le 4 v) =
    \<lparr>mh_id = a, mh_ver = b, mh_msg = c, mh_sub = d, mh_len = f, mh_padd = g, mh_user = u, mh_seqno = v\<rparr>"
    for a b c d f g u v
    by (simp add: head_of_def Let_def of_le_to_le_full)
  then show ?thesis by (cases h) (simp add: head_bytes_def)
qed

section \<open>The send buffer\<close>

definition out_ok :: "inet_sock \<Rightarrow> bool" where
  "out_ok s \<longleftrightarrow> sizeheader \<le> m_nSendLen s \<and> m_nSendLen s \<le> int (length (m_pSendBuf s))"

definition built :: "inet_sock \<Rightarrow> byte list" where
  "built s = take (nat (m_nSendLen s)) (m_pSendBuf s)"

lemma length_built: "out_ok s \<Longrightarrow> length (built s) = nat (m_nSendLen s)"
  by (auto simp: out_ok_def built_def min_def)

lemma length_grown: "length (grown heap n buf) = (if int (length buf) < n then nat (n + 1024) else length buf)"
  by (simp add: grown_def)

lemma take_grown: "k \<le> length buf \<Longrightarrow> take k (grown heap n buf) = take k buf"
  by (simp add: grown_def)

text \<open>Everything but the send buffer.\<close>

definition same_conn :: "inet_sock \<Rightarrow> inet_sock \<Rightarrow> bool" where
  "same_conn s t \<longleftrightarrow> m_nSockFd t = m_nSockFd s \<and> m_nTimeout t = m_nTimeout s \<and> m_msgHead t = m_msgHead s \<and>
     m_uSendSeq t = m_uSendSeq s \<and> m_uRecvSeq t = m_uRecvSeq s"

lemma same_conn_trans: "same_conn s t \<Longrightarrow> same_conn t u \<Longrightarrow> same_conn s u"
  by (simp add: same_conn_def)

lemma put_bytes_ok:
  assumes "out_ok s" "m_nSendLen s + int (length bs) \<le> TCPSOCK_LIMITBUF"
  shows "\<exists>t. put_bytes heap bs s = Some t \<and> out_ok t \<and> same_conn s t \<and> built t = built s @ bs \<and>
    m_nSendLen t = m_nSendLen s + int (length bs)"
proof -
  let ?n = "m_nSendLen s + int (length bs)"
  let ?buf = "grown heap ?n (m_pSendBuf s)"
  have n: "0 \<le> m_nSendLen s" "nat (m_nSendLen s) \<le> length (m_pSendBuf s)"
    using assms(1) by (auto simp: out_ok_def sizeheader_def)
  have len: "?n \<le> int (length ?buf)" using n by (auto simp: length_grown)
  then obtain buf where p: "poke (m_nSendLen s) bs ?buf = Some buf" using poke_SomeI n(1) by blast
  have "take (nat (m_nSendLen s) + length bs) buf = take (nat (m_nSendLen s)) (m_pSendBuf s) @ bs"
    using take_poke [OF p] take_grown [OF n(2)] by simp
  moreover have "nat ?n = nat (m_nSendLen s) + length bs" using n(1) by (simp add: nat_add_distrib)
  moreover have "length buf = length ?buf" using length_poke [OF p] .
  ultimately show ?thesis using p len assms
    by (simp add: put_bytes_def GetSendBuf_def out_ok_def built_def same_conn_def)
qed

text \<open>Beyond the limit the null pointer is not noticed; when the buffer is too short, as it is after the last
  growth, the \<open>memcpy\<close> is out of bounds.\<close>

lemma put_bytes_overrun:
  assumes "TCPSOCK_LIMITBUF < m_nSendLen s + int (length bs)" "int (length (m_pSendBuf s)) < m_nSendLen s + int (length bs)"
  shows "put_bytes heap bs s = None"
  using assms by (simp add: put_bytes_def GetSendBuf_def poke_def)

section \<open>The receive buffer\<close>

definition in_ok :: "inet_sock \<Rightarrow> bool" where
  "in_ok s \<longleftrightarrow> 0 \<le> m_nRecvCur s \<and> m_nRecvCur s \<le> m_nRecvLen s \<and> m_nRecvLen s \<le> int (length (m_pRecvBuf s)) \<and>
     m_nRecvLen s < 2 ^ 30"

definition left :: "inet_sock \<Rightarrow> byte list" where
  "left s = take (nat (m_nRecvLen s - m_nRecvCur s)) (drop (nat (m_nRecvCur s)) (m_pRecvBuf s))"

lemma length_left: "in_ok s \<Longrightarrow> int (length (left s)) = m_nRecvLen s - m_nRecvCur s"
  by (auto simp: in_ok_def left_def)

definition moved :: "int \<Rightarrow> inet_sock \<Rightarrow> inet_sock" where
  "moved n s = s\<lparr>m_nRecvCur := m_nRecvCur s + n\<rparr>"

lemma moved_ok:
  assumes "in_ok s" "left s = bs @ rest"
  shows "in_ok (moved (int (length bs)) s)" "left (moved (int (length bs)) s) = rest"
    "peek (m_nRecvCur s) (int (length bs)) (m_pRecvBuf s) = Some bs" "int (length bs) \<le> m_nRecvLen s - m_nRecvCur s"
proof -
  let ?c = "nat (m_nRecvCur s)" and ?n = "length bs"
  have le: "int ?n \<le> m_nRecvLen s - m_nRecvCur s" using length_left [OF assms(1)] assms(2) by simp
  then show "int ?n \<le> m_nRecvLen s - m_nRecvCur s" .
  show "in_ok (moved (int ?n) s)" using assms(1) le by (simp add: in_ok_def moved_def)
  have "rest = drop ?n (left s)" using assms(2) by simp
  also have "\<dots> = take (nat (m_nRecvLen s - m_nRecvCur s) - ?n) (drop (?n + ?c) (m_pRecvBuf s))"
    by (simp add: left_def drop_take)
  also have "?n + ?c = nat (m_nRecvCur s + int ?n)" using assms(1) by (simp add: in_ok_def nat_add_distrib)
  also have "nat (m_nRecvLen s - m_nRecvCur s) - ?n = nat (m_nRecvLen s - (m_nRecvCur s + int ?n))" by linarith
  finally show "left (moved (int ?n) s) = rest" by (simp add: left_def moved_def)
  have "bs = take ?n (left s)" using assms(2) by simp
  also have "\<dots> = take ?n (drop ?c (m_pRecvBuf s))"
  proof -
    have "?n \<le> nat (m_nRecvLen s - m_nRecvCur s)" using le by linarith
    then show ?thesis by (simp add: left_def min_absorb1)
  qed
  finally show "peek (m_nRecvCur s) (int ?n) (m_pRecvBuf s) = Some bs"
    using assms(1) le by (simp add: peek_def in_ok_def)
qed

lemma take_bytes_ok:
  "in_ok s \<Longrightarrow> left s = bs @ rest \<Longrightarrow> n = int (length bs) \<Longrightarrow> take_bytes n s = Some (Some bs, moved n s)"
  using moved_ok [of s bs rest] by (simp add: take_bytes_def moved_def)

text \<open>A reader that asks for more than there is changes nothing.\<close>

lemma take_bytes_short: "in_ok s \<Longrightarrow> length (left s) < nat n \<Longrightarrow> take_bytes n s = Some (None, s)"
  using length_left [of s] by (auto simp: take_bytes_def)

section \<open>Fields\<close>

datatype inet_field =
    IInt int | IUint "32 word" | ILong "64 word" | IFloat "32 word" | IDouble "64 word" | IInt64 "64 word"
  | IStr nat string

fun ifield_ok :: "inet_field \<Rightarrow> bool" where
  "ifield_ok (IInt n) \<longleftrightarrow> int_range n"
| "ifield_ok (IStr n t) \<longleftrightarrow> length t < n \<and> NUL \<notin> set t \<and> length t < 2 ^ 30"
| "ifield_ok _ \<longleftrightarrow> True"

fun enc_ifield :: "inet_field \<Rightarrow> byte list" where
  "enc_ifield (IInt n) = be32 (word_of_int n)"
| "enc_ifield (IUint v) = be32 v"
| "enc_ifield (ILong v) = be32 (ucast v)"
| "enc_ifield (IFloat v) = be32 v"
| "enc_ifield (IDouble v) = rev (to_le 8 v)"
| "enc_ifield (IInt64 v) = rev (to_le 8 v)"
| "enc_ifield (IStr n t) = be32 (word_of_nat (length t)) @ bytes_of t"

text \<open>The call that writes a field; a string of a caller's array of \<open>n\<close> bytes.\<close>

fun send_ifield :: "(nat \<Rightarrow> byte) \<Rightarrow> inet_field \<Rightarrow> inet_sock \<Rightarrow> inet_sock option" where
  "send_ifield heap (IInt n) s = SendSet_int heap n s"
| "send_ifield heap (IUint v) s = SendSet_uint heap v s"
| "send_ifield heap (ILong v) s = SendSet_long heap v s"
| "send_ifield heap (IFloat v) s = SendSet_float heap v s"
| "send_ifield heap (IDouble v) s = SendSet_double heap v s"
| "send_ifield heap (IInt64 v) s = SendSet_int64 heap v s"
| "send_ifield heap (IStr n t) s = map_option snd (SendSetStr heap (Some (t @ [NUL])) (int n) s)"

text \<open>The call that reads a field of this kind, into an array of \<open>n\<close> bytes for a string.\<close>

fun recv_ifield :: "inet_field \<Rightarrow> inet_sock \<Rightarrow> (inet_field \<times> inet_sock) option" where
  "recv_ifield (IInt _) s = map_option (map_prod IInt id) (RecvGet_int s)"
| "recv_ifield (IUint _) s = map_option (map_prod IUint id) (RecvGet_uint s)"
| "recv_ifield (ILong _) s = map_option (map_prod ILong id) (RecvGet_long s)"
| "recv_ifield (IFloat _) s = map_option (map_prod IFloat id) (RecvGet_float s)"
| "recv_ifield (IDouble _) s = map_option (map_prod IDouble id) (RecvGet_double s)"
| "recv_ifield (IInt64 _) s = map_option (map_prod IInt64 id) (RecvGet_int64 s)"
| "recv_ifield (IStr n _) s = do {
     (val, s) \<leftarrow> RecvGetStr (replicate n 0) (int n) s;
     t \<leftarrow> c_str (chars_of val);
     Some (IStr n t, s) }"

text \<open>What comes back: a \<open>long\<close> is cut to its low half, without its sign.\<close>

fun out_ifield :: "inet_field \<Rightarrow> inet_field" where
  "out_ifield (ILong v) = ILong (ucast (ucast v :: 32 word))"
| "out_ifield f = f"

fun send_fields :: "(nat \<Rightarrow> byte) \<Rightarrow> inet_field list \<Rightarrow> inet_sock \<Rightarrow> inet_sock option" where
  "send_fields heap [] s = Some s"
| "send_fields heap (f # fs) s = Option.bind (send_ifield heap f s) (send_fields heap fs)"

fun recv_fields :: "inet_field list \<Rightarrow> inet_sock \<Rightarrow> (inet_field list \<times> inet_sock) option" where
  "recv_fields [] s = Some ([], s)"
| "recv_fields (f # fs) s = do {
     (v, s) \<leftarrow> recv_ifield f s;
     (vs, s) \<leftarrow> recv_fields fs s;
     Some (v # vs, s) }"

section \<open>Writing and reading one field\<close>

definition appends :: "(inet_sock \<Rightarrow> inet_sock option) \<Rightarrow> byte list \<Rightarrow> bool" where
  "appends f bs \<longleftrightarrow> (\<forall>s. out_ok s \<longrightarrow> m_nSendLen s + int (length bs) \<le> TCPSOCK_LIMITBUF \<longrightarrow>
     (\<exists>t. f s = Some t \<and> out_ok t \<and> same_conn s t \<and> built t = built s @ bs \<and>
        m_nSendLen t = m_nSendLen s + int (length bs)))"

lemma appends_put: "appends (put_bytes heap bs) bs"
  unfolding appends_def using put_bytes_ok by blast

lemma appends_seq:
  assumes "appends f bs" "appends g cs"
  shows "appends (\<lambda>s. Option.bind (f s) g) (bs @ cs)"
  unfolding appends_def
proof (intro allI impI)
  fix s assume s: "out_ok s" "m_nSendLen s + int (length (bs @ cs)) \<le> TCPSOCK_LIMITBUF"
  then have "m_nSendLen s + int (length bs) \<le> TCPSOCK_LIMITBUF" by simp
  with assms(1) s(1) obtain t where t: "f s = Some t" "out_ok t" "same_conn s t" "built t = built s @ bs"
    "m_nSendLen t = m_nSendLen s + int (length bs)" unfolding appends_def by blast
  then have "m_nSendLen t + int (length cs) \<le> TCPSOCK_LIMITBUF" using s(2) by simp
  with assms(2) t(2) obtain u where "g t = Some u" "out_ok u" "same_conn t u" "built u = built t @ cs"
    "m_nSendLen u = m_nSendLen t + int (length cs)" unfolding appends_def by blast
  with t show "\<exists>u. Option.bind (f s) g = Some u \<and> out_ok u \<and> same_conn s u \<and> built u = built s @ bs @ cs \<and>
    m_nSendLen u = m_nSendLen s + int (length (bs @ cs))"
    using same_conn_trans by auto
qed

lemma take_to_le: "n \<le> m \<Longrightarrow> take n (to_le m w) = to_le n w"
proof (induction n arbitrary: m w)
  case (Suc n)
  then obtain k where "m = Suc k" by (cases m) auto
  with Suc show ?case by simp
qed simp

lemma to_le_ucast:
  "LENGTH('a::len) \<le> LENGTH('b::len) \<Longrightarrow> to_le n (ucast (w :: 'a word) :: 'b word) = to_le n w"
proof (induction n arbitrary: w)
  case (Suc n)
  have "ucast (ucast w :: 'b word) = (ucast w :: byte)"
    using Suc.prems by (intro bit_word_eqI) (auto simp: bit_ucast_iff dest: bit_imp_le_length)
  moreover have "drop_bit 8 (ucast w :: 'b word) = ucast (drop_bit 8 w)"
    using Suc.prems by (intro bit_word_eqI) (auto simp: bit_ucast_iff bit_drop_bit_eq dest: bit_imp_le_length)
  ultimately show ?case using Suc by simp
qed simp

lemma of_le_zeros: "of_le (bs @ [0, 0, 0, 0]) = of_le bs"
  by (induction bs) simp_all

lemma ucast_of_le:
  assumes "length bs = 4"
  shows "ucast (of_le bs :: 64 word) = (of_le bs :: 32 word)"
proof -
  define x where "x = (of_le bs :: 32 word)"
  have "bs = to_le 4 x" using assms by (simp add: x_def to_le_of_le_n)
  then have "bs = to_le 4 (ucast x :: 64 word)" by (simp add: to_le_ucast)
  then have "of_le bs = take_bit 32 (ucast x :: 64 word)" by (simp add: of_le_to_le)
  moreover have "ucast (take_bit 32 (ucast x :: 64 word)) = x"
    by (intro bit_word_eqI) (auto simp: bit_ucast_iff bit_take_bit_iff dest: bit_imp_le_length)
  ultimately show ?thesis by (simp add: x_def)
qed

lemma SendSetStr_short:
  assumes "length t < n" "NUL \<notin> set t"
  shows "map_option snd (SendSetStr heap (Some (t @ [NUL])) (int n) s) =
    Option.bind (SendSet_int heap (int (length t)) s) (put_bytes heap (bytes_of t))"
proof -
  have p: "peek 0 (int (length t)) (bytes_of (t @ [NUL])) = Some (bytes_of t)" by (simp add: peek_def)
  show ?thesis using assms
    by (cases "SendSet_int heap (int (length t)) s")
      (simp_all add: SendSetStr_def SendSet_bytes_def p map_conv_bind_option del: map_append)
qed

lemma send_ifield_put:
  "send_ifield heap (IInt n) = put_bytes heap (be32 (word_of_int n))"
  "send_ifield heap (IUint u) = put_bytes heap (be32 u)"
  "send_ifield heap (ILong v) = put_bytes heap (be32 (ucast v))"
  "send_ifield heap (IFloat u) = put_bytes heap (be32 u)"
  "send_ifield heap (IDouble v) = put_bytes heap (rev (to_le 8 v))"
  "send_ifield heap (IInt64 v) = put_bytes heap (rev (to_le 8 v))"
  by (simp_all add: fun_eq_iff SendSet_int_def SendSet_uint_def SendSet_long_def SendSet_float_def
      SendSet_double_def SendSet_int64_def to_le_htonl htonf_eq htond_eq to_le_htonint64 take_to_le to_le_ucast)

lemma send_ifield_appends: "ifield_ok f \<Longrightarrow> appends (send_ifield heap f) (enc_ifield f)"
proof (cases f)
  case (IStr n t)
  assume "ifield_ok f"
  with IStr have f: "length t < n" "NUL \<notin> set t" by simp_all
  have "appends (\<lambda>s. Option.bind (SendSet_int heap (int (length t)) s) (put_bytes heap (bytes_of t)))
    (be32 (word_of_int (int (length t))) @ bytes_of t)"
    using appends_seq [OF appends_put appends_put] by (simp add: SendSet_int_def to_le_htonl)
  then show ?thesis unfolding IStr send_ifield.simps SendSetStr_short [OF f] by simp
qed (use appends_put [of heap] in \<open>simp_all only: send_ifield_put enc_ifield.simps\<close>)

lemma send_fields_appends:
  "\<forall>f\<in>set fs. ifield_ok f \<Longrightarrow> appends (send_fields heap fs) (concat (map enc_ifield fs))"
proof (induction fs)
  case (Cons f fs)
  from appends_seq [OF send_ifield_appends Cons.IH] Cons.prems show ?case by simp
qed (simp add: appends_def same_conn_def)

text \<open>Reading.\<close>

definition same_in :: "inet_sock \<Rightarrow> inet_sock \<Rightarrow> bool" where
  "same_in s t \<longleftrightarrow> same_conn s t \<and> m_nRecvLen t = m_nRecvLen s"

lemma moved_same [simp]: "same_in s (moved n s)"
  by (simp add: same_in_def same_conn_def moved_def)

lemma RecvGetStr_ok:
  assumes s: "in_ok s" "left s = be32 (word_of_nat (length t)) @ bytes_of t @ rest" and t: "length t < n" "length t < 2 ^ 30"
  shows "\<exists>u. RecvGetStr (replicate n 0) (int n) s = Some (bytes_of t @ replicate (n - length t) 0, u) \<and>
    in_ok u \<and> left u = rest \<and> same_in s u"
proof -
  let ?s1 = "moved 4 s" and ?l = "int (length t)"
  note m1 = moved_ok [OF s(1,2)]
  have len: "sint (word_of_int ?l :: 32 word) = ?l"
    by (rule sint_word_of_int_32) (use t(2) in auto)
  have g: "RecvGet_int s = Some (?l, ?s1)"
    using take_bytes_ok [OF s, of 4] len
    by (simp add: RecvGet_int_def sizeint_def ntohl_of_be32)
  have s1: "in_ok ?s1" "left ?s1 = bytes_of t @ rest" using m1(1,2) by simp_all
  note m2 = moved_ok [OF s1]
  have z: "poke 0 (replicate (nat k) 0) (replicate n 0) = Some (replicate n (0 :: byte))" if "k \<le> int n" for k
    using that by (auto simp: poke_def replicate_add [symmetric])
  have b: "RecvGet_bytes (replicate n 0) ?l ?s1 = Some (bytes_of t @ replicate (n - length t) 0, moved ?l ?s1)"
  proof (cases "t = []")
    case True
    then show ?thesis by (simp add: RecvGet_bytes_def moved_def)
  next
    case False
    have "poke 0 (bytes_of t) (replicate n 0) = Some (bytes_of t @ replicate (n - length t) 0)"
      using t(1) by (simp add: poke_def)
    then show ?thesis using False m2(3,4) z [of ?l] t(1)
      by (simp add: RecvGet_bytes_def moved_def)
  qed
  have "RecvGetStr (replicate n 0) (int n) s = Some (bytes_of t @ replicate (n - length t) 0, moved ?l ?s1)"
    using z [of "int n"] g b t(1) by (simp add: RecvGetStr_def)
  moreover have "in_ok (moved ?l ?s1)" "left (moved ?l ?s1) = rest" using m2(1,2) by simp_all
  ultimately show ?thesis by (auto simp: same_in_def same_conn_def moved_def)
qed

lemma c_str_chars: "NUL \<notin> set t \<Longrightarrow> 0 < k \<Longrightarrow> c_str (chars_of (bytes_of t @ replicate k 0)) = Some t"
proof -
  assume t: "NUL \<notin> set t" "0 < k"
  have z: "char_of_byte 0 = NUL" by (metis byte_of_NUL_iff char_of_byte_of_char)
  from t(2) obtain j where k: "k = Suc j" by (cases k) auto
  have eq: "chars_of (bytes_of t @ replicate k 0) = t @ NUL # replicate j NUL"
    unfolding map_append chars_of_bytes_of k by (simp add: z)
  show ?thesis unfolding eq by (rule c_str_terminated [OF t(1)])
qed

lemma recv_ifield_ok:
  assumes f: "ifield_ok f" and s: "in_ok s" "left s = enc_ifield f @ rest"
  shows "\<exists>u. recv_ifield f s = Some (out_ifield f, u) \<and> in_ok u \<and> left u = rest \<and> same_in s u"
proof -
  note m = moved_ok(1,2) [OF s]
  have num: "take_bytes n s = Some (Some (enc_ifield f), moved n s) \<and> in_ok (moved n s) \<and> left (moved n s) = rest"
    if "n = int (length (enc_ifield f))" for n
    using take_bytes_ok [OF s that] m that by simp
  note reads = RecvGet_int_def RecvGet_uint_def RecvGet_long_def RecvGet_float_def RecvGet_double_def
    RecvGet_int64_def sizeint_def sizefloat_def sizedouble_def sizeint64_def
  show ?thesis
  proof (cases f)
    case (IInt n)
    with f num [of 4] show ?thesis by (simp add: reads ntohl_of_be32 sint_word_of_int_32)
  next
    case (IUint u)
    with num [of 4] show ?thesis by (simp add: reads ntohl_of_be32)
  next
    case (ILong v)
    let ?b = "be32 (ucast v)"
    have "ucast (of_le (?b @ [0, 0, 0, 0]) :: 64 word) = (of_le ?b :: 32 word)"
      unfolding of_le_zeros by (rule ucast_of_le) simp
    with ILong num [of 4] show ?thesis by (simp add: reads ntohl_of_be32)
  next
    case (IFloat u)
    with num [of 4] show ?thesis by (simp add: reads htonf_eq ntohl_of_be32)
  next
    case (IDouble v)
    with num [of 8] show ?thesis by (simp add: reads htond_eq ntohint64_be)
  next
    case (IInt64 v)
    with num [of 8] show ?thesis by (simp add: reads ntohint64_be)
  next
    case (IStr n t)
    with f have t: "length t < n" "length t < 2 ^ 30" "NUL \<notin> set t" by simp_all
    have "left s = be32 (word_of_nat (length t)) @ bytes_of t @ rest" using s(2) IStr by simp
    from RecvGetStr_ok [OF s(1) this t(1,2)] c_str_chars [OF t(3), of "n - length t"] t(1) IStr
    show ?thesis by auto
  qed
qed

lemma recv_fields_ok:
  "\<forall>f\<in>set fs. ifield_ok f \<Longrightarrow> in_ok s \<Longrightarrow> left s = concat (map enc_ifield fs) @ rest \<Longrightarrow>
   \<exists>u. recv_fields fs s = Some (map out_ifield fs, u) \<and> in_ok u \<and> left u = rest \<and> same_in s u"
proof (induction fs arbitrary: s)
  case Nil
  then show ?case by (simp add: same_in_def same_conn_def)
next
  case (Cons f fs)
  then have "ifield_ok f" "left s = enc_ifield f @ concat (map enc_ifield fs) @ rest" by simp_all
  from recv_ifield_ok [OF this(1) Cons.prems(2) this(2)] obtain t where
    t: "recv_ifield f s = Some (out_ifield f, t)" "in_ok t" "left t = concat (map enc_ifield fs) @ rest" "same_in s t"
    by blast
  from Cons.IH [OF _ t(2,3)] Cons.prems(1) obtain u where
    "recv_fields fs t = Some (map out_ifield fs, u)" "in_ok u" "left u = rest" "same_in t u" by auto
  with t show ?case by (auto simp: same_in_def intro: same_conn_trans)
qed

end
