(* ===== verification/InetSockSpec.thy ===== *)
theory InetSockSpec
  imports InetSockMsg Sample
begin

text \<open>
  The message protocol as a whole: what \<open>SendFlush\<close> puts on the wire under any network, what \<open>RecvHeader\<close>
  and the readers make of it, and what they make of a message no \<open>SendFlush\<close> has sent.
\<close>

section \<open>The loops\<close>

definition can_wait :: "env \<Rightarrow> inet_sock \<Rightarrow> world \<Rightarrow> bool" where
  "can_wait e s w \<longleftrightarrow> (0 < m_nTimeout s \<longrightarrow> (\<forall>t\<ge>tick w. 0 < e_select e t))"

definition can_recv :: "env \<Rightarrow> inet_sock \<Rightarrow> world \<Rightarrow> bool" where
  "can_recv e s w \<longleftrightarrow> can_read e (m_nSockFd s) w \<and> can_wait e s w"

definition can_send :: "env \<Rightarrow> inet_sock \<Rightarrow> world \<Rightarrow> bool" where
  "can_send e s w \<longleftrightarrow> can_write e (m_nSockFd s) w \<and> can_wait e s w"

lemma tick_keeps [simp]:
  "pending fd (w\<lparr>tick := t\<rparr>) = pending fd w" "sent fd (w\<lparr>tick := t\<rparr>) = sent fd w" "is_up fd (w\<lparr>tick := t\<rparr>) = is_up fd w"
  by (simp_all add: pending_def sent_def is_up_def)

lemma can_tick:
  "can_read e fd w \<Longrightarrow> can_read e fd (w\<lparr>tick := Suc (tick w)\<rparr>)"
  "can_write e fd w \<Longrightarrow> can_write e fd (w\<lparr>tick := Suc (tick w)\<rparr>)"
  by (simp_all add: can_read_def can_write_def)

lemma sys_tick_mono:
  "sys_read e fd n w = (r, w1) \<Longrightarrow> tick w \<le> tick w1" "sys_write e fd bs w = (k, w1) \<Longrightarrow> tick w \<le> tick w1"
  by (auto simp: sys_read_def sys_write_def emit_def Let_def split: option.splits if_splits io_ans.splits)

interpretation inet_src: byte_source "turn_recv e s" "pending (m_nSockFd s)" "can_recv e s" for e s
proof
  fix n w bs w1
  assume "turn_recv e s n w = (Some bs, w1)"
  then show "pending (m_nSockFd s) w = bs @ pending (m_nSockFd s) w1 \<and> length bs \<le> n"
    using sock_src.rd_some [of e "m_nSockFd s" n w bs w1]
      sock_src.rd_some [of e "m_nSockFd s" n "w\<lparr>tick := Suc (tick w)\<rparr>" bs w1]
    by (auto simp: turn_recv_def split: if_splits)
next
  fix n w w1
  assume "turn_recv e s n w = (None, w1)"
  then show "pending (m_nSockFd s) w1 = pending (m_nSockFd s) w"
    using sock_src.rd_none [of e "m_nSockFd s" n w w1]
      sock_src.rd_none [of e "m_nSockFd s" n "w\<lparr>tick := Suc (tick w)\<rparr>" w1]
    by (auto simp: turn_recv_def split: if_splits)
next
  fix n w
  assume live: "can_recv e s w" and n: "0 < (n :: nat)" and ne: "pending (m_nSockFd s) w \<noteq> []"
  let ?w = "if 0 < m_nTimeout s then w\<lparr>tick := Suc (tick w)\<rparr> else w"
  have "can_read e (m_nSockFd s) ?w" "pending (m_nSockFd s) ?w \<noteq> []"
    using live ne can_tick by (auto simp: can_recv_def)
  from sock_src.rd_live [OF this(1) n this(2)] obtain bs w1 where
    r: "sys_read e (m_nSockFd s) n ?w = (Some bs, w1)" "bs \<noteq> []" "can_read e (m_nSockFd s) w1" by blast
  have "tick w \<le> tick w1" using sys_tick_mono(1) [OF r(1)] by (auto split: if_splits)
  then have "can_recv e s w1" using live r(3) by (auto simp: can_recv_def can_wait_def)
  moreover have "turn_recv e s n w = (Some bs, w1)"
    using r(1) live by (auto simp: turn_recv_def can_recv_def can_wait_def)
  ultimately show "\<exists>bs w1. turn_recv e s n w = (Some bs, w1) \<and> bs \<noteq> [] \<and> can_recv e s w1" using r(2) by blast
qed

interpretation inet_snk: byte_sink "turn_send e s" "sent (m_nSockFd s)" "can_send e s" for e s
proof
  fix bs w r w1
  assume "turn_send e s bs w = (r, w1)"
  then show "r \<le> int (length bs) \<and> sent (m_nSockFd s) w1 = sent (m_nSockFd s) w @ take (nat r) bs"
    using sock_snk.wr_sent [of e "m_nSockFd s" bs w r w1]
      sock_snk.wr_sent [of e "m_nSockFd s" bs "w\<lparr>tick := Suc (tick w)\<rparr>" r w1]
    by (auto simp: turn_send_def split: if_splits)
next
  fix w and bs :: "byte list"
  assume live: "can_send e s w" and bs: "bs \<noteq> []"
  let ?w = "if 0 < m_nTimeout s then w\<lparr>tick := Suc (tick w)\<rparr> else w"
  have "can_write e (m_nSockFd s) ?w" using live can_tick by (auto simp: can_send_def)
  from sock_snk.wr_live [OF this bs] obtain r w1 where
    r: "sys_write e (m_nSockFd s) bs ?w = (r, w1)" "1 \<le> r" "can_write e (m_nSockFd s) w1" by blast
  have "tick w \<le> tick w1" using sys_tick_mono(2) [OF r(1)] by (auto split: if_splits)
  then have "can_send e s w1" using live r(3) by (auto simp: can_send_def can_wait_def)
  moreover have "turn_send e s bs w = (r, w1)"
    using r(1) live by (auto simp: turn_send_def can_send_def can_wait_def)
  ultimately show "\<exists>r w1. turn_send e s bs w = (r, w1) \<and> 1 \<le> r \<and> can_send e s w1" using r(2) by blast
qed

section \<open>Sending\<close>

lemma turn_send_fds: "turn_send e s bs w = (r, w1) \<Longrightarrow> fds w1 = fds w"
  by (auto simp: turn_send_def dest: sys_write_fds split: if_splits)

lemma write_all_stop:
  "write_all wr chunk bs w = (Some r, w1) \<Longrightarrow> r < 1"
proof (induction bs arbitrary: w rule: length_induct)
  case (1 bs)
  then have "bs \<noteq> []" by auto
  obtain k w2 where k: "wr (take chunk bs) w = (k, w2)" by (metis prod.exhaust)
  show ?case
  proof (cases "k < 1")
    case True
    with "1.prems" k \<open>bs \<noteq> []\<close> show ?thesis by (simp add: write_all.simps [of wr chunk bs w])
  next
    case False
    then have "length (drop (nat k) bs) < length bs" using \<open>bs \<noteq> []\<close> by simp
    moreover have "write_all wr chunk (drop (nat k) bs) w2 = (Some r, w1)"
      using "1.prems" k False \<open>bs \<noteq> []\<close> by (simp add: write_all.simps [of wr chunk bs w])
    ultimately show ?thesis using "1.IH" by blast
  qed
qed

lemma sock_send_spec:
  assumes "0 < m_nSockFd s" "watchable s" "msg \<noteq> []"
  shows "\<exists>rv w1 k. sock_send e s msg w = Some (rv, w1) \<and> fds w1 = fds w \<and>
    sent (m_nSockFd s) w1 = sent (m_nSockFd s) w @ take k msg \<and>
    (if rv = int (length msg) then sent (m_nSockFd s) w1 = sent (m_nSockFd s) w @ msg else rv < 1) \<and>
    (can_send e s w \<longrightarrow> rv = int (length msg))"
proof -
  obtain st w1 where wr: "write_all (turn_send e s) (length msg) msg w = (st, w1)" by (metis prod.exhaust)
  have f: "fds w1 = fds w"
    using wr by (rule write_all_keeps [where R = "\<lambda>u v. fds v = fds u", rotated 3]) (auto dest: turn_send_fds)
  have "can_send e s w \<longrightarrow> st = None" using inet_snk.write_all_complete [of e s w "length msg" msg] wr assms(3) by auto
  moreover have "r < 1" if "st = Some r" for r
    using write_all_stop [of "turn_send e s" "length msg" msg w r w1] wr that by simp
  moreover have "0 < int (length msg)" using assms(3) by simp
  moreover obtain k where "sent (m_nSockFd s) w1 = sent (m_nSockFd s) w @ take k msg"
    "st = None \<longrightarrow> sent (m_nSockFd s) w1 = sent (m_nSockFd s) w @ msg"
    using inet_snk.write_all_sound [OF wr] by blast
  moreover have "sock_send e s msg w = Some (case st of None \<Rightarrow> int (length msg) | Some r \<Rightarrow> r, w1)"
    using wr assms(1,2) by (simp add: sock_send_def split: option.split)
  ultimately show ?thesis using f
    by (intro exI [of _ "case st of None \<Rightarrow> int (length msg) | Some r \<Rightarrow> r"] exI [of _ w1] exI [of _ k])
      (auto split: option.split)
qed

definition message :: "msg_header \<Rightarrow> byte list \<Rightarrow> byte list \<Rightarrow> byte list" where
  "message h data pad = head_bytes (hton h) @ data @ pad"

text \<open>The header \<open>SendFlush\<close> completes.\<close>

definition completed :: "msg_header \<Rightarrow> nat \<Rightarrow> nat \<Rightarrow> msg_header" where
  "completed h len padd = h\<lparr>mh_len := word_of_nat len, mh_padd := word_of_nat padd\<rparr>"

lemma SendHeader_ok:
  "out_ok (SendHeader heap msg sub s)" "m_nSendLen (SendHeader heap msg sub s) = 32"
  "m_nSockFd (SendHeader heap msg sub s) = m_nSockFd s" "m_nTimeout (SendHeader heap msg sub s) = m_nTimeout s"
  "m_uRecvSeq (SendHeader heap msg sub s) = m_uRecvSeq s"
  "m_uSendSeq (SendHeader heap msg sub s) = m_uSendSeq s + 1"
  "m_msgHead (SendHeader heap msg sub s) = (m_msgHead s)\<lparr>mh_id := TCPSOCK_IDENT, mh_ver := 0,
     mh_msg := word_of_int msg, mh_sub := word_of_int sub, mh_seqno := m_uSendSeq s + 1\<rparr>"
  by (simp_all add: SendHeader_def Let_def GetSendBuf_def sizeheader_def TCPSOCK_LIMITBUF_def out_ok_def length_grown)

text \<open>A message built in the send buffer behind its header.\<close>

definition ready :: "inet_sock \<Rightarrow> byte list \<Rightarrow> bool" where
  "ready s data \<longleftrightarrow> 0 < m_nSockFd s \<and> watchable s \<and> out_ok s \<and> mh_id (m_msgHead s) \<noteq> 0 \<and>
     drop 32 (built s) = data \<and> m_nSendLen s + 128 \<le> TCPSOCK_LIMITBUF"

lemma ready_length: "ready s data \<Longrightarrow> m_nSendLen s = 32 + int (length data)"
  using length_built [of s] by (auto simp: ready_def out_ok_def sizeheader_def)

definition padding :: "nat \<Rightarrow> nat" where
  "padding n = (if n mod 128 = 0 then 0 else 128 - n mod 128)"

lemma padding_dvd: "128 dvd n + padding n" "padding n < 128"
proof -
  have "n mod 128 < 128" by simp
  then show "padding n < 128" by (auto simp: padding_def)
  show "128 dvd n + padding n"
  proof (cases "n mod 128 = 0")
    case False
    have "n + (128 - n mod 128) = 128 * (n div 128) + 128"
      using mult_div_mod_eq [of 128 n] \<open>n mod 128 < 128\<close> by linarith
    then show ?thesis using False by (simp add: padding_def)
  qed (simp add: padding_def dvd_eq_mod_eq_0)
qed

lemma SendFlush_frame:
  assumes r: "ready s data"
  shows "\<exists>pad s1. length pad = padding (32 + length data) \<and>
    m_nSockFd s1 = m_nSockFd s \<and> m_nTimeout s1 = m_nTimeout s \<and> m_uSendSeq s1 = m_uSendSeq s \<and> m_uRecvSeq s1 = m_uRecvSeq s \<and>
    SendFlush e heap s w =
      (case sock_send e s1 (message (completed (m_msgHead s) (length data) (length pad)) data pad) w of
         None \<Rightarrow> None
       | Some (rv, w) \<Rightarrow>
           (let (rv, s, w) = (if rv \<noteq> int (32 + length data + length pad)
                               then let (s, w) = sock_close e s1 w in (- 1, s, w)
                               else (rv, s1, w))
            in Some (rv, s\<lparr>m_nSendLen := 0, m_msgHead := (m_msgHead s)\<lparr>mh_id := 0\<rparr>\<rparr>, w)))"
proof -
  define n where "n = 32 + length data"
  have len: "m_nSendLen s = int n" using ready_length [OF r] by (simp add: n_def)
  let ?h = "completed (m_msgHead s) (length data) (padding n)"
  let ?total = "n + padding n"
  let ?grown = "if n mod 128 = 0 then m_pSendBuf s else grown heap (int ?total) (m_pSendBuf s)"
  have buf: "n \<le> length (m_pSendBuf s)" using r len by (auto simp: ready_def out_ok_def)
  have total: "?total \<le> length ?grown" using buf by (auto simp: length_grown padding_def)
  have data: "take (length data) (drop 32 ?grown) = data"
  proof -
    have "take n ?grown = built s" using buf len by (simp add: built_def take_grown)
    then have "drop 32 (take n ?grown) = data" using r by (simp add: ready_def)
    then show ?thesis by (simp add: n_def drop_take)
  qed
  define pad where "pad = take (padding n) (drop n ?grown)"
  have pad: "length pad = padding n" using total by (simp add: pad_def)
  define buf' where "buf' = head_bytes (hton ?h) @ drop 32 ?grown"
  have poke: "poke 0 (head_bytes (hton ?h)) ?grown = Some buf'"
    using total by (simp add: poke_def buf'_def n_def)
  have "take ?total buf' = head_bytes (hton ?h) @ take (length data + padding n) (drop 32 ?grown)"
    by (simp add: buf'_def n_def)
  also have "take (length data + padding n) (drop 32 ?grown) = data @ pad"
    unfolding take_add data by (simp add: pad_def n_def add.commute)
  finally have tk: "take ?total buf' = message ?h data pad" by (simp add: message_def)
  have "?total \<le> length buf'" using total by (simp add: buf'_def n_def)
  then have peek: "peek 0 (int ?total) buf' = Some (message ?h data pad)"
    unfolding peek_def nat_int nat_0 drop_0 tk by simp
  have seg: "int n mod TCPSOCK_SEGSIZE = int (n mod 128)" by (simp add: TCPSOCK_SEGSIZE_def zmod_int)
  let ?s = "s\<lparr>m_nSendLen := int ?total, m_pSendBuf := buf', m_msgHead := ?h\<rparr>"
  have l: "int n - sizeheader = int (length data)" by (simp add: n_def sizeheader_def)
  have lim: "\<not> TCPSOCK_LIMITBUF < int n + (128 - int (n mod 128))" using r len by (simp add: ready_def)
  have id: "0 < int n" "mh_id (m_msgHead s) \<noteq> 0" "IsConnected s"
    using r by (simp_all add: n_def ready_def IsConnected_def)
  have flush: "SendFlush e heap s w =
      (case sock_send e ?s (message ?h data pad) w of
         None \<Rightarrow> None
       | Some (rv, w) \<Rightarrow>
           (let (rv, s, w) = (if rv \<noteq> int ?total
                               then let (s, w) = sock_close e ?s w in (- 1, s, w)
                               else (rv, ?s, w))
            in Some (rv, s\<lparr>m_nSendLen := 0, m_msgHead := (m_msgHead s)\<lparr>mh_id := 0\<rparr>\<rparr>, w)))"
  proof (cases "n mod 128 = 0")
    case True
    then have p: "padding n = 0" by (simp add: padding_def)
    show ?thesis
      using id poke peek True len unfolding SendFlush_def
      by (cases s) (simp add: completed_def p l seg Let_def split: option.split)
  next
    case False
    then have p: "TCPSOCK_SEGSIZE - int n mod TCPSOCK_SEGSIZE = int (padding n)" "0 < int n mod TCPSOCK_SEGSIZE"
      unfolding seg by (simp_all add: padding_def of_nat_diff less_imp_le TCPSOCK_SEGSIZE_def)
    have "\<not> TCPSOCK_LIMITBUF < int n + int (padding n)" using lim False by (simp add: padding_def of_nat_diff less_imp_le)
    then show ?thesis
      using id poke peek False len unfolding SendFlush_def
      by (cases s) (simp add: completed_def p l GetSendBuf_def Let_def split: option.split)
  qed
  show ?thesis
    by (rule exI [of _ pad], rule exI [of _ ?s])
      (simp only: pad flush n_def [symmetric] simp_thms, simp)
qed


lemma length_message [simp]: "length (message h data pad) = 32 + length data + length pad"
  by (simp add: message_def)

lemma sys_close_sent: "sys_close e fd' w = (r, w1) \<Longrightarrow> sent fd w1 = sent fd w"
  by (auto simp: sys_close_def sent_def written_def emit_def split: if_splits)

lemma can_send_cong: "m_nSockFd t = m_nSockFd s \<Longrightarrow> m_nTimeout t = m_nTimeout s \<Longrightarrow> can_send e t w \<longleftrightarrow> can_send e s w"
  by (simp add: can_send_def can_wait_def)

lemma SendFlush_outcome:
  assumes "ready s data"
  shows "\<exists>rv s1 w1 pad k. SendFlush e heap s w = Some (rv, s1, w1) \<and>
    128 dvd 32 + length data + length pad \<and> length pad < 128 \<and> m_nSendLen s1 = 0 \<and> mh_id (m_msgHead s1) = 0 \<and>
    (let frame = message (completed (m_msgHead s) (length data) (length pad)) data pad in
     sent (m_nSockFd s) w1 = sent (m_nSockFd s) w @ take k frame \<and>
     (if rv = int (length frame)
      then sent (m_nSockFd s) w1 = sent (m_nSockFd s) w @ frame \<and> m_nSockFd s1 = m_nSockFd s \<and>
           m_uSendSeq s1 = m_uSendSeq s \<and> fds w1 = fds w
      else rv = - 1 \<and> m_nSockFd s1 = - 1 \<and> open_fds w1 = open_fds w - {m_nSockFd s}) \<and>
     (can_send e s w \<longrightarrow> rv = int (length frame)))"
proof -
  have s: "0 < m_nSockFd s" "watchable s" using assms by (simp_all add: ready_def)
  from SendFlush_frame [OF assms] obtain pad s1 where
    len: "length pad = padding (32 + length data)" and
    s1: "m_nSockFd s1 = m_nSockFd s" "m_nTimeout s1 = m_nTimeout s" "m_uSendSeq s1 = m_uSendSeq s" and
    fl: "SendFlush e heap s w =
      (case sock_send e s1 (message (completed (m_msgHead s) (length data) (length pad)) data pad) w of
         None \<Rightarrow> None
       | Some (rv, w) \<Rightarrow>
           (let (rv, s, w) = (if rv \<noteq> int (32 + length data + length pad)
                               then let (s, w) = sock_close e s1 w in (- 1, s, w)
                               else (rv, s1, w))
            in Some (rv, s\<lparr>m_nSendLen := 0, m_msgHead := (m_msgHead s)\<lparr>mh_id := 0\<rparr>\<rparr>, w)))" by blast
  let ?frame = "message (completed (m_msgHead s) (length data) (length pad)) data pad"
  have "watchable s1" "0 < m_nSockFd s1" "?frame \<noteq> []"
    using s s1 by (simp_all add: watchable_def flip: length_greater_0_conv)
  from sock_send_spec [OF this(2,1,3), of e w, unfolded s1(1) can_send_cong [OF s1(1,2)]] obtain rv w1 k where
    snd: "sock_send e s1 ?frame w = Some (rv, w1)" "fds w1 = fds w"
      "sent (m_nSockFd s) w1 = sent (m_nSockFd s) w @ take k ?frame"
      "if rv = int (length ?frame) then sent (m_nSockFd s) w1 = sent (m_nSockFd s) w @ ?frame else rv < 1"
      "can_send e s w \<longrightarrow> rv = int (length ?frame)" by blast
  have pad: "128 dvd 32 + length data + length pad" "length pad < 128"
    using padding_dvd [of "32 + length data"] by (simp_all add: len)
  show ?thesis
  proof (cases "rv = int (length ?frame)")
    case True
    then have "SendFlush e heap s w =
      Some (rv, s1\<lparr>m_nSendLen := 0, m_msgHead := (m_msgHead s1)\<lparr>mh_id := 0\<rparr>\<rparr>, w1)"
      using fl snd(1) by simp
    then show ?thesis using True snd s1 pad
      by (intro exI [of _ rv] exI [of _ "s1\<lparr>m_nSendLen := 0, m_msgHead := (m_msgHead s1)\<lparr>mh_id := 0\<rparr>\<rparr>"]
          exI [of _ w1] exI [of _ pad] exI [of _ k]) (simp add: Let_def)
  next
    case False
    obtain r w2 where c: "sys_close e (m_nSockFd s) w1 = (r, w2)" by (metis prod.exhaust)
    define s2 where "s2 = s1\<lparr>m_nSockFd := - 1, m_msgHead := head_zero, m_uSendSeq := 0, m_uRecvSeq := 0,
      m_nSendLen := 0\<rparr>"
    have "SendFlush e heap s w = Some (- 1, s2, w2)"
      using fl snd(1) False c s s1 by (cases s1) (simp add: sock_close_def s2_def head_zero_def)
    moreover have "sent (m_nSockFd s) w2 = sent (m_nSockFd s) w1" "open_fds w2 = open_fds w - {m_nSockFd s}"
      using sys_close_sent [OF c] sys_close_fds [OF c] snd(2) by simp_all
    moreover have "m_nSendLen s2 = 0" "mh_id (m_msgHead s2) = 0" "m_nSockFd s2 = - 1"
      by (simp_all add: s2_def head_zero_def)
    ultimately show ?thesis using False snd(3,5) pad
      by (intro exI [of _ "- 1"] exI [of _ s2] exI [of _ w2] exI [of _ pad] exI [of _ k]) (auto simp: Let_def)
  qed
qed

lemma SendFlush_sends:
  assumes "ready s data" "can_send e s w"
  shows "\<exists>s1 w1 pad. let frame = message (completed (m_msgHead s) (length data) (length pad)) data pad in
    SendFlush e heap s w = Some (int (length frame), s1, w1) \<and>
    sent (m_nSockFd s) w1 = sent (m_nSockFd s) w @ frame \<and> m_uSendSeq s1 = m_uSendSeq s \<and>
    128 dvd 32 + length data + length pad \<and> length pad < 128"
  using SendFlush_outcome [OF assms(1), of e heap w] assms(2) unfolding Let_def by fastforce


text \<open>What the calls collect is a message ready to be sent.\<close>

lemma message_ready:
  assumes fs: "\<forall>f\<in>set fs. ifield_ok f" and len: "160 + int (length (concat (map enc_ifield fs))) \<le> TCPSOCK_LIMITBUF"
    and s: "0 < m_nSockFd s" "watchable s"
  shows "\<exists>t. send_fields heap fs (SendHeader heap msg sub s) = Some t \<and> ready t (concat (map enc_ifield fs)) \<and>
    same_conn (SendHeader heap msg sub s) t"
proof -
  let ?h = "SendHeader heap msg sub s" and ?bs = "concat (map enc_ifield fs)"
  from send_fields_appends [OF fs, of heap] len SendHeader_ok(1,2) [of heap msg sub s] obtain t where
    t: "send_fields heap fs ?h = Some t" "out_ok t" "same_conn ?h t" "built t = built ?h @ ?bs"
      "m_nSendLen t = 32 + int (length ?bs)"
    unfolding appends_def by force
  have "length (built ?h) = 32" using length_built [OF SendHeader_ok(1), of heap msg sub s] SendHeader_ok(2) by simp
  then have "drop 32 (built t) = ?bs" using t(4) by simp
  then have "ready t ?bs" using t s len SendHeader_ok(3,4,7) [of heap msg sub s]
    by (simp add: ready_def same_conn_def watchable_def TCPSOCK_IDENT_def)
  with t(1,3) show ?thesis by blast
qed


section \<open>Receiving\<close>

lemma sock_recv_complete:
  assumes "watchable s" "can_recv e s w" "pending (m_nSockFd s) w = bs @ rest"
  shows "\<exists>w1. sock_recv e s (length bs) w = Some (int (length bs), bs, w1) \<and> pending (m_nSockFd s) w1 = rest \<and>
    can_recv e s w1"
  using inet_src.read_all_complete [OF assms(2), of "length bs"] assms(1,3) by (auto simp: sock_recv_def)

lemma can_recv_cong: "m_nSockFd t = m_nSockFd s \<Longrightarrow> m_nTimeout t = m_nTimeout s \<Longrightarrow> can_recv e t w \<longleftrightarrow> can_recv e s w"
  by (simp add: can_recv_def can_wait_def)

lemma sint_word_of_nat: "n < 2 ^ 31 \<Longrightarrow> sint (word_of_nat n :: 32 word) = int n"
  using sint_word_of_int_32 [of "int n"] by simp

lemma RecvHeader_frame:
  assumes r: "0 < m_nSockFd r" "watchable r" "can_recv e r u"
    and p: "pending (m_nSockFd r) u = message (completed h (length data) (length pad)) data pad @ rest"
    and h: "mh_id h = TCPSOCK_IDENT" "mh_seqno h = m_uRecvSeq r + 1"
    and len: "0 < length data + length pad" "int (length data + length pad) \<le> TCPSOCK_LIMITBUF"
  shows "\<exists>r1 u1. RecvHeader e heap r u = Some (32, sint (mh_msg h), r1, u1) \<and> in_ok r1 \<and> left r1 = data \<and>
    m_uRecvSeq r1 = m_uRecvSeq r + 1 \<and> m_nSockFd r1 = m_nSockFd r \<and> m_nTimeout r1 = m_nTimeout r \<and>
    pending (m_nSockFd r) u1 = rest \<and> can_recv e r u1"
proof -
  let ?h = "completed h (length data) (length pad)" and ?n = "length data + length pad"
  let ?r = "r\<lparr>m_nRecvCur := 0, m_nRecvLen := 0\<rparr>"
  have same: "m_nSockFd ?r = m_nSockFd r" "m_nTimeout ?r = m_nTimeout r" by simp_all
  have "pending (m_nSockFd ?r) u = head_bytes (hton ?h) @ (data @ pad) @ rest"
    using p by (simp add: message_def)
  moreover have "watchable ?r" "can_recv e ?r u" using r by (simp_all add: watchable_def can_recv_def can_wait_def)
  ultimately obtain u1 where
    u1: "sock_recv e ?r 32 u = Some (32, head_bytes (hton ?h), u1)" "pending (m_nSockFd r) u1 = (data @ pad) @ rest"
      "can_recv e r u1"
    using sock_recv_complete [of ?r e u "head_bytes (hton ?h)" "(data @ pad) @ rest"]
      can_recv_cong [OF same] by auto
  let ?buf = "grown heap (int ?n) (m_pRecvBuf r)"
  let ?r2 = "r\<lparr>m_nRecvCur := 0, m_nRecvLen := 0, m_msgHead := ?h, m_uRecvSeq := m_uRecvSeq r + 1, m_pRecvBuf := ?buf\<rparr>"
  have same2: "m_nSockFd ?r2 = m_nSockFd r" "m_nTimeout ?r2 = m_nTimeout r" by simp_all
  have "watchable ?r2" using r(2) by (simp add: watchable_def)
  with sock_recv_complete [of ?r2 e u1 "data @ pad" rest] u1(2,3) can_recv_cong [OF same2] obtain u2 where
    u2: "sock_recv e ?r2 ?n u1 = Some (int ?n, data @ pad, u2)" "pending (m_nSockFd r) u2 = rest" "can_recv e r u2"
    by auto
  have small: "length data < 2 ^ 30" "length pad < 2 ^ 30" using len(2) by (simp_all add: TCPSOCK_LIMITBUF_def)
  have sint: "sint (mh_len ?h) = int (length data)" "sint (mh_padd ?h) = int (length pad)"
    using small by (simp_all add: completed_def sint_word_of_nat)
  have c: "c_int (int (length data) + int (length pad)) = Some (int ?n)"
    using len(2) by (simp add: TCPSOCK_LIMITBUF_def)
  let ?r3 = "?r2\<lparr>m_pRecvBuf := (data @ pad) @ drop ?n ?buf, m_nRecvLen := int (length data)\<rparr>"
  have buf: "int ?n \<le> int (length ?buf)" by (simp add: length_grown)
  have h': "mh_seqno ?h = m_uRecvSeq r + 1" "mh_id ?h = TCPSOCK_IDENT" "mh_msg ?h = mh_msg h"
    using h by (simp_all add: completed_def)
  have pos: "0 < int (length data) + int (length pad)" using len(1) by linarith
  have "RecvHeader e heap r u = Some (32, sint (mh_msg h), ?r3, u2)"
    using r(1) u1(1) u2(1) sint c len(2) buf h'
    by (cases r) (simp add: RecvHeader_def IsConnected_def sizeheader_def GetRecvBuf_def nat_int_add pos Let_def)
  moreover have "in_ok ?r3" "left ?r3 = data" using small(1) by (simp_all add: in_ok_def left_def)
  ultimately show ?thesis using u2(2,3) by auto
qed

section \<open>Messages from end to end\<close>



section \<open>Messages no \<open>SendFlush\<close> has sent\<close>

text \<open>C38: \<open>RecvHeader\<close> trusts the lengths in the header: a header with the right identification and sequence
  number that announces more bytes than the buffer limit, and than the buffer, makes \<open>GetRecvBuf\<close> return
  the null pointer, which is not looked at, and the receiving overruns the buffer.\<close>

theorem RecvHeader_overruns:
  assumes r: "0 < m_nSockFd r" "watchable r" "can_recv e r u"
    and p: "pending (m_nSockFd r) u = head_bytes (hton h) @ rest"
    and h: "mh_id h = TCPSOCK_IDENT" "mh_seqno h = m_uRecvSeq r + 1"
    and len: "TCPSOCK_LIMITBUF < sint (mh_len h) + sint (mh_padd h)"
      "int (length (m_pRecvBuf r)) < sint (mh_len h) + sint (mh_padd h)"
  shows "RecvHeader e heap r u = None"
proof -
  let ?r = "r\<lparr>m_nRecvCur := 0, m_nRecvLen := 0\<rparr>"
  have "watchable ?r" "can_recv e ?r u" using r by (simp_all add: watchable_def can_recv_def can_wait_def)
  then obtain u1 where u1: "sock_recv e ?r 32 u = Some (32, head_bytes (hton h), u1)"
    using sock_recv_complete [of ?r e u "head_bytes (hton h)" rest] p by auto
  show ?thesis
    using u1 r(1) h len
    by (cases r; cases "c_int (sint (mh_len h) + sint (mh_padd h))")
      (auto simp: RecvHeader_def IsConnected_def sizeheader_def GetRecvBuf_def c_int_eq_Some Let_def TCPSOCK_LIMITBUF_def)
qed

theorem RecvHeader_overruns_witness:
  "RecvHeader sample_env (\<lambda>_. 0) (InetSocket_new 5)
     (open_world (head_bytes (hton (head_zero\<lparr>mh_id := TCPSOCK_IDENT, mh_seqno := 1, mh_len := 6000000\<rparr>)))) = None"
proof -
  have "can_recv sample_env (InetSocket_new 5) (open_world bs)" for bs
    by (simp add: can_recv_def can_wait_def InetSocket_new_def)
  then show ?thesis
    by (intro RecvHeader_overruns [where rest = "[]" and h = "head_zero\<lparr>mh_id := TCPSOCK_IDENT, mh_seqno := 1, mh_len := 6000000\<rparr>"])
      (simp_all add: InetSocket_new_def watchable_def TCPSOCK_LIMITBUF_def head_zero_def)
qed

text \<open>\<open>RecvGetStr\<close> of a string whose announced length is beyond both the caller's array and the rest of the
  message puts the read position behind the end of the message, and the next \<open>RecvGet\<close> of a block of bytes
  then copies a negative number of bytes.\<close>

theorem RecvGetStr_past_end:
  assumes s: "in_ok s" "left s = be32 (word_of_nat len) @ rest"
    and len: "len < 2 ^ 30" "length rest < len" "0 < n" "n \<le> len" "n \<le> length val"
  shows "\<exists>val' u. RecvGetStr val (int n) s = Some (val', u) \<and> m_nRecvLen u < m_nRecvCur u \<and>
    (\<forall>buf k. 0 < k \<longrightarrow> RecvGet_bytes buf k u = None)"
proof -
  let ?s1 = "moved 4 s"
  define got where "got = (if int n - 1 \<le> int (length rest) then int n - 1 else int (length rest))"
  note m = moved_ok [OF s]
  have g: "RecvGet_int s = Some (int len, ?s1)"
    using take_bytes_ok [OF s, of 4] len(1) sint_word_of_nat [of len]
    by (simp add: RecvGet_int_def sizeint_def ntohl_of_be32)
  have s1: "in_ok ?s1" "left ?s1 = rest" using m(1,2) by simp_all
  have r: "m_nRecvLen ?s1 - m_nRecvCur ?s1 = int (length rest)" using length_left [OF s1(1)] s1(2) by simp
  let ?bs = "take (nat got) rest"
  have got: "0 \<le> got" "got \<le> int (length rest)" "got \<le> int n - 1" using len(3) by (auto simp: got_def)
  then have l: "int (length ?bs) = got" by simp
  have pk: "peek (m_nRecvCur ?s1) got (m_pRecvBuf ?s1) = Some ?bs"
    using moved_ok(3) [OF s1(1), of ?bs "drop (nat got) rest"] s1(2) unfolding l by simp
  obtain v1 where v1: "poke 0 (replicate n (0 :: byte)) val = Some v1" "length v1 = length val"
    using poke_SomeI [of 0 "replicate n 0" val] length_poke [of 0 "replicate n 0" val] len(5) by auto
  have "\<exists>v3. RecvGet_bytes v1 (int n - 1) ?s1 = Some (v3, moved got ?s1)"
  proof (cases "n = 1")
    case True
    then have "got = 0" using got by linarith
    then show ?thesis using True by (simp add: RecvGet_bytes_def moved_def)
  next
    case False
    obtain v2 where v2: "poke 0 (replicate (nat (int n - 1)) (0 :: byte)) v1 = Some v2" "length v2 = length v1"
      using poke_SomeI [of 0 "replicate (nat (int n - 1)) 0" v1] length_poke [of 0 "replicate (nat (int n - 1)) 0" v1]
        len(3,5) v1(2) by auto
    have "\<exists>v3. poke 0 ?bs v2 = Some v3" by (rule poke_SomeI) (use l got(3) v1(2) v2(2) len(5) in auto)
    then show ?thesis using v2(1) pk False len(3) unfolding RecvGet_bytes_def r got_def [symmetric]
      by (auto simp: moved_def)
  qed
  then obtain v3 where v3: "RecvGet_bytes v1 (int n - 1) ?s1 = Some (v3, moved got ?s1)" by blast
  let ?cur = "m_nRecvCur ?s1 + got + (int len - (int n - 1))"
  have past: "m_nRecvLen ?s1 < ?cur" using r len(2,4) by (auto simp: got_def)
  have "0 \<le> m_nRecvCur ?s1" "m_nRecvCur ?s1 \<le> m_nRecvLen ?s1" "m_nRecvLen ?s1 < 2 ^ 30"
    using s1(1) by (auto simp: in_ok_def)
  then have cur: "0 \<le> ?cur" "?cur < 2 ^ 31" using got len(1,4) by auto
  let ?u = "?s1\<lparr>m_nRecvCur := ?cur\<rparr>"
  have "RecvGetStr val (int n) s = Some (v3, ?u)"
    using v1(1) g v3 len(3,4) cur by (simp add: RecvGetStr_def moved_def)
  moreover have "RecvGet_bytes buf k ?u = None" if "0 < k" for buf k
    using that past by (auto simp: RecvGet_bytes_def peek_def split: Option.bind_splits)
  ultimately show ?thesis using past by (intro exI [of _ v3] exI [of _ ?u]) simp
qed

text \<open>A socket with a received message.\<close>

definition sample_received :: "byte list \<Rightarrow> inet_sock" where
  "sample_received bs = (InetSocket_new 5)\<lparr>m_pRecvBuf := bs, m_nRecvLen := int (length bs)\<rparr>"

theorem RecvGetStr_past_end_witness:
  "\<exists>val u. RecvGetStr (replicate 4 0) 4 (sample_received (be32 10 @ [1, 2, 3])) = Some (val, u) \<and> m_nRecvLen u < m_nRecvCur u"
proof -
  let ?s = "sample_received (be32 10 @ [1, 2, 3])"
  have "in_ok ?s" "left ?s = be32 (word_of_nat 10) @ [1, 2, 3]"
    by (simp_all add: sample_received_def in_ok_def left_def InetSocket_new_def)
  from RecvGetStr_past_end [OF this, of 4 "replicate 4 0"] show ?thesis by auto
qed

end
