(* ===== verification/IniFile.thy ===== *)
theory IniFile
  imports ConfFile "HOL-Library.Sublist"
begin

text \<open>
  The settings of the service (test/INNOLIB/src/svcapp.cpp): the ini file, a file of lines
  \<open>item = value\<close> with comments, which \<open>ProcessCommand\<close> reads and completes, and the file by which a
  command tells the watch dog to restart or upgrade. Writing means reading the whole file, changing a
  line and writing everything back. \<open>None\<close> as content is a file that does not exist.
\<close>

section \<open>Lines\<close>

text \<open>\<open>fgets(buf, 255, fp)\<close> until the end of the file: the pieces it hands over, and the C strings they are.\<close>

definition fgets :: "string \<Rightarrow> string" where
  "fgets f = take 254 (first_line f @ (if newline \<in> set f then [newline] else []))"

lemma fgets_shorter: "f \<noteq> [] \<Longrightarrow> length (drop (length (fgets f)) f) < length f"
  by (cases f) (auto simp: fgets_def first_line_def)

function pieces :: "string \<Rightarrow> string list" where
  "pieces f = (if f = [] then [] else fgets f # pieces (drop (length (fgets f)) f))"
  by pat_completeness auto
termination by (relation "measure length") (use fgets_shorter in auto)

declare pieces.simps [simp del]

definition c_lines :: "string \<Rightarrow> string list" where
  "c_lines f = map (takeWhile (\<lambda>c. c \<noteq> NUL)) (pieces f)"

text \<open>\<open>mysnprintf\<close> into an array of \<open>n\<close> bytes cuts what does not fit (\<open>SnprintfUse\<close> proves it for the formats used here).\<close>

definition printed :: "nat \<Rightarrow> string \<Rightarrow> string" where
  "printed n s = take (n - 1) s"

text \<open>\<open>strncpy\<close> of a string into an array of \<open>n\<close> bytes.\<close>

definition strncpy_block :: "nat \<Rightarrow> string \<Rightarrow> char list" where
  "strncpy_block n s = take n s @ replicate (n - length s) NUL"

section \<open>The ini file\<close>

text \<open>The conversion \<open>%[^ =]\<close>: the item and the rest of the line; nothing is assigned to an empty one.\<close>

definition scan_item :: "string \<Rightarrow> (string \<times> string) option" where
  "scan_item s =
     (let item = takeWhile (\<lambda>c. c \<noteq> CHR '' '' \<and> c \<noteq> CHR ''='') s
      in if item = [] then None else Some (item, drop (length item) s))"

text \<open>\<open>sscanf(buf, "%[^ =] = %[^\n]", item, szOri)\<close> with two assignments.\<close>

definition scan_setting :: "string \<Rightarrow> (string \<times> string) option" where
  "scan_setting s =
     (case scan_item s of
        None \<Rightarrow> None
      | Some (item, rest) \<Rightarrow>
          (case dropWhile isspace rest of
             [] \<Rightarrow> None
           | c # rest \<Rightarrow>
               let val = first_line (dropWhile isspace rest)
               in if c \<noteq> CHR ''='' \<or> val = [] then None else Some (item, val)))"

fun find_setting :: "string \<Rightarrow> string list \<Rightarrow> string option" where
  "find_setting pszItem [] = None"
| "find_setting pszItem (buf # bufs) =
     (if buf \<noteq> [] \<and> hd buf = CHR ''#'' then find_setting pszItem bufs
      else case scan_setting buf of
             None \<Rightarrow> find_setting pszItem bufs
           | Some (item, szOri) \<Rightarrow> if item = pszItem then Some szOri else find_setting pszItem bufs)"

text \<open>\<open>can_read\<close>: does \<open>fopen\<close> open the file for reading when it exists.\<close>

definition ini_lines :: "bool \<Rightarrow> string option \<Rightarrow> string list" where
  "ini_lines can_read file = (case file of Some f \<Rightarrow> if can_read then c_lines f else [] | None \<Rightarrow> [])"

text \<open>The result and the \<open>nSize\<close> bytes at \<open>pszVal\<close>.\<close>

definition ReadIniString :: "bool \<Rightarrow> string \<Rightarrow> nat \<Rightarrow> string option \<Rightarrow> string option \<Rightarrow> bool \<times> char list" where
  "ReadIniString can_read pszItem nSize pszDef file =
     (case find_setting pszItem (ini_lines can_read file) of
        Some szOri \<Rightarrow> (True, strncpy_block nSize szOri)
      | None \<Rightarrow>
          (case pszDef of
             Some d \<Rightarrow> (False, strncpy_block nSize d)
           | None \<Rightarrow> (False, replicate nSize NUL)))"

text \<open>\<open>atoi\<close>.\<close>

definition ReadIniInt :: "bool \<Rightarrow> string \<Rightarrow> int \<Rightarrow> string option \<Rightarrow> (bool \<times> int) option" where
  "ReadIniInt can_read pszItem nDef file =
     (let (ok, szVal) = ReadIniString can_read pszItem 256 (Some (printed 256 (fmt_d nDef))) file
      in do {
        val \<leftarrow> c_str szVal;
        n \<leftarrow> scan_d val;
        Some (ok, case n of None \<Rightarrow> 0 | Some n \<Rightarrow> n) })"

record ini_item =
  ii_line :: string
  ii_comment :: string

definition no_item :: ini_item where "no_item = \<lparr>ii_line = [], ii_comment = []\<rparr>"

definition with_comment :: "string option \<Rightarrow> ini_item \<Rightarrow> ini_item" where
  "with_comment pComment ii =
     (case pComment of
        Some (c # cs) \<Rightarrow> ii\<lparr>ii_comment := printed 256 (''## '' @ (c # cs) @ [newline])\<rparr>
      | _ \<Rightarrow> ii)"

definition with_setting :: "string \<Rightarrow> string \<Rightarrow> ini_item \<Rightarrow> ini_item" where
  "with_setting pszItem pszVal ii = ii\<lparr>ii_line := printed 256 (pszItem @ '' = '' @ pszVal @ [newline])\<rparr>"

text \<open>The loop that reads the old lines: \<open>ii\<close> is the item being put together, \<open>qItem\<close> what goes to the file.\<close>

fun merge_setting ::
  "string \<Rightarrow> string \<Rightarrow> string option \<Rightarrow> ini_item \<Rightarrow> string list \<Rightarrow> bool \<times> ini_item list" where
  "merge_setting pszItem pszVal pComment ii [] = (False, [])"
| "merge_setting pszItem pszVal pComment ii (line # ls) =
     (if line \<noteq> [] \<and> hd line = CHR ''#''
      then if 1 < length line \<and> line ! 1 = CHR ''#''
           then merge_setting pszItem pszVal pComment (ii\<lparr>ii_comment := line\<rparr>) ls
           else let ii = ii\<lparr>ii_line := line\<rparr>;
                    (okay, qItem) = merge_setting pszItem pszVal pComment ii ls
                in (okay, ii # qItem)
      else case scan_item line of
             None \<Rightarrow> merge_setting pszItem pszVal pComment ii ls
           | Some (item, _) \<Rightarrow>
               let (okay, qItem) = merge_setting pszItem pszVal pComment no_item ls
               in if item = pszItem
                  then (True, with_setting pszItem pszVal (with_comment pComment ii) # qItem)
                  else (okay, ii\<lparr>ii_line := line\<rparr> # qItem))"

definition WriteIniString ::
  "bool \<Rightarrow> bool \<Rightarrow> string \<Rightarrow> string \<Rightarrow> string option \<Rightarrow> string option \<Rightarrow> string option" where
  "WriteIniString can_read can_write pszItem pszVal pComment file =
     (let (okay, qItem) = merge_setting pszItem pszVal pComment no_item (ini_lines can_read file);
          qItem = (if okay then qItem else qItem @ [with_setting pszItem pszVal (with_comment pComment no_item)])
      in if can_write then Some (concat (map (\<lambda>it. ii_comment it @ ii_line it) qItem)) else file)"

definition WriteIniInt ::
  "bool \<Rightarrow> bool \<Rightarrow> string \<Rightarrow> int \<Rightarrow> string option \<Rightarrow> string option \<Rightarrow> string option" where
  "WriteIniInt can_read can_write pszItem nValue pComment file =
     WriteIniString can_read can_write pszItem (printed 256 (fmt_d nValue)) pComment file"

text \<open>
  What \<open>ProcessCommand\<close> does with the file: the default of the watch dog is written when it is missing;
  a service name in the file replaces \<open>m_szSvcName\<close>. The name is read into 64 bytes, which \<open>strncpy\<close> does not
  terminate when they are full, and copied from there.
\<close>

definition INI_USEWATCHDOG :: string where "INI_USEWATCHDOG = ''USE_WATCHDOG''"
definition INI_SVCNAME :: string where "INI_SVCNAME = ''SVC_NAME''"

definition ini_defaults ::
  "bool \<Rightarrow> bool \<Rightarrow> string \<Rightarrow> string option \<Rightarrow> (int \<times> string \<times> string option) option" where
  "ini_defaults can_read can_write m_szSvcName file = do {
     (ok, m_bUseWatchDog) \<leftarrow> ReadIniInt can_read INI_USEWATCHDOG 1 file;
     let file = (if ok then file else WriteIniInt can_read can_write INI_USEWATCHDOG m_bUseWatchDog None file);
     let (ok, svcname) = ReadIniString can_read INI_SVCNAME 64 (Some m_szSvcName) file;
     if ok
     then do { name \<leftarrow> c_str svcname; Some (m_bUseWatchDog, name, file) }
     else Some (m_bUseWatchDog, m_szSvcName, file) }"

section \<open>The watch dog file\<close>

definition WATCHDOG_UPGRADE :: string where "WATCHDOG_UPGRADE = ''UPGRADE''"
definition WATCHDOG_RESTART :: string where "WATCHDOG_RESTART = ''RESTART''"

text \<open>\<open>ttime\<close> is the time of the call.\<close>

definition WatchDogSet :: "bool \<Rightarrow> bool \<Rightarrow> string \<Rightarrow> int \<Rightarrow> string option \<Rightarrow> string option" where
  "WatchDogSet can_read can_write pszTitle ttime file =
     (let new = printed 255 (pszTitle @ '' '' @ fmt_d ttime @ [newline]);
          old = ini_lines can_read file;
          qItem = map (\<lambda>l. if sublist pszTitle l then new else l) old;
          qItem = (if \<exists>l\<in>set old. sublist pszTitle l then qItem else qItem @ [new])
      in if can_write then Some (concat qItem) else file)"

text \<open>\<open>sscanf(buf, "%*s%ld", &ttime)\<close>; a number outside \<open>long\<close> is undefined.\<close>

definition scan_time :: "string \<Rightarrow> int option" where
  "scan_time s =
     (let s = dropWhile isspace s; word = takeWhile (\<lambda>c. \<not> isspace c) s
      in if word = [] then Some 0
         else case scan_num (drop (length word) s) of
                None \<Rightarrow> Some 0
              | Some n \<Rightarrow> if - (2 ^ 63) \<le> n \<and> n < 2 ^ 63 then Some n else None)"

definition WatchDogGet :: "bool \<Rightarrow> string \<Rightarrow> string option \<Rightarrow> int option" where
  "WatchDogGet can_read pszTitle file =
     (case find (sublist pszTitle) (ini_lines can_read file) of None \<Rightarrow> Some 0 | Some l \<Rightarrow> scan_time l)"

end
