(* ===== verification/IniSpec.thy ===== *)
theory IniSpec
  imports IniFile "HOL-Library.AList"
begin

text \<open>
  The ini file as a map from items to values: \<open>WriteIniString\<close> is an update of the map, \<open>ReadIniString\<close> a
  look-up in it, whatever comments and other lines the file holds. The watch dog file likewise.
\<close>

section \<open>Lines are read as they were written\<close>

definition full :: "string \<Rightarrow> bool" where
  "full l \<longleftrightarrow> l \<noteq> [] \<and> last l = newline \<and> newline \<notin> set (butlast l) \<and> NUL \<notin> set l \<and> length l \<le> 254"

lemma full_append: "newline \<notin> set l \<Longrightarrow> NUL \<notin> set l \<Longrightarrow> length l < 254 \<Longrightarrow> full (l @ [newline])"
  by (simp add: full_def newline_def)

lemma fullE:
  assumes "full l"
  obtains m where "l = m @ [newline]" "newline \<notin> set m" "NUL \<notin> set m" "length m < 254"
proof
  show "l = butlast l @ [newline]" using assms append_butlast_last_id [of l] by (simp add: full_def)
qed (use assms in \<open>auto simp: full_def dest: in_set_butlastD\<close>)

lemma pieces_full: "full l \<Longrightarrow> pieces (l @ f) = l # pieces f"
proof (erule fullE)
  fix m assume m: "l = m @ [newline]" "newline \<notin> set m" "length m < 254"
  then have "fgets (l @ f) = l" "l \<noteq> []" by (simp_all add: fgets_def)
  then show ?thesis by (simp add: pieces.simps [of "l @ f"])
qed

lemma pieces_concat: "\<forall>l\<in>set ls. full l \<Longrightarrow> pieces (concat ls) = ls"
  by (induction ls) (simp_all add: pieces_full pieces.simps [of "[]"])

lemma full_c_str: "full l \<Longrightarrow> takeWhile (\<lambda>c. c \<noteq> NUL) l = l"
  by (auto simp: full_def takeWhile_eq_all_conv)

lemma c_lines_concat: "\<forall>l\<in>set ls. full l \<Longrightarrow> c_lines (concat ls) = ls"
  by (simp add: c_lines_def pieces_concat full_c_str map_idI)

lemma concat_pieces: "concat (pieces f) = f"
proof (induction f rule: pieces.induct)
  case (1 f)
  have "fgets f @ drop (length (fgets f)) f = f" if "f \<noteq> []"
  proof -
    have "first_line f @ (if newline \<in> set f then [newline] else []) = take (length (first_line f) + (if newline \<in> set f then 1 else 0)) f"
    proof (cases "newline \<in> set f")
      case True
      then obtain a b where "f = a @ newline # b" "newline \<notin> set a" by (metis split_list_first)
      then show ?thesis by simp
    next
      case False
      then show ?thesis by simp
    qed
    then have "fgets f = take (length (fgets f)) f" by (simp add: fgets_def min_def)
    then show ?thesis by (metis append_take_drop_id)
  qed
  with 1 show ?case by (simp add: pieces.simps [of f])
qed

text \<open>A file whose lines are read whole.\<close>

definition ini_clean :: "string option \<Rightarrow> bool" where
  "ini_clean file \<longleftrightarrow> (case file of None \<Rightarrow> True | Some f \<Rightarrow> list_all full (pieces f))"

lemma ini_clean_lines: "ini_clean (Some f) \<longleftrightarrow> (\<forall>l\<in>set (c_lines f). full l) \<and> concat (c_lines f) = f"
proof
  assume "ini_clean (Some f)"
  then have "\<forall>l\<in>set (pieces f). full l" by (simp add: ini_clean_def list_all_iff)
  moreover from this have "c_lines f = pieces f" by (simp add: c_lines_def full_c_str map_idI)
  ultimately show "(\<forall>l\<in>set (c_lines f). full l) \<and> concat (c_lines f) = f" by (simp add: concat_pieces)
next
  assume "(\<forall>l\<in>set (c_lines f). full l) \<and> concat (c_lines f) = f"
  then show "ini_clean (Some f)" using pieces_concat [of "c_lines f"] by (simp add: ini_clean_def list_all_iff)
qed

lemma ini_lines_full: "ini_clean file \<Longrightarrow> \<forall>l\<in>set (ini_lines True file). full l"
  using ini_clean_lines by (auto simp: ini_lines_def split: option.splits)

section \<open>Settings\<close>

text \<open>The map a file stands for.\<close>

definition settings :: "string option \<Rightarrow> string \<Rightarrow> string option" where
  "settings file = (\<lambda>item. find_setting item (ini_lines True file))"

definition item_ok :: "string \<Rightarrow> bool" where
  "item_ok s \<longleftrightarrow> s \<noteq> [] \<and> hd s \<noteq> CHR ''#'' \<and> set s \<inter> {CHR '' '', CHR ''='', newline, NUL} = {}"

definition value_ok :: "string \<Rightarrow> bool" where
  "value_ok s \<longleftrightarrow> s \<noteq> [] \<and> \<not> isspace (hd s) \<and> newline \<notin> set s \<and> NUL \<notin> set s"

definition comment_ok :: "string option \<Rightarrow> bool" where
  "comment_ok c \<longleftrightarrow> (case c of None \<Rightarrow> True | Some s \<Rightarrow> newline \<notin> set s \<and> NUL \<notin> set s \<and> length s \<le> 250)"

definition setting_ok :: "string \<Rightarrow> string \<Rightarrow> bool" where
  "setting_ok item val \<longleftrightarrow> item_ok item \<and> value_ok val \<and> length item + length val \<le> 250"

definition setting_line :: "string \<Rightarrow> string \<Rightarrow> string" where
  "setting_line item val = item @ '' = '' @ val @ [newline]"

lemma scan_setting_item:
  "scan_setting s = Some (item, v) \<Longrightarrow> \<exists>rest. scan_item s = Some (item, rest)"
  by (auto simp: scan_setting_def Let_def split: option.splits list.splits if_splits)

lemma setting_line_ok:
  assumes "setting_ok item val"
  shows "full (setting_line item val)" "scan_setting (setting_line item val) = Some (item, val)"
    "hd (setting_line item val) \<noteq> CHR ''#''" "with_setting item val ii = ii\<lparr>ii_line := setting_line item val\<rparr>"
proof -
  have i: "item \<noteq> []" "hd item \<noteq> CHR ''#''" "newline \<notin> set item" "NUL \<notin> set item"
      "CHR '' '' \<notin> set item" "CHR ''='' \<notin> set item"
    and v: "val \<noteq> []" "\<not> isspace (hd val)" "newline \<notin> set val" "NUL \<notin> set val"
    and len: "length item + length val \<le> 250"
    using assms by (auto simp: setting_ok_def item_ok_def value_ok_def)
  have "full ((item @ '' = '' @ val) @ [newline])"
    by (rule full_append) (use i v len in \<open>auto simp: newline_def\<close>)
  then show "full (setting_line item val)" by (simp add: setting_line_def)
  have tw: "takeWhile (\<lambda>c. c \<noteq> CHR '' '' \<and> c \<noteq> CHR ''='') (item @ '' = '' @ val @ [newline]) = item"
    using i by (subst takeWhile_append2) auto
  then have si: "scan_item (setting_line item val) = Some (item, '' = '' @ val @ [newline])"
    using i(1) by (simp add: scan_item_def setting_line_def Let_def)
  have eq: "\<not> isspace (CHR ''='')" by (simp add: isspace_def)
  have "dropWhile isspace (val @ [newline]) = val @ [newline]" using v by (cases val) auto
  then show "scan_setting (setting_line item val) = Some (item, val)"
    using eq v by (simp add: scan_setting_def si)
  show "hd (setting_line item val) \<noteq> CHR ''#''" using i by (simp add: setting_line_def)
  show "with_setting item val ii = ii\<lparr>ii_line := setting_line item val\<rparr>"
    using len by (simp add: with_setting_def printed_def setting_line_def)
qed

section \<open>Writing a setting\<close>

text \<open>The lines an item puts into the file.\<close>

definition item_lines :: "ini_item \<Rightarrow> string list" where
  "item_lines it = (if ii_comment it = [] then [] else [ii_comment it]) @ [ii_line it]"

lemma concat_item_lines: "concat (concat (map item_lines q)) = concat (map (\<lambda>it. ii_comment it @ ii_line it) q)"
  by (induction q) (simp_all add: item_lines_def)

definition note_ok :: "string \<Rightarrow> bool" where
  "note_ok c \<longleftrightarrow> c = [] \<or> full c \<and> hd c = CHR ''#''"

lemma with_comment_ok: "comment_ok c \<Longrightarrow> note_ok (ii_comment ii) \<Longrightarrow> note_ok (ii_comment (with_comment c ii))"
proof (cases "c = None \<or> c = Some []")
  case False
  then obtain x cs where c: "c = Some (x # cs)" by (cases c) (auto simp: neq_Nil_conv)
  assume "comment_ok c"
  then have x: "newline \<notin> set (x # cs)" "NUL \<notin> set (x # cs)" "length (x # cs) \<le> 250" by (simp_all add: comment_ok_def c)
  have "full ((''## '' @ x # cs) @ [newline])" by (rule full_append) (use x in \<open>auto simp: newline_def\<close>)
  moreover have "printed 256 (''## '' @ (x # cs) @ [newline]) = (''## '' @ x # cs) @ [newline]"
    using x(3) by (simp add: printed_def)
  ultimately show ?thesis unfolding with_comment_def c note_ok_def by simp
qed (auto simp: with_comment_def)

lemma find_setting_note: "note_ok c \<Longrightarrow> find_setting x ((if c = [] then [] else [c]) @ ls) = find_setting x ls"
  by (auto simp: note_ok_def full_def)

lemma find_item_lines:
  "note_ok (ii_comment it) \<Longrightarrow> find_setting x (item_lines it @ ls) = find_setting x (ii_line it # ls)"
  unfolding item_lines_def append_assoc by (subst find_setting_note) simp_all

lemma item_lines_full: "note_ok (ii_comment it) \<Longrightarrow> full (ii_line it) \<Longrightarrow> \<forall>l\<in>set (item_lines it). full l"
  by (auto simp: item_lines_def note_ok_def)

lemma with_setting_comment [simp]: "ii_comment (with_setting k v ii) = ii_comment ii"
  by (simp add: with_setting_def)

lemma merge_setting_spec:
  assumes kv: "setting_ok k v" and c: "comment_ok c"
  shows "\<forall>l\<in>set ls. full l \<Longrightarrow> note_ok (ii_comment ii) \<Longrightarrow> merge_setting k v c ii ls = (okay, q) \<Longrightarrow>
    (\<forall>l\<in>set (concat (map item_lines q)). full l) \<and>
    (\<forall>x more. find_setting x (concat (map item_lines q) @ more) =
       (if x = k \<and> okay then Some v
        else case if x = k then None else find_setting x ls of None \<Rightarrow> find_setting x more | Some y \<Rightarrow> Some y))"
proof (induction ls arbitrary: ii okay q)
  case Nil
  then show ?case by auto
next
  case (Cons l ls)
  note line = setting_line_ok [OF kv]
  have l: "full l" "l \<noteq> []" and ls: "\<forall>l\<in>set ls. full l" using Cons.prems(1) by (auto simp: full_def)
  have none: "note_ok (ii_comment no_item)" by (simp add: no_item_def note_ok_def)
  show ?case
  proof (cases "hd l = CHR ''#''")
    case hash: True
    show ?thesis
    proof (cases "1 < length l \<and> l ! 1 = CHR ''#''")
      case True
      have "note_ok (ii_comment (ii\<lparr>ii_comment := l\<rparr>))" using l(1) hash by (simp add: note_ok_def)
      from Cons.IH [OF ls this] Cons.prems(3) hash True l show ?thesis by simp
    next
      case False
      let ?ii = "ii\<lparr>ii_line := l\<rparr>"
      from Cons.prems(3) hash False l obtain q1 where
        q1: "merge_setting k v c ?ii ls = (okay, q1)" "q = ?ii # q1" by (auto simp: Let_def split: prod.splits)
      have n: "note_ok (ii_comment ?ii)" using Cons.prems(2) by simp
      from Cons.IH [OF ls n q1(1)] item_lines_full [OF n] l hash q1(2) find_item_lines [OF n]
      show ?thesis by auto
    qed
  next
    case nohash: False
    show ?thesis
    proof (cases "scan_item l")
      case None
      then have "scan_setting l = None" by (simp add: scan_setting_def)
      with Cons.IH [OF ls Cons.prems(2)] Cons.prems(3) None nohash l show ?thesis by simp
    next
      case (Some p)
      then obtain item rest where s: "scan_item l = Some (item, rest)" by (cases p) auto
      obtain ok1 q1 where q1: "merge_setting k v c no_item ls = (ok1, q1)" by (metis prod.exhaust)
      note IH = Cons.IH [OF ls none q1]
      have other: "scan_setting l = None \<or> (\<exists>y. scan_setting l = Some (item, y))"
        using s scan_setting_item [of l] by (cases "scan_setting l") force+
      show ?thesis
      proof (cases "item = k")
        case True
        let ?it = "with_setting k v (with_comment c ii)"
        have it: "ii_line ?it = setting_line k v" "note_ok (ii_comment ?it)"
          using line(4) with_comment_ok [OF c Cons.prems(2)] by simp_all
        have "okay" "q = ?it # q1" using Cons.prems(3) nohash l s q1 True by simp_all
        moreover have "setting_line k v \<noteq> []" using line(1) by (simp add: full_def)
        ultimately show ?thesis
          using IH item_lines_full [OF it(2)] find_item_lines [OF it(2)] it(1) line nohash l True other
          by (auto split: option.splits)
      next
        case False
        let ?it = "ii\<lparr>ii_line := l\<rparr>"
        have n: "note_ok (ii_comment ?it)" using Cons.prems(2) by simp
        have "okay = ok1" "q = ?it # q1" using Cons.prems(3) nohash l s q1 False by simp_all
        then show ?thesis
          using IH item_lines_full [OF n] find_item_lines [OF n] nohash l False other
          by (auto split: option.splits)
      qed
    qed
  qed
qed

lemma find_setting_lines:
  "setting_ok k v \<Longrightarrow> find_setting x [setting_line k v] = (if x = k then Some v else None)"
  using setting_line_ok [of k v] by auto

text \<open>A write is an update of the map, and leaves a file whose lines are read whole.\<close>

lemma WriteIniString_update:
  assumes clean: "ini_clean file" and kv: "setting_ok k v" and c: "comment_ok c"
  shows "ini_clean (WriteIniString True True k v c file) \<and>
    settings (WriteIniString True True k v c file) = (settings file)(k \<mapsto> v)"
proof -
  obtain okay q where m: "merge_setting k v c no_item (ini_lines True file) = (okay, q)" by (metis prod.exhaust)
  let ?new = "with_setting k v (with_comment c no_item)"
  define q' where "q' = (if okay then q else q @ [?new])"
  have none: "note_ok (ii_comment no_item)" by (simp add: no_item_def note_ok_def)
  note spec = merge_setting_spec [OF kv c ini_lines_full [OF clean] none m]
  have new: "note_ok (ii_comment ?new)" "ii_line ?new = setting_line k v" "full (ii_line ?new)"
    using with_comment_ok [OF c none] setting_line_ok [OF kv] by simp_all
  have full: "\<forall>l\<in>set (concat (map item_lines q')). full l"
    using spec item_lines_full [OF new(1,3)] by (auto simp: q'_def)
  have w: "WriteIniString True True k v c file = Some (concat (concat (map item_lines q')))"
    unfolding concat_item_lines using m by (simp add: WriteIniString_def q'_def)
  have "find_setting x (concat (map item_lines q')) = ((settings file)(k \<mapsto> v)) x" for x
  proof (cases okay)
    case True
    then show ?thesis using spec [THEN conjunct2, rule_format, of x "[]"]
      by (simp add: q'_def settings_def split: option.splits)
  next
    case False
    have "find_setting x (item_lines ?new @ []) = (if x = k then Some v else None)"
      unfolding find_item_lines [OF new(1)] new(2) by (rule find_setting_lines [OF kv])
    then show ?thesis using False spec [THEN conjunct2, rule_format, of x "item_lines ?new"]
      by (cases "x = k") (auto simp: q'_def settings_def split: option.splits)
  qed
  then have "settings (WriteIniString True True k v c file) = (settings file)(k \<mapsto> v)"
    unfolding w settings_def by (simp add: ini_lines_def c_lines_concat [OF full] fun_eq_iff)
  then show ?thesis using pieces_concat [OF full] full unfolding w by (simp add: ini_clean_def list_all_iff)
qed

fun writes :: "(string \<times> string \<times> string option) list \<Rightarrow> string option \<Rightarrow> string option" where
  "writes [] file = file"
| "writes ((k, v, c) # ws) file = writes ws (WriteIniString True True k v c file)"

fun updates :: "(string \<times> string \<times> string option) list \<Rightarrow> (string \<Rightarrow> string option) \<Rightarrow> string \<Rightarrow> string option" where
  "updates [] m = m"
| "updates ((k, v, c) # ws) m = updates ws (m(k \<mapsto> v))"

definition write_ok :: "string \<times> string \<times> string option \<Rightarrow> bool" where
  "write_ok = (\<lambda>(k, v, c). setting_ok k v \<and> comment_ok c)"

lemma writes_updates:
  "ini_clean f \<Longrightarrow> \<forall>kvc\<in>set ws. write_ok kvc \<Longrightarrow>
   ini_clean (writes ws f) \<and> settings (writes ws f) = updates ws (settings f)"
proof (induction ws arbitrary: f)
  case (Cons kvc ws)
  obtain k v c where kvc: "kvc = (k, v, c)" by (cases kvc) auto
  have "setting_ok k v" "comment_ok c" using Cons.prems(2) by (simp_all add: write_ok_def kvc)
  from WriteIniString_update [OF Cons.prems(1) this] Cons.IH [of "WriteIniString True True k v c f"] Cons.prems(2)
  show ?case by (simp add: kvc del: fun_upd_apply)
qed simp

text \<open>C10: The ini file is a map. For any sequence of \<open>WriteIniString\<close> on a file whose lines are whole, whatever
  comments and other lines it holds and whether the items are new or not, \<open>ReadIniString\<close> afterwards finds
  for every item the value written last, or the value it had before, and otherwise the default. Items have
  no blank or equals sign, values are not empty and do not start with white space, and a line fits the
  buffer of 255 bytes.\<close>

theorem ini_file_is_map:
  assumes "ini_clean file" "\<forall>kvc\<in>set ws. write_ok kvc"
  shows "ReadIniString True item n d (writes ws file) =
    (case updates ws (settings file) item of
       Some v \<Rightarrow> (True, strncpy_block n v)
     | None \<Rightarrow> (False, case d of Some s \<Rightarrow> strncpy_block n s | None \<Rightarrow> replicate n NUL))"
  using writes_updates [OF assms] by (simp add: ReadIniString_def settings_def fun_eq_iff split: option.split)

theorem ini_file_is_map_witness:
  "ReadIniString True ''SVC_NAME'' 4 None
     (writes [(''USE_WATCHDOG'', ''1'', None), (''SVC_NAME'', ''LOG'', Some ''name'')]
       (Some (''# mine'' @ [newline] @ ''SVC_NAME = X'' @ [newline]))) = (True, ''LOG'' @ [NUL])"
proof -
  let ?ws = "[(''USE_WATCHDOG'', ''1'', None), (''SVC_NAME'', ''LOG'', Some ''name'')]"
  let ?ls = "[''# mine'' @ [newline], ''SVC_NAME = X'' @ [newline]]"
  have "\<forall>l\<in>set ?ls. full l" by (simp add: full_def newline_def)
  from pieces_concat [OF this] this have "ini_clean (Some (concat ?ls))" by (simp add: ini_clean_def list_all_iff)
  moreover have "\<forall>kvc\<in>set ?ws. write_ok kvc"
    by (simp add: write_ok_def setting_ok_def item_ok_def value_ok_def comment_ok_def newline_def isspace_def)
  ultimately show ?thesis
    using ini_file_is_map [of "Some (concat ?ls)" ?ws "''SVC_NAME''" 4 None] by (simp add: strncpy_block_def)
qed

text \<open>
  The start of the service. The second start finds what the first has written; a service name of 64
  characters or more in the file makes it read behind the array.
\<close>

lemma ReadIniString_settings:
  "ReadIniString True k n d f = (case settings f k of
     Some v \<Rightarrow> (True, strncpy_block n v)
   | None \<Rightarrow> (False, case d of Some s \<Rightarrow> strncpy_block n s | None \<Rightarrow> replicate n NUL))"
  by (simp add: ReadIniString_def settings_def split: option.split)

lemma c_str_block: "NUL \<notin> set s \<Longrightarrow> c_str (strncpy_block n s) = (if length s < n then Some s else None)"
proof (cases "length s < n")
  case True
  assume s: "NUL \<notin> set s"
  obtain k where "n - length s = Suc k" using True by (cases "n - length s") auto
  then have "strncpy_block n s = s @ NUL # replicate k NUL" using True by (simp add: strncpy_block_def)
  then show ?thesis using s True c_str_terminated by simp
next
  case False
  assume "NUL \<notin> set s"
  then have "NUL \<notin> set (strncpy_block n s)" using False by (auto simp: strncpy_block_def dest: in_set_takeD)
  then show ?thesis using False by (simp add: c_str_def)
qed

lemma fmt_d_value:
  assumes "int_range n"
  shows "value_ok (fmt_d n)" "NUL \<notin> set (fmt_d n)" "length (fmt_d n) < 200" "scan_d (fmt_d n) = Some (Some n)"
proof -
  have w: "word_ok 200 (fmt_d n)" by (rule word_number [OF assms])
  then show "NUL \<notin> set (fmt_d n)" "length (fmt_d n) < 200" by (auto simp: word_ok_def)
  have c: "fmt_d n \<noteq> []" "\<forall>c\<in>set (fmt_d n). \<not> isspace c \<and> c \<noteq> NUL" using w by (simp_all add: word_ok_def)
  then show "value_ok (fmt_d n)" unfolding value_ok_def using hd_in_set [OF c(1)] isspace_newline by blast
  show "scan_d (fmt_d n) = Some (Some n)" using scan_d_fmt_d [OF assms, of "[]"] by simp
qed

lemma ReadIniInt_settings:
  assumes "int_range d" "settings f k = None \<or> settings f k = Some (fmt_d n) \<and> int_range n"
  shows "ReadIniInt True k d f = Some (settings f k \<noteq> None, if settings f k = None then d else n)"
proof -
  note d = fmt_d_value [OF assms(1)]
  have "printed 256 (fmt_d d) = fmt_d d" using d(3) by (simp add: printed_def)
  then show ?thesis
    using assms(2) d fmt_d_value [of n] by (auto simp: ReadIniInt_def ReadIniString_settings c_str_block)
qed

lemma ini_defaults_again:
  assumes f: "ini_clean f" and w: "settings f INI_USEWATCHDOG = None \<or> settings f INI_USEWATCHDOG = Some (fmt_d n) \<and> int_range n"
    and s: "settings f INI_SVCNAME = None \<or> settings f INI_SVCNAME = Some name \<and> NUL \<notin> set name"
  shows "if settings f INI_SVCNAME = Some name \<and> 64 \<le> length name then ini_defaults True True svc f = None
    else \<exists>f1. let start = Some (if settings f INI_USEWATCHDOG = None then 1 else n,
        if settings f INI_SVCNAME = None then svc else name, f1) in
      ini_defaults True True svc f = start \<and> ini_defaults True True svc f1 = start"
proof -
  let ?f = "if settings f INI_USEWATCHDOG = None then WriteIniInt True True INI_USEWATCHDOG 1 None f else f"
  have "setting_ok INI_USEWATCHDOG (fmt_d 1)"
    using fmt_d_value [of 1] by (simp add: setting_ok_def item_ok_def INI_USEWATCHDOG_def newline_def)
  moreover have "printed 256 (fmt_d 1) = fmt_d 1" using fmt_d_value(3) [of 1] by (simp add: printed_def)
  ultimately have set: "settings (WriteIniInt True True INI_USEWATCHDOG 1 None f) = (settings f)(INI_USEWATCHDOG \<mapsto> fmt_d 1)"
    using WriteIniString_update [OF f] by (simp add: WriteIniInt_def comment_ok_def)
  have new: "settings ?f INI_USEWATCHDOG = Some (fmt_d (if settings f INI_USEWATCHDOG = None then 1 else n))"
    "settings ?f INI_SVCNAME = settings f INI_SVCNAME"
    using w set by (auto simp: INI_USEWATCHDOG_def INI_SVCNAME_def)
  have r: "ReadIniInt True INI_USEWATCHDOG 1 f = Some (settings f INI_USEWATCHDOG \<noteq> None, if settings f INI_USEWATCHDOG = None then 1 else n)"
    "ReadIniInt True INI_USEWATCHDOG 1 ?f = Some (True, if settings f INI_USEWATCHDOG = None then 1 else n)"
    using ReadIniInt_settings [of 1 f INI_USEWATCHDOG n] w
      ReadIniInt_settings [of 1 ?f INI_USEWATCHDOG "if settings f INI_USEWATCHDOG = None then 1 else n"] new(1) by auto
  show ?thesis
    using r new(2) s by (auto simp: ini_defaults_def ReadIniString_settings c_str_block Let_def split: if_splits)
qed

section \<open>The watch dog file\<close>

definition title_ok :: "string \<Rightarrow> bool" where
  "title_ok t \<longleftrightarrow> t = WATCHDOG_UPGRADE \<or> t = WATCHDOG_RESTART"

definition long_range :: "int \<Rightarrow> bool" where
  "long_range n \<longleftrightarrow> - (2 ^ 63) \<le> n \<and> n < 2 ^ 63"

definition wd_line :: "string \<times> int \<Rightarrow> string" where
  "wd_line = (\<lambda>(title, n). title @ '' '' @ fmt_d n @ [newline])"

lemma fmt_d_chars: "c \<in> set (fmt_d n) \<Longrightarrow> c = CHR ''-'' \<or> isdigit c"
  by (auto simp: fmt_d_def fmt_d0_def Let_def dest: dec_isdigit split: if_splits)

lemma length_fmt_d_long: "long_range n \<Longrightarrow> length (fmt_d n) \<le> 20"
proof -
  assume "long_range n"
  then have "\<bar>n\<bar> < 10 ^ 19" by (simp add: long_range_def abs_if)
  then have "nat \<bar>n\<bar> < 10 ^ 19" by (simp add: nat_less_iff)
  then have "length (dec (nat \<bar>n\<bar>)) \<le> 19" by (rule length_dec_le) simp
  then show ?thesis by (cases "n < 0") (simp_all add: fmt_d_def fmt_d0_def Let_def)
qed

lemma wd_line_ok:
  assumes t: "title_ok t" and n: "long_range n"
  shows "full (wd_line (t, n))" "scan_time (wd_line (t, n)) = Some n"
    "title_ok u \<Longrightarrow> sublist u (wd_line (t, n)) \<longleftrightarrow> u = t"
    "printed 255 (t @ '' '' @ fmt_d n @ [newline]) = wd_line (t, n)"
proof -
  have chars: "c \<noteq> newline \<and> c \<noteq> NUL \<and> c \<noteq> CHR ''S'' \<and> c \<noteq> CHR ''G'' \<and> \<not> isspace c" if "c \<in> set (fmt_d n)" for c
    using fmt_d_chars [OF that] by (auto simp: isdigit_def isspace_def newline_def)
  have tc: "length t = 7" "newline \<notin> set t" "NUL \<notin> set t" "\<forall>c\<in>set t. \<not> isspace c"
    using t by (auto simp: title_ok_def WATCHDOG_UPGRADE_def WATCHDOG_RESTART_def newline_def isspace_def)
  have "full ((t @ '' '' @ fmt_d n) @ [newline])"
    by (rule full_append) (use tc chars length_fmt_d_long [OF n] in \<open>auto simp: newline_def\<close>)
  then show "full (wd_line (t, n))" by (simp add: wd_line_def)
  have "dropWhile isspace (wd_line (t, n)) = wd_line (t, n)" using tc by (cases t) (auto simp: wd_line_def)
  moreover have "takeWhile (\<lambda>c. \<not> isspace c) (wd_line (t, n)) = t"
    using takeWhile_word [of t "'' '' @ fmt_d n @ [newline]"] tc by (simp add: wd_line_def)
  moreover have "scan_num ('' '' @ fmt_d n @ [newline]) = Some n"
    using scan_num_fmt_d [of "[newline]" n] by (simp add: scan_num_def isdigit_def newline_def)
  ultimately show "scan_time (wd_line (t, n)) = Some n"
    using tc n by (auto simp: scan_time_def Let_def wd_line_def long_range_def)
  show "printed 255 (t @ '' '' @ fmt_d n @ [newline]) = wd_line (t, n)"
    using tc length_fmt_d_long [OF n] by (simp add: printed_def wd_line_def)
  show "sublist u (wd_line (t, n)) \<longleftrightarrow> u = t" if u: "title_ok u"
  proof
    assume "sublist u (wd_line (t, n))"
    then have s: "set u \<subseteq> set (wd_line (t, n))" by (rule set_mono_sublist)
    have "CHR ''S'' \<notin> set (wd_line (WATCHDOG_UPGRADE, n))" "CHR ''G'' \<notin> set (wd_line (WATCHDOG_RESTART, n))"
      using chars by (auto simp: wd_line_def WATCHDOG_UPGRADE_def WATCHDOG_RESTART_def newline_def)
    then show "u = t" using s u t by (auto simp: title_ok_def WATCHDOG_UPGRADE_def WATCHDOG_RESTART_def)
  qed (simp add: wd_line_def)
qed

definition wd_file :: "(string \<times> int) list \<Rightarrow> string option \<Rightarrow> bool" where
  "wd_file al f \<longleftrightarrow> (\<forall>(t, n)\<in>set al. title_ok t \<and> long_range n) \<and> distinct (map fst al) \<and>
     ini_lines True f = map wd_line al"

lemma wd_update:
  "(\<forall>(u, m)\<in>set al. title_ok u \<and> long_range m) \<Longrightarrow> distinct (map fst al) \<Longrightarrow> title_ok t \<Longrightarrow>
   (let old = map wd_line al; q = map (\<lambda>l. if sublist t l then wd_line (t, n) else l) old
    in if \<exists>l\<in>set old. sublist t l then q else q @ [wd_line (t, n)]) = map wd_line (AList.update t n al)"
proof (induction al)
  case (Cons um al)
  obtain u m where um: "um = (u, m)" by (cases um)
  then have u: "sublist t (wd_line (u, m)) \<longleftrightarrow> t = u" using wd_line_ok(3) Cons.prems by simp
  show ?case
  proof (cases "t = u")
    case True
    have "\<not> sublist t l" if "l \<in> set (map wd_line al)" for l
      using that Cons.prems True um wd_line_ok(3) [OF _ _ Cons.prems(3)] by (force simp: image_iff)
    then have "map (\<lambda>l. if sublist t l then wd_line (t, n) else l) (map wd_line al) = map wd_line al" by (intro map_idI) simp
    then show ?thesis using u True um by (simp add: Let_def)
  next
    case False
    then show ?thesis using Cons u um by (auto simp: Let_def split: if_splits)
  qed
qed simp

lemma WatchDogSet_file:
  assumes "wd_file al f" "title_ok t" "long_range n"
  shows "wd_file (AList.update t n al) (WatchDogSet True True t n f)"
proof -
  let ?al = "AList.update t n al"
  have al: "\<forall>(u, m)\<in>set al. title_ok u \<and> long_range m" "distinct (map fst al)" "ini_lines True f = map wd_line al"
    using assms(1) by (auto simp: wd_file_def)
  have "\<forall>(u, m)\<in>set ?al. title_ok u \<and> long_range m"
    using al(1) assms(2,3) by (induction al) auto
  moreover from this have "\<forall>l\<in>set (map wd_line ?al). full l" using wd_line_ok(1) by auto
  moreover have "WatchDogSet True True t n f = Some (concat (map wd_line ?al))"
    unfolding WatchDogSet_def wd_line_ok(4) [OF assms(2,3)] al(3)
    using wd_update [OF al(1,2) assms(2), of n] by (simp add: Let_def split: if_splits)
  ultimately show ?thesis using distinct_update [OF al(2)] c_lines_concat by (simp add: wd_file_def ini_lines_def)
qed

lemma WatchDogGet_file: "wd_file al f \<Longrightarrow> title_ok t \<Longrightarrow> WatchDogGet True t f = Some (case map_of al t of None \<Rightarrow> 0 | Some n \<Rightarrow> n)"
proof -
  assume "wd_file al f" and t: "title_ok t"
  then have f: "ini_lines True f = map wd_line al" and al: "\<forall>(u, m)\<in>set al. title_ok u \<and> long_range m"
    by (auto simp: wd_file_def)
  have "find (sublist t) (map wd_line al) = map_option (\<lambda>n. wd_line (t, n)) (map_of al t) \<and>
    (\<forall>n. map_of al t = Some n \<longrightarrow> long_range n)"
    using al wd_line_ok(3) [OF _ _ t] by (induction al) auto
  then show ?thesis using wd_line_ok(2) [OF t] unfolding WatchDogGet_def f by (auto split: option.split)
qed

fun sets :: "(string \<times> int) list \<Rightarrow> string option \<Rightarrow> string option" where
  "sets [] f = f"
| "sets ((t, n) # ops) f = sets ops (WatchDogSet True True t n f)"

lemma sets_file:
  "wd_file al f \<Longrightarrow> \<forall>(t, n)\<in>set ops. title_ok t \<and> long_range n \<Longrightarrow>
   \<exists>al'. wd_file al' (sets ops f) \<and> map_of al' = map_of al ++ map_of (rev ops)"
proof (induction ops arbitrary: al f)
  case (Cons tn ops)
  obtain t n where tn: "tn = (t, n)" by (cases tn)
  from Cons.prems tn have "title_ok t" "long_range n" by auto
  from Cons.IH [OF WatchDogSet_file [OF Cons.prems(1) this]] Cons.prems(2) tn show ?case
    by (simp add: update_conv' map_add_upds [symmetric] del: fun_upd_apply)
qed auto

text \<open>C34: The watch dog is told the time of the last command: after any sequence of \<open>WatchDogSet\<close> for restarts and
  upgrades, starting without a file, \<open>WatchDogGet\<close> returns for each of the two the time it was set last,
  and 0 when it was never set.\<close>

theorem watchdog_last_command:
  assumes "\<forall>(t, n)\<in>set ops. title_ok t \<and> long_range n" "title_ok t"
  shows "WatchDogGet True t (sets ops None) = Some (case map_of (rev ops) t of None \<Rightarrow> 0 | Some n \<Rightarrow> n)"
proof -
  have "wd_file [] None" by (simp add: wd_file_def ini_lines_def)
  from sets_file [OF this assms(1)] WatchDogGet_file [OF _ assms(2)] show ?thesis by auto
qed

theorem watchdog_last_command_witness:
  "WatchDogGet True WATCHDOG_RESTART
     (sets [(WATCHDOG_RESTART, 1500000000), (WATCHDOG_UPGRADE, 1500000007), (WATCHDOG_RESTART, 1500000009)] None) =
   Some 1500000009"
  by (subst watchdog_last_command) (simp_all add: title_ok_def long_range_def WATCHDOG_UPGRADE_def WATCHDOG_RESTART_def)

end
