(* ===== verification/PacketType.thy ===== *)
theory PacketType
  imports Sample
begin

text \<open>
  The representation invariant of \<open>CPacket\<close>: whatever sequence of its public operations is performed
  on an object, whatever is written, received or read, the pointer stays inside the buffer and the
  length field tells the size of the buffer, except after a frame whose length field is too small.
\<close>

section \<open>The invariant\<close>

text \<open>
  A negative length is left behind by a frame that announces less than its header; the buffer of the
  object is then still the former one.
\<close>

definition packet_typed :: "cpacket \<Rightarrow> bool" where
  "packet_typed p \<longleftrightarrow> int_range (m_nDataLength p) \<and> 0 \<le> m_nDataPointer p \<and>
     m_nDataPointer p \<le> int (length (data_cells p)) \<and> length (data_cells p) < 2 ^ 31 \<and>
     (0 \<le> m_nDataLength p \<longrightarrow> int (length (data_cells p)) = m_nDataLength p)"

named_theorems typed

lemma typed_new: "packet_typed (CPacket_new junk)"
  by (simp add: packet_typed_def CPacket_new_def data_cells_def)

lemma typed_init:
  "packet_typed p \<Longrightarrow> packet_typed (InitPacket1 fd p)"
  "packet_typed p \<Longrightarrow> packet_typed (InitPacket2 fd logflag p)"
  "packet_typed p \<Longrightarrow> packet_typed (InitPacket3 cat cmd fd p)"
  "packet_typed p \<Longrightarrow> packet_typed (InitPacket4 cat cmd fd logflag p)"
  by (simp_all add: packet_typed_def data_cells_def
      InitPacket1_def InitPacket2_def InitPacket3_def InitPacket4_def)

section \<open>Reading\<close>

text \<open>What \<open>CheckDataExists\<close> grants fits into the buffer.\<close>

lemma typed_advance:
  assumes "packet_typed p" "CheckDataExists e n p w = Some (True, w1)" "0 \<le> n"
  shows "packet_typed (advance n p)"
proof -
  have "m_nDataPointer p + n \<le> m_nDataLength p"
    using assms(2) by (auto simp: CheckDataExists_def bind_eq_Some_conv c_int_eq_Some split: if_splits)
  with assms(1,3) show ?thesis by (auto simp: packet_typed_def advance_def data_cells_def)
qed

lemma typed_ReadTinyInt [typed]:
  "ReadTinyInt e v p w = Some (ok, r, q, w1) \<Longrightarrow> packet_typed p \<Longrightarrow> packet_typed q"
  by (auto simp: ReadTinyInt_def bind_eq_Some_conv split: if_splits intro: typed_advance)

lemma typed_ReadShortInt [typed]:
  "ReadShortInt e v p w = Some (ok, r, q, w1) \<Longrightarrow> packet_typed p \<Longrightarrow> packet_typed q"
  by (auto simp: ReadShortInt_def bind_eq_Some_conv split: if_splits intro: typed_advance)

lemma typed_ReadInt [typed]:
  "ReadInt e v p w = Some (ok, r, q, w1) \<Longrightarrow> packet_typed p \<Longrightarrow> packet_typed q"
  by (auto simp: ReadInt_def bind_eq_Some_conv split: if_splits intro: typed_advance)

lemma typed_ReadBigInt [typed]:
  "ReadBigInt e v p w = Some (ok, r, q, w1) \<Longrightarrow> packet_typed p \<Longrightarrow> packet_typed q"
  by (auto simp: ReadBigInt_def bind_eq_Some_conv split: if_splits dest!: typed_ReadInt)

lemma typed_ReadChar [typed]:
  "ReadChar e n p w = Some (ok, r, q, w1) \<Longrightarrow> packet_typed p \<Longrightarrow> packet_typed q"
  by (auto simp: ReadChar_def bind_eq_Some_conv split: if_splits intro: typed_advance)

lemma typed_ReadString [typed]:
  "ReadString e n p w = Some (ok, r, q, w1) \<Longrightarrow> packet_typed p \<Longrightarrow> packet_typed q"
  by (auto simp: ReadString_def bind_eq_Some_conv split: if_splits dest!: typed_ReadInt intro: typed_advance)

lemma typed_ReadShortString [typed]:
  "ReadShortString e n p w = Some (ok, r, q, w1) \<Longrightarrow> packet_typed p \<Longrightarrow> packet_typed q"
  by (auto simp: ReadShortString_def bind_eq_Some_conv split: if_splits dest!: typed_ReadShortInt
      intro: typed_advance)

section \<open>Writing\<close>

lemma typed_grow:
  assumes "grow p = Some q" "packet_typed p" "0 \<le> m_nDataLength p" "next_length p \<le> INT_MAX"
  shows "packet_typed q"
proof -
  from assms(1) obtain fresh blk where b: "fresh_block (next_length p) = Some fresh"
    "case m_strData p of None \<Rightarrow> blk = fresh
     | Some old \<Rightarrow> \<exists>xs. peek 0 (m_nDataPointer p) old = Some xs \<and> poke 0 xs fresh = Some blk"
    "q = p\<lparr>m_nDataLength := next_length p, m_strData := Some blk\<rparr>"
    by (cases "m_strData p") (auto simp: grow_def bind_eq_Some_conv)
  have "length blk = length fresh" using b(2) by (auto simp: length_poke split: option.splits)
  moreover have "length fresh = nat (next_length p)" using b(1) by (auto simp: fresh_block_def dest: length_poke)
  ultimately have l: "length blk = nat (next_length p)" by simp
  have n: "m_nDataLength p \<le> next_length p" "0 \<le> next_length p"
    using assms(3) by (auto simp: next_length_def BUFFER_BASE_SIZE_def)
  show ?thesis using assms(2,3,4) n l b(3) by (auto simp: packet_typed_def data_cells_def INT_MAX_def)
qed

lemma typed_CheckDataBuffer [typed]: "CheckDataBuffer n p = Some q \<Longrightarrow> packet_typed p \<Longrightarrow> packet_typed q"
proof (induction n p rule: CheckDataBuffer.induct)
  case (1 n p)
  show ?case
  proof (cases "m_nDataLength p - m_nDataPointer p < n")
    case True
    with "1.prems"(1) obtain r where r: "c_int (m_nDataLength p - m_nDataPointer p) =
        Some (m_nDataLength p - m_nDataPointer p)" "\<not> (m_nDataLength p < 0 \<or> INT_MAX < next_length p)"
      "grow p = Some r" "CheckDataBuffer n r = Some q"
      by (subst (asm) CheckDataBuffer.simps) (auto simp: c_int_eq_Some split: option.splits if_splits)
    from "1.IH" [OF r(1) True r(2,3,4)] typed_grow [OF r(3) "1.prems"(2)] r(2) show ?thesis by auto
  next
    case False
    with "1.prems" show ?thesis
      by (subst (asm) CheckDataBuffer.simps) (auto simp: c_int_eq_Some split: option.splits if_splits)
  qed
qed

lemma typed_copy_in [typed]:
  assumes "copy_in bs p = Some q" "packet_typed p"
  shows "packet_typed q"
proof -
  from assms(1) obtain blk where b: "poke (m_nDataPointer p) (map Some bs) (data_cells p) = Some blk"
    "q = p\<lparr>m_strData := Some blk, m_nDataPointer := m_nDataPointer p + int (length bs)\<rparr>"
    by (auto simp: copy_in_def bind_eq_Some_conv c_int_eq_Some)
  from b(1) have "m_nDataPointer p + int (length bs) \<le> int (length (data_cells p))"
    by (auto simp: poke_def split: if_splits)
  with b length_poke [OF b(1)] assms(2) show ?thesis by (auto simp: packet_typed_def data_cells_def)
qed

lemma typed_put:
  "CheckDataBuffer n p = Some q \<Longrightarrow> copy_in bs q = Some r \<Longrightarrow> packet_typed p \<Longrightarrow> packet_typed r"
  by (blast intro: typed_copy_in typed_CheckDataBuffer)

lemma typed_Write [typed]:
  "WriteTinyInt v p = Some (ok, q) \<Longrightarrow> packet_typed p \<Longrightarrow> packet_typed q"
  "WriteShortInt v p = Some (ok, q) \<Longrightarrow> packet_typed p \<Longrightarrow> packet_typed q"
  "WriteInt v p = Some (ok, q) \<Longrightarrow> packet_typed p \<Longrightarrow> packet_typed q"
  "WriteBigInt v p = Some (ok, q) \<Longrightarrow> packet_typed p \<Longrightarrow> packet_typed q"
  "WriteChar bs n p = Some (ok, q) \<Longrightarrow> packet_typed p \<Longrightarrow> packet_typed q"
  by (auto simp: WriteTinyInt_def WriteShortInt_def WriteInt_def WriteBigInt_def WriteChar_def Let_def
      bind_eq_Some_conv dest: typed_put typed_copy_in)

lemma typed_WriteString [typed]:
  "WriteString s p = Some (ok, q) \<Longrightarrow> packet_typed p \<Longrightarrow> packet_typed q"
  "WriteShortString s p = Some (ok, q) \<Longrightarrow> packet_typed p \<Longrightarrow> packet_typed q"
  by (auto simp: WriteString_def WriteShortString_def Let_def bind_eq_Some_conv split: if_splits
      dest!: typed_Write dest: typed_put)

section \<open>Receiving\<close>

lemma typed_set_received:
  "length got \<le> nat len \<Longrightarrow> 0 \<le> len \<Longrightarrow> int_range len \<Longrightarrow> packet_typed (set_received len got p)"
  by (auto simp: packet_typed_def set_received_def data_cells_def)

lemma typed_receive_body:
  assumes "receive_body e who h p w = Some (ok, q, w1)" "packet_typed p"
  shows "packet_typed q"
proof (cases "frame_len h - 10 < 0")
  case True
  with assms show ?thesis
    by (auto simp: receive_body_def frame_len_def Let_def bind_eq_Some_conv c_int_eq_Some packet_typed_def
        data_cells_def)
next
  case False
  obtain got st w2 where r:
    "read_all (sys_read e (m_nClientSockfd p)) (nat (frame_len h - 10)) w = (got, st, w2)"
    by (metis prod_cases3)
  with assms(1) False obtain p' where "q = set_received (frame_len h - 10) got p'" "int_range (frame_len h - 10)"
    by (auto simp: receive_body_def frame_len_def Let_def bind_eq_Some_conv c_int_eq_Some split: option.splits)
  moreover have "length got \<le> nat (frame_len h - 10)" using sock_src.read_all_sound [OF r] by blast
  ultimately show ?thesis using False by (auto intro: typed_set_received)
qed

lemma typed_rewind: "packet_typed p \<Longrightarrow> packet_typed (p\<lparr>m_nDataPointer := 0\<rparr>)"
  by (auto simp: packet_typed_def data_cells_def)

lemma typed_ReceivePacket [typed]:
  "ReceivePacket e p w = Some (ok, q, w1) \<Longrightarrow> packet_typed p \<Longrightarrow> packet_typed q"
  by (auto simp: ReceivePacket_def Let_def bind_eq_Some_conv split: if_splits prod.splits
      intro: typed_receive_body typed_rewind)

lemma typed_ReceivePacket_Select [typed]:
  "ReceivePacket_Select e p w = Some (ok, q, w1) \<Longrightarrow> packet_typed p \<Longrightarrow> packet_typed q"
  by (auto simp: ReceivePacket_Select_def Let_def bind_eq_Some_conv split: if_splits prod.splits
      intro: typed_receive_body typed_rewind)

section \<open>All operations\<close>

text \<open>The public operations of the class, with their arguments.\<close>

datatype packet_op =
    Op_init1 int | Op_init2 int int | Op_init3 int int int | Op_init4 int int int int
  | Op_read kind | Op_ReadChar int | Op_write field | Op_WriteChar "byte list" int
  | Op_ReceivePacket | Op_ReceivePacket_Select | Op_SendPacket

fun packet_step :: "env \<Rightarrow> packet_op \<Rightarrow> cpacket \<times> world \<Rightarrow> (cpacket \<times> world) option" where
  "packet_step e (Op_init1 fd) (p, w) = Some (InitPacket1 fd p, w)"
| "packet_step e (Op_init2 fd lf) (p, w) = Some (InitPacket2 fd lf p, w)"
| "packet_step e (Op_init3 cat cmd fd) (p, w) = Some (InitPacket3 cat cmd fd p, w)"
| "packet_step e (Op_init4 cat cmd fd lf) (p, w) = Some (InitPacket4 cat cmd fd lf p, w)"
| "packet_step e (Op_read k) (p, w) = map_option (\<lambda>(ok, v, p, w). (p, w)) (read_field k e p w)"
| "packet_step e (Op_ReadChar n) (p, w) = map_option (\<lambda>(ok, v, p, w). (p, w)) (ReadChar e n p w)"
| "packet_step e (Op_write f) (p, w) = map_option (\<lambda>(ok, p). (p, w)) (write_field f p)"
| "packet_step e (Op_WriteChar bs n) (p, w) = map_option (\<lambda>(ok, p). (p, w)) (WriteChar bs n p)"
| "packet_step e Op_ReceivePacket (p, w) = map_option (\<lambda>(ok, p, w). (p, w)) (ReceivePacket e p w)"
| "packet_step e Op_ReceivePacket_Select (p, w) =
     map_option (\<lambda>(ok, p, w). (p, w)) (ReceivePacket_Select e p w)"
| "packet_step e Op_SendPacket (p, w) = map_option (\<lambda>(ok, w). (p, w)) (SendPacket e p w)"

fun packet_steps :: "env \<Rightarrow> packet_op list \<Rightarrow> cpacket \<times> world \<Rightarrow> (cpacket \<times> world) option" where
  "packet_steps e [] s = Some s"
| "packet_steps e (op # ops) s = Option.bind (packet_step e op s) (packet_steps e ops)"

lemma typed_read_field [typed]:
  "read_field k e p w = Some (ok, v, q, w1) \<Longrightarrow> packet_typed p \<Longrightarrow> packet_typed q"
  by (cases k) (auto simp: tag_def dest: typed)

lemma typed_write_field [typed]:
  "write_field f p = Some (ok, q) \<Longrightarrow> packet_typed p \<Longrightarrow> packet_typed q"
  by (cases f) (auto dest: typed)

lemma typed_step: "packet_step e op (p, w) = Some (q, w1) \<Longrightarrow> packet_typed p \<Longrightarrow> packet_typed q"
  by (cases op) (auto intro: typed_init dest: typed)

lemma typed_steps:
  "packet_steps e ops s = Some t \<Longrightarrow> packet_typed (fst s) \<Longrightarrow> packet_typed (fst t)"
proof (induction ops arbitrary: s)
  case (Cons op ops)
  then obtain u where "packet_step e op s = Some u" "packet_steps e ops u = Some t"
    by (auto simp: bind_eq_Some_conv)
  with Cons.IH [of u] Cons.prems(2) show ?case by (cases s; cases u) (auto dest: typed_step)
qed simp

text \<open>With every byte of the buffer set, the object is one the \<open>Read\<close> operations are total on.\<close>

lemma typed_rd_ok: "packet_typed p \<Longrightarrow> 0 \<le> m_nDataLength p \<Longrightarrow> None \<notin> set (data_cells p) \<Longrightarrow> rd_ok p"
  by (auto simp: packet_typed_def rd_ok_def INT_MAX_def)



end
