(* ===== verification/UrlUtil.thy ===== *)
theory UrlUtil
  imports C_Text
begin

text \<open>
  The URL functions of the library (test/INNOLIB/src/urlutil.cpp). A pointer is the block it points to;
  every function returns the blocks it has written and \<open>None\<close> where the code reads or writes outside
  of one, copies between overlapping ranges with \<open>memcpy\<close> or overflows an \<open>int\<close>. The blocks of the
  encoder and of the lines are bytes, those of \<open>UrlGetHostPort\<close> characters.
\<close>

section \<open>Lines\<close>

text \<open>
  The loop of \<open>UrlGetToken\<close>: the bytes stored and whether a line end was among them. \<open>lim\<close> is
  \<open>nTok - 1\<close>, \<open>num\<close> the number of bytes stored so far.
\<close>

fun tok_scan :: "int \<Rightarrow> nat \<Rightarrow> byte list \<Rightarrow> nat \<Rightarrow> (byte list \<times> bool) option" where
  "tok_scan lim 0 dat num = Some ([], False)"
| "tok_scan lim (Suc n) dat num =
     (if lim \<le> int num then Some ([], False)
      else case dat of
             [] \<Rightarrow> None
           | c # rest \<Rightarrow>
               if c = 10 then Some ([c], True)
               else map_option (\<lambda>(t, okay). (c # t, okay)) (tok_scan lim n rest (Suc num)))"

text \<open>\<open>memcpy(dst, dst + off, n)\<close> inside one block; ranges that overlap are undefined.\<close>

definition memcpy_down :: "int \<Rightarrow> int \<Rightarrow> 'a list \<Rightarrow> 'a list option" where
  "memcpy_down off n blk =
     (if n = 0 then Some blk
      else if off < n then None
      else Option.bind (peek off n blk) (\<lambda>xs. poke 0 xs blk))"

record token =
  tok_num :: int
  tok_nLen :: int
  tok_pData :: "byte list"
  tok_pTok :: "byte list"
  tok_bHead :: int

definition UrlGetToken :: "byte list \<Rightarrow> int \<Rightarrow> byte list \<Rightarrow> int \<Rightarrow> int \<Rightarrow> token option" where
  "UrlGetToken pData nLen pTok nTok bHead =
     (if nLen = 0
      then Some \<lparr>tok_num = 0, tok_nLen = 0, tok_pData = pData, tok_pTok = pTok, tok_bHead = bHead\<rparr>
      else do {
        lim \<leftarrow> c_int (nTok - 1);
        (t, okay) \<leftarrow> tok_scan lim (nat nLen) pData 0;
        let num = int (length t);
        let bHead = (if okay \<and> num \<le> 2 then 0 else bHead);
        pTok \<leftarrow> poke 0 (t @ [0]) pTok;
        if okay \<or> num + 1 \<ge> nTok
        then do {
          nLen \<leftarrow> c_int (nLen - num);
          pData \<leftarrow> memcpy_down num nLen pData;
          pData \<leftarrow> poke nLen [0] pData;
          Some \<lparr>tok_num = num, tok_nLen = nLen, tok_pData = pData, tok_pTok = pTok, tok_bHead = bHead\<rparr> }
        else do {
          pTok \<leftarrow> poke 0 [0] pTok;
          Some \<lparr>tok_num = 0, tok_nLen = nLen, tok_pData = pData, tok_pTok = pTok, tok_bHead = bHead\<rparr> } })"

section \<open>Host, port and path\<close>

text \<open>\<open>strstr\<close>: where the first occurrence starts.\<close>

fun strstr :: "string \<Rightarrow> string \<Rightarrow> nat option" where
  "strstr [] pat = (if pat = [] then Some 0 else None)"
| "strstr (c # s) pat =
     (if take (length pat) (c # s) = pat then Some 0 else map_option Suc (strstr s pat))"

definition URL_BUF :: nat where "URL_BUF = 512"

text \<open>\<open>atoi\<close>: 0 without a number, undefined when the number does not fit.\<close>

definition atoi :: "string \<Rightarrow> int option" where
  "atoi s = (case scan_num s of None \<Rightarrow> Some 0 | Some n \<Rightarrow> c_int n)"

text \<open>
  The loop from \<open>pidx\<close> on; it looks for a slash only, so that it runs on behind the end of the
  string. \<open>flag\<close>: a colon has been passed; \<open>hostmax\<close>: the size of the array \<open>pHost\<close>.
\<close>

fun host_port :: "nat \<Rightarrow> bool \<Rightarrow> string \<Rightarrow> string \<Rightarrow> char list \<Rightarrow> (string \<times> string \<times> char list) option" where
  "host_port hostmax flag host buf [] = None"
| "host_port hostmax flag host buf (c # t) =
     (if c = CHR ''/'' then Some (host, buf, c # t)
      else if c = CHR '':'' then host_port hostmax True host buf t
      else case c_str (c # t) of
             None \<Rightarrow> None
           | Some [] \<Rightarrow> host_port hostmax flag host buf t
           | Some _ \<Rightarrow>
               if flag
               then if length buf < URL_BUF then host_port hostmax flag host (buf @ [c]) t else None
               else if length host < hostmax then host_port hostmax flag (host @ [c]) buf t else None)"

text \<open>\<open>Some None\<close>: there is no \<open>://\<close> and no argument is written; else host, port and path.\<close>

definition UrlGetHostPort ::
  "char list \<Rightarrow> nat \<Rightarrow> nat \<Rightarrow> (string \<times> int \<times> string) option option" where
  "UrlGetHostPort pUrl hostmax urimax = do {
     url \<leftarrow> c_str pUrl;
     case strstr url ''://'' of
       None \<Rightarrow> Some None
     | Some k \<Rightarrow> do {
         (host, buf, rest) \<leftarrow> host_port hostmax False [] [] (drop (k + 3) pUrl);
         if length buf < URL_BUF \<and> length host < hostmax
         then do {
           n \<leftarrow> atoi buf;
           uri \<leftarrow> c_str rest;
           if length uri < urimax then Some (Some (host, if n \<le> 0 then 80 else n, uri)) else None }
         else None } }"

section \<open>Encoding\<close>

text \<open>The bytes that stay as they are: digits, letters and everything from the dot to the at sign.\<close>

definition url_plain :: "byte \<Rightarrow> bool" where
  "url_plain c \<longleftrightarrow> 48 \<le> c \<and> c \<le> 57 \<or> 65 \<le> c \<and> c \<le> 90 \<or> 97 \<le> c \<and> c \<le> 122 \<or> 46 \<le> c \<and> c \<le> 64"

text \<open>\<open>%02x\<close> of an \<open>unsigned char\<close>.\<close>

definition hex_digit :: "nat \<Rightarrow> byte" where
  "hex_digit n = word_of_nat (if n < 10 then 48 + n else 87 + n)"

definition fmt_02x :: "byte \<Rightarrow> byte list" where
  "fmt_02x c = [hex_digit (unat c div 16), hex_digit (unat c mod 16)]"

definition encode_byte :: "byte \<Rightarrow> byte list" where
  "encode_byte c =
     (if c = 32 then [43] else if url_plain c then [c] else 37 # fmt_02x c)"

fun encode_loop :: "int \<Rightarrow> nat \<Rightarrow> byte list \<Rightarrow> nat \<Rightarrow> byte list \<Rightarrow> (nat \<times> byte list) option" where
  "encode_loop lim 0 msg j enc = Some (j, enc)"
| "encode_loop lim (Suc n) msg j enc =
     (if lim \<le> int j then Some (j, enc)
      else case msg of
             [] \<Rightarrow> None
           | c # rest \<Rightarrow>
               (case poke (int j) (encode_byte c) enc of
                  None \<Rightarrow> None
                | Some enc \<Rightarrow> encode_loop lim n rest (j + length (encode_byte c)) enc))"

definition UrlEncode :: "byte list \<Rightarrow> int \<Rightarrow> byte list \<Rightarrow> int \<Rightarrow> byte list option" where
  "UrlEncode msg msgsize encstr encsize = do {
     lim \<leftarrow> c_int (encsize - 5);
     (j, encstr) \<leftarrow> encode_loop lim (nat msgsize) msg 0 encstr;
     poke (int j) [0] encstr }"

section \<open>Decoding\<close>

text \<open>The arithmetic is that of \<open>int\<close>, the result is stored in a \<open>char\<close>.\<close>

definition x2c_digit :: "byte \<Rightarrow> int" where
  "x2c_digit h = (if 65 \<le> sint h then (and (sint h) 0xdf - 65) + 10 else sint h - 48)"

definition x2c :: "byte \<Rightarrow> byte \<Rightarrow> byte" where
  "x2c hex_up hex_low =
     (let dig = word_of_int (16 * x2c_digit hex_up) :: byte
      in word_of_int (sint dig + x2c_digit hex_low))"

text \<open>The string is decoded in place: \<open>i\<close> is where the next byte goes, \<open>j\<close> where it comes from.\<close>

function decode_loop :: "int \<Rightarrow> nat \<Rightarrow> nat \<Rightarrow> byte list \<Rightarrow> byte list option" where
  "decode_loop sz i j str =
     (if int j < sz
      then if length str \<le> j then None
           else if str ! j = 43 then decode_loop sz (i + 1) (j + 1) (str[i := 32])
           else if str ! j = 37
           then if length str \<le> j + 2 then None
                else decode_loop sz (i + 1) (j + 3) (str[i := x2c (str ! (j + 1)) (str ! (j + 2))])
           else decode_loop sz (i + 1) (j + 1) (str[i := str ! j])
      else poke (int i) [0] str)"
  by pat_completeness auto
termination
  by (relation "measure (\<lambda>(sz, i, j, str). nat (sz - int j))") auto

declare decode_loop.simps [simp del]

definition UrlDecode :: "byte list \<Rightarrow> int \<Rightarrow> byte list option" where
  "UrlDecode str sz = decode_loop sz 0 0 str"

end
