(* ===== verification/UrlSpec.thy ===== *)
theory UrlSpec
  imports UrlUtil
begin

text \<open>
  What the URL functions promise: decoding undoes encoding, also of a message that was cut off for
  want of room; host, port and path of a URL are found again; and where the functions leave their
  blocks.
\<close>

section \<open>Encoding and decoding\<close>

definition url_enc :: "byte list \<Rightarrow> byte list" where
  "url_enc msg = concat (map encode_byte msg)"

text \<open>What decoding means, for a text in which every percent sign has two bytes after it.\<close>

fun url_dec :: "byte list \<Rightarrow> byte list option" where
  "url_dec [] = Some []"
| "url_dec (c # t) =
     (if c = 43 then map_option (Cons 32) (url_dec t)
      else if c = 37 then (case t of a # b # u \<Rightarrow> map_option (Cons (x2c a b)) (url_dec u) | _ \<Rightarrow> None)
      else map_option (Cons c) (url_dec t))"

lemma x2c_word: "x2c a b = word_of_int (16 * x2c_digit a + x2c_digit b)"
  by (simp add: x2c_def Let_def)

lemma x2c_hex_digit: "n < 16 \<Longrightarrow> x2c_digit (hex_digit n) = int n"
proof -
  assume "n < 16"
  then have "n \<in> {0, 1, 2, 3, 4, 5, 6, 7, 8, 9, 10, 11, 12, 13, 14, 15}"
    by (simp only: insert_iff empty_iff) presburger
  then show ?thesis by (auto simp: x2c_digit_def hex_digit_def)
qed

lemma x2c_fmt: "x2c (hex_digit (unat c div 16)) (hex_digit (unat c mod 16)) = (c :: byte)"
proof -
  have "unat c < 256" using unsigned_less [of c] by simp
  then have hi: "unat c div 16 < 16" by auto
  have "16 * int (unat c div 16) + int (unat c mod 16) = int (16 * (unat c div 16) + unat c mod 16)"
    by (simp only: of_nat_add of_nat_mult of_nat_numeral)
  then have "16 * int (unat c div 16) + int (unat c mod 16) = int (unat c)"
    by (simp only: mult_div_mod_eq)
  then have "x2c (hex_digit (unat c div 16)) (hex_digit (unat c mod 16)) = word_of_int (int (unat c))"
    using hi by (simp only: x2c_word x2c_hex_digit mod_less_divisor zero_less_numeral)
  then show ?thesis by simp
qed

lemma plain_not_special: "url_plain c \<Longrightarrow> c \<noteq> 43 \<and> c \<noteq> 37"
  by (auto simp: url_plain_def)

lemma url_dec_encode: "url_dec (encode_byte c @ t) = map_option (Cons c) (url_dec t)"
  using plain_not_special [of c] by (auto simp: encode_byte_def fmt_02x_def x2c_fmt)

lemma url_dec_enc: "url_dec (url_enc msg) = Some msg"
  by (induction msg) (simp_all add: url_enc_def url_dec_encode)

lemma length_encode_byte: "1 \<le> length (encode_byte c)" "length (encode_byte c) \<le> 3"
  by (simp_all add: encode_byte_def fmt_02x_def)

lemma url_enc_simps [simp]: "url_enc [] = []" "url_enc (c # msg) = encode_byte c @ url_enc msg"
  by (simp_all add: url_enc_def)

text \<open>
  The loop stores the encoding of as much of the message as it gets to; it stops between two
  characters, at the end or at the limit, at most two bytes past it.
\<close>

definition stored :: "int \<Rightarrow> nat \<Rightarrow> byte list \<Rightarrow> nat \<Rightarrow> byte list \<Rightarrow> nat \<Rightarrow> byte list \<Rightarrow> bool" where
  "stored lim n msg j enc k enc' \<longleftrightarrow>
     k \<le> n \<and> length enc' = length enc \<and>
     take (j + length (url_enc (take k msg))) enc' = take j enc @ url_enc (take k msg) \<and>
     drop (j + length (url_enc (take k msg))) enc' = drop (j + length (url_enc (take k msg))) enc \<and>
     (k = n \<or> lim \<le> int (j + length (url_enc (take k msg)))) \<and>
     int (j + length (url_enc (take k msg))) \<le> max (int j) (lim + 2)"

lemma encode_loop_spec:
  "n \<le> length msg \<Longrightarrow> lim + 2 \<le> int (length enc) \<Longrightarrow> j \<le> length enc \<Longrightarrow>
   \<exists>k enc'. encode_loop lim n msg j enc = Some (j + length (url_enc (take k msg)), enc') \<and>
     stored lim n msg j enc k enc'"
proof (induction lim n msg j enc rule: encode_loop.induct)
  case (1 lim msg j enc)
  then show ?case by (intro exI [of _ 0] exI [of _ enc]) (simp add: stored_def)
next
  case (2 lim n msg j enc)
  show ?case
  proof (cases "lim \<le> int j")
    case True
    then show ?thesis by (intro exI [of _ 0] exI [of _ enc]) (simp add: stored_def)
  next
    case False
    from "2.prems"(1) obtain c rest where m: "msg = c # rest" "n \<le> length rest" by (cases msg) auto
    let ?b = "encode_byte c"
    have fit: "int j + int (length ?b) \<le> int (length enc)" "int (j + length ?b) \<le> lim + 2"
      using False "2.prems"(2) length_encode_byte [of c] by auto
    then obtain e where e: "poke (int j) ?b enc = Some e"
      using poke_SomeI [of "int j" ?b enc] by auto
    have e': "length e = length enc" "take (j + length ?b) e = take j enc @ ?b"
      "drop (j + length ?b) e = drop (j + length ?b) enc"
      using length_poke [OF e] take_poke [OF e] e by (auto simp: poke_def split: if_splits)
    have "lim + 2 \<le> int (length e)" "j + length ?b \<le> length e"
      using "2.prems"(2) e'(1) fit(1) by auto
    from "2.IH" [OF False m(1) e m(2) this] obtain k enc' where
      k: "encode_loop lim n rest (j + length ?b) e =
        Some (j + length ?b + length (url_enc (take k rest)), enc')" "stored lim n rest (j + length ?b) e k enc'"
      by blast
    have "encode_loop lim (Suc n) msg j enc = Some (j + length (url_enc (take (Suc k) msg)), enc')"
      using False m e k(1) by (simp add: add.assoc)
    moreover have "stored lim (Suc n) msg j enc (Suc k) enc'"
    proof -
      let ?u = "url_enc (take k rest)"
      have "drop (j + length ?b + length ?u) e = drop (j + length ?b + length ?u) enc"
        using e'(3) by (metis drop_drop add.commute)
      with k(2) e' fit(2) m(1) show ?thesis by (simp add: stored_def add.assoc)
    qed
    ultimately show ?thesis by blast
  qed
qed

text \<open>In place: what is decoded goes to where reading has been.\<close>

lemma take_drop_Suc: "j < n \<Longrightarrow> n \<le> length xs \<Longrightarrow> take (n - j) (drop j xs) = xs ! j # take (n - Suc j) (drop (Suc j) xs)"
  by (simp add: Cons_nth_drop_Suc [symmetric] Suc_diff_Suc take_Cons')

definition decoded :: "nat \<Rightarrow> nat \<Rightarrow> byte list \<Rightarrow> byte list \<Rightarrow> byte list \<Rightarrow> bool" where
  "decoded i k out str str' \<longleftrightarrow> length str' = length str \<and> drop k str' = drop k str \<and>
     take (i + length out) str' = take i str @ out \<and> i + length out \<le> k"

lemma decode_loop_run:
  "i \<le> j \<Longrightarrow> j \<le> k \<Longrightarrow> int k \<le> sz \<Longrightarrow> k < length str \<Longrightarrow> url_dec (take (k - j) (drop j str)) = Some out \<Longrightarrow>
   \<exists>str'. decode_loop sz i j str = decode_loop sz (i + length out) k str' \<and> decoded i k out str str'"
proof (induction sz i j str arbitrary: out rule: decode_loop.induct)
  case (1 sz i j str)
  show ?case
  proof (cases "j = k")
    case True
    with "1.prems" show ?thesis by (intro exI [of _ str]) (auto simp: decoded_def)
  next
    case False
    then have j: "j < k" "int j < sz" "\<not> length str \<le> j" using "1.prems"(2,3,4) by auto
    let ?rest = "take (k - Suc j) (drop (Suc j) str)"
    have cur: "url_dec (str ! j # ?rest) = Some out"
      using take_drop_Suc [of j k str] j(1) "1.prems"(4,5) by simp
    have keep: "take (k - l) (drop l (str[i := x])) = take (k - l) (drop l str)" if "j < l" for l x
      using "1.prems"(1) that by simp
    have go: "decoded i k (x # o') str s'" if "decoded (i + 1) k o' (str[i := x]) s'" for x o' s'
    proof -
      have "take (Suc i) (str[i := x]) = take i str @ [x]" "drop k (str[i := x]) = drop k str"
        using "1.prems"(1) j by (auto simp: take_Suc_conv_app_nth)
      with that show ?thesis by (simp add: decoded_def)
    qed
    have lt: "k < length (str[i := x])" for x using "1.prems"(4) by simp
    have next1: "i + 1 \<le> j + 1" "j + 1 \<le> k" using "1.prems"(1) j(1) by auto
    have dec1: "url_dec (take (k - (j + 1)) (drop (j + 1) (str[i := x]))) = Some o'"
      if "url_dec ?rest = Some o'" for x o'
      using keep [of "j + 1" x] that by simp
    consider "str ! j = 43" | "str ! j = 37" | "str ! j \<noteq> 43" "str ! j \<noteq> 37" by blast
    then show ?thesis
    proof cases
      case 1
      with cur obtain o' where o: "out = 32 # o'" "url_dec ?rest = Some o'" by auto
      from "1.IH"(1) [OF j(2,3) 1 next1 "1.prems"(3) lt dec1 [OF o(2)]] obtain s' where
        "decode_loop sz (i + 1) (j + 1) (str[i := 32]) = decode_loop sz (i + 1 + length o') k s'"
        "decoded (i + 1) k o' (str[i := 32]) s'" by blast
      with go o(1) j 1 show ?thesis by (auto simp: decode_loop.simps [of sz i j])
    next
      case 2
      with cur obtain a b u o' where u: "?rest = a # b # u" "out = x2c a b # o'" "url_dec u = Some o'"
        by (auto split: list.splits)
      have l: "j + 2 < k" using arg_cong [OF u(1), of length] j "1.prems"(4) by auto
      then have "?rest = str ! (j + 1) # str ! (j + 2) # take (k - (j + 3)) (drop (j + 3) str)"
        using take_drop_Suc [of "Suc j" k str] take_drop_Suc [of "Suc (Suc j)" k str] "1.prems"(4)
        by (simp add: numeral_3_eq_3 eval_nat_numeral)
      with u have ab: "str ! (j + 1) = a" "str ! (j + 2) = b"
        "url_dec (take (k - (j + 3)) (drop (j + 3) str)) = Some o'" by auto
      have n: "str ! j \<noteq> 43" "\<not> length str \<le> j + 2" "i + 1 \<le> j + 3" "j + 3 \<le> k"
        using 2 l "1.prems"(1,4) by auto
      from "1.IH"(2) [OF j(2,3) n(1) 2 n(2) n(3,4) "1.prems"(3) lt] keep [of "j + 3"] ab obtain s' where
        "decode_loop sz (i + 1) (j + 3) (str[i := x2c a b]) = decode_loop sz (i + 1 + length o') k s'"
        "decoded (i + 1) k o' (str[i := x2c a b]) s'" by auto
      with go u(2) j 2 n ab show ?thesis by (auto simp: decode_loop.simps [of sz i j])
    next
      case 3
      with cur obtain o' where o: "out = str ! j # o'" "url_dec ?rest = Some o'" by auto
      from "1.IH"(3) [OF j(2,3) 3 next1 "1.prems"(3) lt dec1 [OF o(2)]] obtain s' where
        "decode_loop sz (i + 1) (j + 1) (str[i := str ! j]) = decode_loop sz (i + 1 + length o') k s'"
        "decoded (i + 1) k o' (str[i := str ! j]) s'" by blast
      with go [of o' "str ! j" s'] o(1) j 3 show ?thesis by (auto simp: decode_loop.simps [of sz i j])
    qed
  qed
qed

lemma UrlDecode_run:
  assumes "url_dec s = Some out" "rest \<noteq> []" "int (length s) \<le> sz"
  shows "\<exists>str'. UrlDecode (s @ rest) sz = decode_loop sz (length out) (length s) str' \<and>
    decoded 0 (length s) out (s @ rest) str'"
  using decode_loop_run [of 0 0 "length s" sz "s @ rest" out] assms by (simp add: UrlDecode_def)

text \<open>A text whose escapes are complete, with a byte behind it for the NUL.\<close>

lemma UrlDecode_spec:
  assumes "url_dec s = Some out" "rest \<noteq> []"
  shows "\<exists>r. UrlDecode (s @ rest) (int (length s)) = Some r \<and> take (length out + 1) r = out @ [0]"
proof -
  from UrlDecode_run [OF assms, of "int (length s)"] obtain str' where
    d: "UrlDecode (s @ rest) (int (length s)) = decode_loop (int (length s)) (length out) (length s) str'"
       "decoded 0 (length s) out (s @ rest) str'" by auto
  then have "int (length out) + int (length [0 :: byte]) \<le> int (length str')"
    using assms(2) by (cases rest) (auto simp: decoded_def)
  then obtain r where r: "poke (int (length out)) [0] str' = Some r"
    using poke_SomeI [of "int (length out)" "[0]" str'] by auto
  with take_poke [OF r] d show ?thesis
    by (auto simp: decoded_def decode_loop.simps [of _ "length out" "length s"])
qed

text \<open>C26: \<open>UrlEncode\<close> never writes outside \<open>encsize\<close> bytes: it encodes the longest beginning of the message for
  which it still finds room, all of it unless fewer than six bytes are left, ends it with a NUL and
  leaves the bytes behind it alone; and \<open>UrlDecode\<close>, in place, turns the result back into exactly that
  beginning of the message, whatever bytes it consists of.\<close>

theorem url_roundtrip:
  assumes "msgsize \<le> int (length msg)" "1 \<le> encsize" "encsize \<le> int (length enc)" "encsize \<le> INT_MAX"
  shows "\<exists>k out. UrlEncode msg msgsize enc encsize = Some out \<and> k \<le> nat msgsize \<and>
    length out = length enc \<and>
    int (length (url_enc (take k msg))) + 1 \<le> encsize \<and>
    take (length (url_enc (take k msg)) + 1) out = url_enc (take k msg) @ [0] \<and>
    drop (length (url_enc (take k msg)) + 1) out = drop (length (url_enc (take k msg)) + 1) enc \<and>
    (k = nat msgsize \<or> encsize \<le> int (length (url_enc (take k msg))) + 5) \<and>
    (\<exists>r. UrlDecode out (int (length (url_enc (take k msg)))) = Some r \<and> take (k + 1) r = take k msg @ [0])"
proof -
  let ?lim = "encsize - 5"
  have lim: "c_int ?lim = Some ?lim" using assms(2,4) by (simp add: c_int_def INT_MAX_def)
  have "nat msgsize \<le> length msg" "?lim + 2 \<le> int (length enc)" using assms(1,3) by auto
  from encode_loop_spec [OF this, of 0] obtain k e where
    k: "encode_loop ?lim (nat msgsize) msg 0 enc = Some (length (url_enc (take k msg)), e)"
      "stored ?lim (nat msgsize) msg 0 enc k e" by auto
  let ?u = "url_enc (take k msg)"
  have fit: "int (length ?u) + 1 \<le> encsize" using k(2) assms(2) by (auto simp: stored_def)
  with assms(3) k(2) obtain out where out: "poke (int (length ?u)) [0] e = Some out"
    using poke_SomeI [of "int (length ?u)" "[0]" e] by (auto simp: stored_def)
  have o: "length out = length enc" "take (length ?u + 1) out = ?u @ [0]"
    using length_poke [OF out] take_poke [OF out] k(2) by (simp_all add: stored_def)
  have d: "drop (length ?u + 1) out = drop (length ?u + 1) enc"
  proof -
    have "drop (length ?u + 1) out = drop 1 (drop (length ?u) e)"
      using out by (auto simp: poke_def split: if_splits)
    also have "drop (length ?u) e = drop (length ?u) enc" using k(2) by (simp add: stored_def)
    finally show ?thesis by simp
  qed
  have split: "out = ?u @ 0 # drop (length ?u + 1) out"
  proof -
    have "out = take (length ?u + 1) out @ drop (length ?u + 1) out" by (rule append_take_drop_id [symmetric])
    then show ?thesis unfolding o(2) by (simp only: append.assoc append.simps)
  qed
  from UrlDecode_spec [OF url_dec_enc, of "0 # drop (length ?u + 1) out" "take k msg"] obtain r where
    r: "UrlDecode out (int (length ?u)) = Some r" "take (length (take k msg) + 1) r = take k msg @ [0]"
    unfolding split [symmetric] by auto
  have "k \<le> nat msgsize" using k(2) by (simp add: stored_def)
  with assms(1) have "length (take k msg) = k" by simp
  with r have "\<exists>r. UrlDecode out (int (length ?u)) = Some r \<and> take (k + 1) r = take k msg @ [0]" by auto
  moreover have "UrlEncode msg msgsize enc encsize = Some out"
    using lim k(1) out by (simp add: UrlEncode_def)
  moreover have "k = nat msgsize \<or> encsize \<le> int (length ?u) + 5" using k(2) by (auto simp: stored_def)
  ultimately show ?thesis using o d fit \<open>k \<le> nat msgsize\<close> by blast
qed

theorem url_roundtrip_witness:
  "UrlEncode [97, 32, 38, 0, 255] 5 (replicate 20 7) 20 =
     Some ([97, 43, 37, 50, 54, 37, 48, 48, 37, 102, 102, 0] @ replicate 8 7) \<and>
   (\<exists>out r. UrlEncode [97, 32, 38, 0, 255] 5 (replicate 20 7) 20 = Some out \<and>
     UrlDecode out 11 = Some r \<and> take 6 r = [97, 32, 38, 0, 255, 0])"
proof -
  let ?m = "[97, 32, 38, 0, 255] :: byte list"
  have e: "UrlEncode ?m 5 (replicate 20 7) 20 =
     Some ([97, 43, 37, 50, 54, 37, 48, 48, 37, 102, 102, 0] @ replicate 8 7)"
    by code_simp
  from url_roundtrip [of 5 ?m 20 "replicate 20 7"] obtain k out r where
    k: "UrlEncode ?m 5 (replicate 20 7) 20 = Some out" "k \<le> 5"
      "k = 5 \<or> 20 \<le> int (length (url_enc (take k ?m))) + 5"
      "UrlDecode out (int (length (url_enc (take k ?m)))) = Some r" "take (k + 1) r = take k ?m @ [0]"
    by (auto simp: INT_MAX_def)
  have len: "length (url_enc ?m) = 11" by code_simp
  have "length (url_enc (take k ?m)) \<le> length (url_enc (take k ?m @ drop k ?m))"
    by (simp only: url_enc_def map_append concat_append length_append)
  then have "length (url_enc (take k ?m)) \<le> 11" by (simp only: append_take_drop_id len)
  with k(3) have k5: "k = 5" by auto
  have "take 6 r = [97, 32, 38, 0, 255, 0]" using k(5) by (simp add: k5)
  moreover have "int (length (url_enc (take k ?m))) = 11" unfolding k5 using len by simp
  then have "UrlDecode out 11 = Some r" using k(4) by simp
  ultimately show ?thesis using e k(1) by blast
qed

text \<open>A percent sign at the very end makes \<open>UrlDecode\<close> read the byte behind the NUL of its string.\<close>

theorem UrlDecode_overreads:
  assumes "url_dec s = Some out"
  shows "UrlDecode (s @ [37, 0]) (int (length s) + 1) = None"
proof -
  have "int (length s) \<le> int (length s) + 1" by simp
  from UrlDecode_run [OF assms _ this, of "[37, 0]"] obtain str' where
    d: "UrlDecode (s @ [37, 0]) (int (length s) + 1) =
          decode_loop (int (length s) + 1) (length out) (length s) str'"
       "decoded 0 (length s) out (s @ [37, 0]) str'" by auto
  then have "length str' = length s + 2" "drop (length s) str' = [37, 0]" by (simp_all add: decoded_def)
  moreover from this have "str' ! length s = 37" by (metis hd_drop_conv_nth le_add1 length_drop length_greater_0_conv
    list.sel(1) list.distinct(1) less_le_trans zero_less_diff)
  ultimately show ?thesis using d(1) by (simp add: decode_loop.simps [of _ "length out" "length s"])
qed

theorem UrlDecode_overreads_witness: "UrlDecode [97, 43, 37, 0] 3 = None"
proof -
  have "url_dec [97, 43] = Some [97, 32]" by code_simp
  from UrlDecode_overreads [OF this] show ?thesis by simp
qed

section \<open>Host, port and path\<close>

lemma strstr_scheme: "CHR '':'' \<notin> set scheme \<Longrightarrow> strstr (scheme @ ''://'' @ x) ''://'' = Some (length scheme)"
  by (induction scheme) auto

lemma c_str_Cons: "c \<noteq> NUL \<Longrightarrow> NUL \<in> set t \<Longrightarrow> \<exists>s. c_str (c # t) = Some (c # s)"
  by (simp add: c_str_def)

lemma host_port_host:
  "set h \<inter> {CHR ''/'', CHR '':'', NUL} = {} \<Longrightarrow> NUL \<in> set t \<Longrightarrow> length host + length h \<le> hostmax \<Longrightarrow>
   host_port hostmax False host buf (h @ t) = host_port hostmax False (host @ h) buf t"
proof (induction h arbitrary: host)
  case (Cons c h)
  obtain s where "c_str (c # h @ t) = Some (c # s)" using c_str_Cons [of c "h @ t"] Cons.prems(1,2) by auto
  with Cons show ?case by auto
qed simp

lemma host_port_port:
  "set p \<inter> {CHR ''/'', CHR '':'', NUL} = {} \<Longrightarrow> NUL \<in> set t \<Longrightarrow> length buf + length p \<le> URL_BUF \<Longrightarrow>
   host_port hostmax True host buf (p @ t) = host_port hostmax True host (buf @ p) t"
proof (induction p arbitrary: buf)
  case (Cons c p)
  obtain s where "c_str (c # p @ t) = Some (c # s)" using c_str_Cons [of c "p @ t"] Cons.prems(1,2) by auto
  with Cons show ?case by auto
qed simp

lemma host_port_no_slash: "CHR ''/'' \<notin> set blk \<Longrightarrow> host_port hostmax flag host buf blk = None"
  by (induction hostmax flag host buf blk rule: host_port.induct) (auto split: option.splits list.splits)

lemma dec_plain: "set (dec n) \<inter> {CHR ''/'', CHR '':'', NUL} = {}"
proof -
  have "isdigit c \<Longrightarrow> c \<notin> {CHR ''/'', CHR '':'', NUL}" for c by (auto simp: isdigit_def)
  then show ?thesis using dec_isdigit [of _ n] by blast
qed

lemma atoi_dec: "int n \<le> INT_MAX \<Longrightarrow> atoi (dec n) = Some (int n)"
  using scan_num_fmt_d [of "[]" "int n"] by (simp add: atoi_def fmt_d_def fmt_d0_def INT_MAX_def)

lemma atoi_Nil: "atoi [] = Some 0"
  by (simp add: atoi_def scan_num_def scan_sign_def)

lemma length_dec_port: "int n \<le> INT_MAX \<Longrightarrow> length (dec n) < URL_BUF"
  using length_dec_le [of n 10] by (simp add: INT_MAX_def URL_BUF_def)

text \<open>A URL with a scheme, a host, an optional port and a path that starts with a slash is taken apart into
  exactly these, with port 80 when it has none.\<close>

theorem url_host_port:
  assumes "CHR '':'' \<notin> set scheme" "NUL \<notin> set scheme" "set host \<inter> {CHR ''/'', CHR '':'', NUL} = {}"
    and "NUL \<notin> set path" "length host < hostmax" "length path + 1 < urimax"
    and "port = None \<or> (\<exists>n. port = Some n \<and> 0 < n \<and> int n \<le> INT_MAX)"
  shows "UrlGetHostPort
      (scheme @ ''://'' @ host @ (case port of None \<Rightarrow> [] | Some n \<Rightarrow> CHR '':'' # dec n) @ CHR ''/'' # path @ [NUL])
      hostmax urimax =
    Some (Some (host, case port of None \<Rightarrow> 80 | Some n \<Rightarrow> int n, CHR ''/'' # path))"
proof -
  let ?p = "case port of None \<Rightarrow> [] | Some n \<Rightarrow> CHR '':'' # dec n"
  let ?rest = "CHR ''/'' # path @ [NUL]"
  let ?tail = "host @ ?p @ CHR ''/'' # path" and ?buf = "case port of None \<Rightarrow> [] | Some n \<Rightarrow> dec n"
  have "NUL \<notin> set ?p" using dec_plain by (auto split: option.splits)
  then have "NUL \<notin> set (scheme @ ''://'' @ ?tail)" using assms(2,3,4) by auto
  then have url: "c_str ((scheme @ ''://'' @ ?tail) @ [NUL]) = Some (scheme @ ''://'' @ ?tail)"
    by (rule c_str_terminated)
  have at: "drop (length scheme + 3) ((scheme @ ''://'' @ ?tail) @ [NUL]) = host @ ?p @ ?rest" by simp
  have hp: "host_port hostmax False [] [] (host @ ?p @ ?rest) = Some (host, ?buf, ?rest)"
  proof -
    have "host_port hostmax False [] [] (host @ ?p @ ?rest) = host_port hostmax False host [] (?p @ ?rest)"
      using host_port_host [of host "?p @ ?rest" "[]" hostmax "[]"] assms(3,5) by simp
    also have "\<dots> = Some (host, ?buf, ?rest)"
    proof (cases port)
      case (Some n)
      with assms(7) have "length (dec n) \<le> URL_BUF" using length_dec_port [of n] by auto
      with Some host_port_port [OF dec_plain, of ?rest "[]" n hostmax host] show ?thesis by simp
    qed simp
    finally show ?thesis .
  qed
  have "length ?buf < URL_BUF" "atoi ?buf = Some (case port of None \<Rightarrow> 0 | Some n \<Rightarrow> int n)"
    using assms(7) length_dec_port atoi_dec atoi_Nil by (auto simp: URL_BUF_def split: option.splits)
  moreover have "c_str ?rest = Some (CHR ''/'' # path)" using c_str_terminated [of "CHR ''/'' # path" "[]"] assms(4) by simp
  ultimately have "UrlGetHostPort ((scheme @ ''://'' @ ?tail) @ [NUL]) hostmax urimax =
      Some (Some (host, case port of None \<Rightarrow> 80 | Some n \<Rightarrow> int n, CHR ''/'' # path))"
    unfolding UrlGetHostPort_def url bind.bind_lunit strstr_scheme [OF assms(1)] option.case at hp
    using assms(5,6,7) by (auto split: option.splits)
  then show ?thesis by simp
qed

theorem url_host_port_witness:
  "UrlGetHostPort (''http://h:81/x'' @ [NUL]) 64 256 = Some (Some (''h'', 81, ''/x'')) \<and>
   UrlGetHostPort (''http://h/'' @ [NUL]) 64 256 = Some (Some (''h'', 80, ''/''))"
proof -
  have d: "dec 81 = ''81''"
    by (simp add: dec.simps [of 81] dec.simps [of 8] digit_def char_of_def bit_0)
  have "UrlGetHostPort (''http'' @ ''://'' @ ''h'' @ (case Some 81 of None \<Rightarrow> [] | Some n \<Rightarrow> CHR '':'' # dec n) @
      CHR ''/'' # ''x'' @ [NUL]) 64 256 =
    Some (Some (''h'', case Some 81 of None \<Rightarrow> 80 | Some n \<Rightarrow> int n, CHR ''/'' # ''x''))"
    by (rule url_host_port) (simp_all add: INT_MAX_def)
  moreover have "UrlGetHostPort (''http'' @ ''://'' @ ''h'' @ (case None of None \<Rightarrow> [] | Some n \<Rightarrow> CHR '':'' # dec n) @
      CHR ''/'' # [] @ [NUL]) 64 256 = Some (Some (''h'', case None of None \<Rightarrow> 80 | Some n \<Rightarrow> int n, CHR ''/'' # []))"
    by (rule url_host_port) simp_all
  ultimately show ?thesis unfolding option.case d by simp
qed

text \<open>Without a slash behind the host the search for it leaves the string.\<close>

theorem UrlGetHostPort_no_slash:
  assumes "CHR '':'' \<notin> set scheme" "NUL \<notin> set scheme" "NUL \<notin> set host" "CHR ''/'' \<notin> set host"
  shows "UrlGetHostPort (scheme @ ''://'' @ host @ [NUL]) hostmax urimax = None"
proof -
  have "NUL \<notin> set (scheme @ ''://'' @ host)" using assms by auto
  then have url: "c_str ((scheme @ ''://'' @ host) @ [NUL]) = Some (scheme @ ''://'' @ host)"
    by (rule c_str_terminated)
  have "host_port hostmax False [] [] (host @ [NUL]) = None" using assms(4) by (intro host_port_no_slash) auto
  then have "UrlGetHostPort ((scheme @ ''://'' @ host) @ [NUL]) hostmax urimax = None"
    unfolding UrlGetHostPort_def url bind.bind_lunit strstr_scheme [OF assms(1)] by simp
  then show ?thesis by simp
qed

theorem UrlGetHostPort_no_slash_witness: "UrlGetHostPort (''http://h'' @ [NUL]) 64 256 = None"
  using UrlGetHostPort_no_slash [of "''http''" "''h''" 64 256] by simp

section \<open>Lines\<close>

lemma tok_scan_line:
  "10 \<notin> set line \<Longrightarrow> int num + int (length line) < lim \<Longrightarrow> length line < n \<Longrightarrow>
   tok_scan lim n (line @ 10 # rest) num = Some (line @ [10], True)"
proof (induction line arbitrary: n num)
  case Nil
  then show ?case by (cases n) auto
next
  case (Cons c line)
  from Cons.prems(3) obtain m where n: "n = Suc m" "length line < m" by (cases n) auto
  with Cons.IH [of "Suc num" m] Cons.prems show ?case by auto
qed

text \<open>With a whole line in the buffer and room for it \<open>UrlGetToken\<close> hands out the line with its line end and
  moves the rest of the buffer to its beginning - when that rest is not longer than the line: otherwise
  the two ranges of its \<open>memcpy\<close> overlap, which is undefined.\<close>

theorem UrlGetToken_line:
  assumes "10 \<notin> set line" "int (length line) + 2 \<le> nTok" "nTok \<le> int (length pTok)" "nTok \<le> INT_MAX"
    and "int (length (line @ 10 # rest)) \<le> INT_MAX"
  shows "if length rest \<le> length line + 1
    then \<exists>t. UrlGetToken (line @ 10 # rest @ behind) (int (length (line @ 10 # rest))) pTok nTok bHead = Some t \<and>
      tok_num t = int (length line) + 1 \<and> tok_nLen t = int (length rest) \<and>
      take (length line + 2) (tok_pTok t) = line @ [10, 0] \<and>
      take (length rest + 1) (tok_pData t) = rest @ [0] \<and>
      tok_bHead t = (if length line \<le> 1 then 0 else bHead)
    else UrlGetToken (line @ 10 # rest @ behind) (int (length (line @ 10 # rest))) pTok nTok bHead = None"
proof -
  let ?data = "line @ 10 # rest @ behind" and ?n = "int (length (line @ 10 # rest))" and ?t = "line @ [10]"
  have lim: "c_int (nTok - 1) = Some (nTok - 1)" using assms(2,4) by (simp add: c_int_def INT_MAX_def)
  have scan: "tok_scan (nTok - 1) (nat ?n) ?data 0 = Some (?t, True)"
    using assms(1,2) by (intro tok_scan_line) auto
  obtain tok where tok: "poke 0 (?t @ [0]) pTok = Some tok"
    using poke_SomeI [of 0 "?t @ [0]" pTok] assms(2,3) by auto
  have len: "c_int (?n - int (length ?t)) = Some (int (length rest))"
    using assms(5) by (simp add: c_int_def INT_MAX_def)
  have pk: "peek (int (length ?t)) (int (length rest)) ?data = Some rest"
    by (simp add: peek_def nat_add_distrib)
  show ?thesis
  proof (cases "length rest \<le> length line + 1")
    case True
    obtain d where d: "memcpy_down (int (length ?t)) (int (length rest)) ?data = Some d"
      "length d = length ?data" "take (length rest) d = rest"
    proof (cases "rest = []")
      case True
      then show ?thesis by (intro that [of ?data]) (simp_all add: memcpy_down_def)
    next
      case False
      obtain d where d: "poke 0 rest ?data = Some d" using poke_SomeI [of 0 rest ?data] by auto
      with False True pk take_poke [OF d] length_poke [OF d] show ?thesis
        by (intro that [of d]) (simp_all add: memcpy_down_def)
    qed
    then obtain d' where d': "poke (int (length rest)) [0] d = Some d'"
      using poke_SomeI [of "int (length rest)" "[0]" d] by auto
    let ?tk = "\<lparr>tok_num = int (length ?t), tok_nLen = int (length rest), tok_pData = d', tok_pTok = tok,
      tok_bHead = if length line \<le> 1 then 0 else bHead\<rparr>"
    have "UrlGetToken ?data ?n pTok nTok bHead = Some ?tk"
      using lim scan tok len d(1) d' unfolding UrlGetToken_def by (auto simp: Let_def)
    moreover have "take (length rest + 1) d' = rest @ [0]" using take_poke [OF d'] d(3) by simp
    moreover have "take (length line + 2) tok = line @ [10, 0]" using take_poke [OF tok] by simp
    ultimately have "\<exists>t. UrlGetToken ?data ?n pTok nTok bHead = Some t \<and>
        tok_num t = int (length line) + 1 \<and> tok_nLen t = int (length rest) \<and>
        take (length line + 2) (tok_pTok t) = line @ [10, 0] \<and> take (length rest + 1) (tok_pData t) = rest @ [0] \<and>
        tok_bHead t = (if length line \<le> 1 then 0 else bHead)"
      by (intro exI [of _ ?tk] conjI) simp_all
    with True show ?thesis by (simp only: if_True)
  next
    case False
    then have "memcpy_down (int (length ?t)) (int (length rest)) ?data = None"
      by (auto simp: memcpy_down_def)
    with False show ?thesis
      using lim scan tok len unfolding UrlGetToken_def by (auto simp: Let_def)
  qed
qed

theorem UrlGetToken_line_witness:
  "(\<exists>t. UrlGetToken [97, 13, 10, 98, 10, 0] 5 [0, 0, 0, 0, 0, 0] 6 1 = Some t \<and> tok_num t = 3 \<and>
      take 3 (tok_pData t) = [98, 10, 0]) \<and>
   UrlGetToken [10, 98, 10, 0] 3 [0, 0, 0, 0, 0, 0] 6 1 = None"
  using UrlGetToken_line [of "[97, 13]" 6 "[0, 0, 0, 0, 0, 0]" "[98, 10]" "[0]" 1]
    UrlGetToken_line [of "[]" 6 "[0, 0, 0, 0, 0, 0]" "[98, 10]" "[0]" 1]
  by (auto simp: INT_MAX_def numeral_3_eq_3)

end
