(* ===== verification/WatchDog.thy ===== *)
theory WatchDog
  imports IniFile
begin

text \<open>
  The watch dog of the service (test/INNOLIB/src/svcapp.cpp, the Unix side): the process that starts the
  service as its child, looks every 100 ms whether it is to be restarted, waits for its end and then
  upgrades it, starts it again or ends as well. The watch dog is one process among others, so that its
  steps are those of a relation, beside the steps of its environment: time passes, commands write the
  watch dog file, the child ends, a signal asks the watch dog to stop. Before it, the file with the
  process numbers.
\<close>

section \<open>The file of the process numbers\<close>

definition WritePid :: "bool \<Rightarrow> int \<Rightarrow> int \<Rightarrow> string option \<Rightarrow> string option" where
  "WritePid can_write ppid cpid file =
     (if can_write
      then Some (''PPID  '' @ fmt_d ppid @ [newline] @ ''CPID  '' @ fmt_d cpid @ [newline]) else file)"

text \<open>\<open>sscanf(buf, "%*s%d", &n)\<close>: without a number \<open>n\<close> is left alone.\<close>

definition scan_second :: "string \<Rightarrow> int \<Rightarrow> int option" where
  "scan_second s n =
     (let s = dropWhile isspace s; word = takeWhile (\<lambda>c. \<not> isspace c) s
      in if word = [] then Some n
         else case scan_d (drop (length word) s) of
                None \<Rightarrow> None | Some None \<Rightarrow> Some n | Some (Some k) \<Rightarrow> Some k)"

fun read_pids :: "string list \<Rightarrow> int \<times> int \<Rightarrow> (int \<times> int) option" where
  "read_pids [] (ppid, cpid) = Some (ppid, cpid)"
| "read_pids (buf # bufs) (ppid, cpid) = do {
     ppid \<leftarrow> (if sublist ''PPID'' buf then scan_second buf ppid else Some ppid);
     cpid \<leftarrow> (if sublist ''CPID'' buf then scan_second buf cpid else Some cpid);
     read_pids bufs (ppid, cpid) }"

text \<open>\<open>fgets(buf, 128, fp)\<close> until the end of the file.\<close>

definition fgets_pid :: "string \<Rightarrow> string" where
  "fgets_pid f = take 127 (first_line f @ (if newline \<in> set f then [newline] else []))"

lemma fgets_pid_shorter: "f \<noteq> [] \<Longrightarrow> length (drop (length (fgets_pid f)) f) < length f"
  by (cases f) (auto simp: fgets_pid_def first_line_def)

function pid_pieces :: "string \<Rightarrow> string list" where
  "pid_pieces f = (if f = [] then [] else fgets_pid f # pid_pieces (drop (length (fgets_pid f)) f))"
  by pat_completeness auto
termination by (relation "measure length") (use fgets_pid_shorter in auto)

declare pid_pieces.simps [simp del]

definition pid_lines :: "bool \<Rightarrow> string option \<Rightarrow> string list" where
  "pid_lines can_read file =
     (case file of
        Some f \<Rightarrow> if can_read then map (takeWhile (\<lambda>c. c \<noteq> NUL)) (pid_pieces f) else []
      | None \<Rightarrow> [])"

text \<open>
  \<open>killchk cpid\<close>: whether a process \<open>cpid\<close> of the name of the program exists (the process table is
  searched by killall.cpp). The result and the file afterwards.
\<close>

definition IsExistProgram ::
  "(int \<Rightarrow> bool) \<Rightarrow> bool \<Rightarrow> bool \<Rightarrow> int \<Rightarrow> string option \<Rightarrow> (bool \<times> string option) option" where
  "IsExistProgram killchk can_read can_write curpid file = do {
     (ppid, cpid) \<leftarrow> read_pids (pid_lines can_read file) (- 1, - 1);
     let exist = (cpid \<noteq> - 1 \<and> killchk cpid);
     Some (exist, if exist then file else WritePid can_write ppid curpid file) }"

section \<open>The state\<close>

text \<open>
  \<open>At_time\<close>: about to note the time and fork; \<open>At_fork\<close>: about to fork, for the first time or
  \<open>again\<close>, when it writes the file of the process numbers at once; \<open>At_loop\<close>: at the condition of
  the outer loop; \<open>Polling\<close>, \<open>Waiting\<close>: in the inner loop, before looking at the file and before
  \<open>waitpid\<close>; \<open>Reaped\<close>: after the inner loop; \<open>Pausing n\<close>: with \<open>n\<close> more seconds to sleep.
\<close>

datatype dog_end = Released | Normal_exit | Replaced

datatype dog_place = At_time bool | At_fork bool | At_loop | Polling | Waiting | Reaped | Pausing nat | Ended dog_end

text \<open>\<open>alive\<close> and \<open>zombies\<close> are the children, the latter with the status for \<open>waitpid\<close>.\<close>

record dog =
  dog_place :: dog_place
  clock :: int
  dog_file :: "string option"
  tStart :: int
  child :: int
  wait_status :: int
  bStop :: bool
  alive :: "int set"
  zombies :: "int \<rightharpoonup> int"
  pid_file :: "string option"

definition dog_start :: "int \<Rightarrow> string option \<Rightarrow> dog" where
  "dog_start t f0 =
     \<lparr>dog_place = At_time False, clock = t, dog_file = f0, tStart = 0, child = 0, wait_status = 0,
      bStop = False, alive = {}, zombies = (\<lambda>_. None), pid_file = None\<rparr>"

abbreviation dog_at :: "dog_place \<Rightarrow> dog \<Rightarrow> dog" where
  "dog_at p s \<equiv> s\<lparr>dog_place := p\<rparr>"

definition SIGKILL :: int where "SIGKILL = 9"

text \<open>\<open>killpid\<close>: a living child becomes a zombie that was ended by the signal.\<close>

definition kill_child :: "dog \<Rightarrow> dog" where
  "kill_child s =
     (if child s \<in> alive s
      then s\<lparr>alive := alive s - {child s}, zombies := (zombies s)(child s \<mapsto> SIGKILL)\<rparr> else s)"

definition command_time :: "string \<Rightarrow> dog \<Rightarrow> int option" where
  "command_time title s = WatchDogGet True title (dog_file s)"

section \<open>The steps of the watch dog\<close>

text \<open>\<open>restart_tm\<close> is \<open>m_nRestartTm\<close>, \<open>me\<close> the process number of the watch dog.\<close>

inductive dog_step :: "nat \<Rightarrow> int \<Rightarrow> dog \<Rightarrow> dog \<Rightarrow> bool" for restart_tm me where
  take_time: "dog_place s = At_time again \<Longrightarrow> dog_step restart_tm me s (dog_at (At_fork again) (s\<lparr>tStart := clock s\<rparr>))"
| fork_ok: "dog_place s = At_fork again \<Longrightarrow> 0 < p \<Longrightarrow> p \<notin> alive s \<Longrightarrow> zombies s p = None \<Longrightarrow>
    dog_step restart_tm me s (dog_at At_loop (s\<lparr>child := p, alive := insert p (alive s),
      pid_file := if again then WritePid True me p (pid_file s) else pid_file s\<rparr>))"
| fork_fails: "dog_place s = At_fork again \<Longrightarrow> dog_step restart_tm me s (dog_at At_loop (s\<lparr>child := - 1\<rparr>))"
| loop_leave: "dog_place s = At_loop \<Longrightarrow> \<not> (0 < child s \<and> \<not> bStop s) \<Longrightarrow>
    dog_step restart_tm me s (dog_at (Ended Released) s)"
| loop_enter: "dog_place s = At_loop \<Longrightarrow> 0 < child s \<Longrightarrow> \<not> bStop s \<Longrightarrow>
    dog_step restart_tm me s (dog_at Polling (s\<lparr>pid_file := WritePid True me (child s) (pid_file s)\<rparr>))"
| poll_restart: "dog_place s = Polling \<Longrightarrow> command_time WATCHDOG_RESTART s = Some t \<Longrightarrow> tStart s < t \<Longrightarrow>
    dog_step restart_tm me s (dog_at Waiting (kill_child s))"
| poll_nothing: "dog_place s = Polling \<Longrightarrow> command_time WATCHDOG_RESTART s = Some t \<Longrightarrow> t \<le> tStart s \<Longrightarrow>
    dog_step restart_tm me s (dog_at Waiting s)"
| wait_child: "dog_place s = Waiting \<Longrightarrow> zombies s p = Some st \<Longrightarrow>
    dog_step restart_tm me s (dog_at Reaped (s\<lparr>wait_status := st, zombies := (zombies s)(p := None)\<rparr>))"
| wait_none: "dog_place s = Waiting \<Longrightarrow> zombies s = (\<lambda>_. None) \<Longrightarrow> alive s \<noteq> {} \<Longrightarrow>
    dog_step restart_tm me s (dog_at Polling s)"
| wait_fails: "dog_place s = Waiting \<Longrightarrow> zombies s = (\<lambda>_. None) \<Longrightarrow> alive s = {} \<Longrightarrow>
    dog_step restart_tm me s (dog_at Reaped (s\<lparr>wait_status := 0\<rparr>))"
| upgrade: "dog_place s = Reaped \<Longrightarrow> command_time WATCHDOG_UPGRADE s = Some t \<Longrightarrow> tStart s < t \<Longrightarrow>
    dog_step restart_tm me s (dog_at (Ended Replaced) s)"
| upgrade_fails: "dog_place s = Reaped \<Longrightarrow> command_time WATCHDOG_UPGRADE s = Some t \<Longrightarrow> tStart s < t \<Longrightarrow>
    dog_step restart_tm me s (dog_at (Pausing restart_tm) s)"
| normal_exit: "dog_place s = Reaped \<Longrightarrow> command_time WATCHDOG_UPGRADE s = Some t \<Longrightarrow> t \<le> tStart s \<Longrightarrow>
    wait_status s = 0 \<Longrightarrow> dog_step restart_tm me s (dog_at (Ended Normal_exit) s)"
| again: "dog_place s = Reaped \<Longrightarrow> command_time WATCHDOG_UPGRADE s = Some t \<Longrightarrow> t \<le> tStart s \<Longrightarrow>
    wait_status s \<noteq> 0 \<Longrightarrow> dog_step restart_tm me s (dog_at (Pausing restart_tm) s)"
| pause: "dog_place s = Pausing (Suc n) \<Longrightarrow> \<not> bStop s \<Longrightarrow> clock s + 1 < 2 ^ 63 \<Longrightarrow>
    dog_step restart_tm me s (dog_at (Pausing n) (s\<lparr>clock := clock s + 1\<rparr>))"
| pause_break: "dog_place s = Pausing (Suc n) \<Longrightarrow> bStop s \<Longrightarrow> dog_step restart_tm me s (dog_at (At_time True) s)"
| pause_over: "dog_place s = Pausing 0 \<Longrightarrow> dog_step restart_tm me s (dog_at (At_time True) s)"

section \<open>The steps of the rest\<close>

inductive env_step :: "dog \<Rightarrow> dog \<Rightarrow> bool" where
  tick: "clock s + 1 < 2 ^ 63 \<Longrightarrow> env_step s (s\<lparr>clock := clock s + 1\<rparr>)"
| restart_command: "env_step s (s\<lparr>dog_file := WatchDogSet True True WATCHDOG_RESTART (clock s) (dog_file s)\<rparr>)"
| upgrade_command: "env_step s (s\<lparr>dog_file := WatchDogSet True True WATCHDOG_UPGRADE (clock s) (dog_file s)\<rparr>)"
| child_ends: "p \<in> alive s \<Longrightarrow>
    env_step s (s\<lparr>alive := alive s - {p}, zombies := (zombies s)(p \<mapsto> st)\<rparr>)"
| stop_signal: "env_step s (s\<lparr>bStop := True\<rparr>)"

text \<open>From a watch dog file \<open>f0\<close> that is there at the time \<open>t0\<close>.\<close>

inductive dog_reach :: "nat \<Rightarrow> int \<Rightarrow> int \<Rightarrow> string option \<Rightarrow> dog \<Rightarrow> bool" for restart_tm me t0 f0 where
  init: "dog_reach restart_tm me t0 f0 (dog_start t0 f0)"
| dog: "dog_reach restart_tm me t0 f0 s \<Longrightarrow> dog_step restart_tm me s s' \<Longrightarrow> dog_reach restart_tm me t0 f0 s'"
| env: "dog_reach restart_tm me t0 f0 s \<Longrightarrow> env_step s s' \<Longrightarrow> dog_reach restart_tm me t0 f0 s'"

end
