(* ===== verification/WatchDogSpec.thy ===== *)
theory WatchDogSpec
  imports WatchDog IniSpec
begin

text \<open>
  What the watch dog is for: there is never more than one service process, and a restart that was asked
  for is carried out; and the three ways in which that fails: a command in the second of the start, an
  upgrade in that second, and a failing \<open>fork\<close>.
\<close>

section \<open>The invariant\<close>

definition kids :: "dog \<Rightarrow> int set" where
  "kids s = alive s \<union> dom (zombies s)"

definition commands_ok :: "dog \<Rightarrow> bool" where
  "commands_ok s \<longleftrightarrow> 0 \<le> clock s \<and> long_range (clock s) \<and> tStart s \<le> clock s \<and>
     (\<exists>al. wd_file al (dog_file s) \<and> (\<forall>(t, n)\<in>set al. n \<le> clock s))"

text \<open>The children the watch dog has at each place of its program.\<close>

fun kids_at :: "int \<Rightarrow> dog_place \<Rightarrow> dog \<Rightarrow> bool" where
  "kids_at me At_loop s \<longleftrightarrow> kids s = (if 0 < child s then {child s} else {})"
| "kids_at me Polling s \<longleftrightarrow> 0 < child s \<and> kids s = {child s} \<and> pid_file s = WritePid True me (child s) None"
| "kids_at me Waiting s \<longleftrightarrow> 0 < child s \<and> kids s = {child s} \<and> pid_file s = WritePid True me (child s) None"
| "kids_at me (Ended Released) s \<longleftrightarrow> kids s = (if 0 < child s then {child s} else {}) \<and> (0 < child s \<longrightarrow> bStop s)"
| "kids_at me (Ended Normal_exit) s \<longleftrightarrow> kids s = {} \<and> wait_status s = 0"
| "kids_at me p s \<longleftrightarrow> kids s = {}"

definition dog_ok :: "int \<Rightarrow> dog \<Rightarrow> bool" where
  "dog_ok me s \<longleftrightarrow> commands_ok s \<and> alive s \<inter> dom (zombies s) = {} \<and> kids_at me (dog_place s) s"

lemma kids_at_frame:
  "kids s' = kids s \<Longrightarrow> child s' = child s \<Longrightarrow> wait_status s' = wait_status s \<Longrightarrow> pid_file s' = pid_file s \<Longrightarrow>
   (bStop s \<Longrightarrow> bStop s') \<Longrightarrow> kids_at me p s \<Longrightarrow> kids_at me p s'"
  by (cases "(me, p, s)" rule: kids_at.cases) auto

lemma commands_ok_frame:
  "commands_ok s \<Longrightarrow> clock s' = clock s \<Longrightarrow> tStart s' = tStart s \<or> tStart s' = clock s \<Longrightarrow>
   dog_file s' = dog_file s \<Longrightarrow> commands_ok s'"
  by (auto simp: commands_ok_def)

lemma commands_ok_tick:
  assumes "commands_ok s" "clock s + 1 < 2 ^ 63" "clock s' = clock s + 1" "tStart s' = tStart s"
    "dog_file s' = dog_file s"
  shows "commands_ok s'"
  using assms by (fastforce simp: commands_ok_def long_range_def)

lemma commands_ok_set:
  assumes "commands_ok s" "title_ok t" "clock s' = clock s" "tStart s' = tStart s"
    "dog_file s' = WatchDogSet True True t (clock s) (dog_file s)"
  shows "commands_ok s'"
proof -
  from assms(1) obtain al where al: "wd_file al (dog_file s)" "\<forall>(t, n)\<in>set al. n \<le> clock s" and c: "long_range (clock s)"
    by (auto simp: commands_ok_def)
  have "\<forall>(u, n)\<in>set (AList.update t (clock s) al). n \<le> clock s"
    using al(2) by (induction al) auto
  with WatchDogSet_file [OF al(1) assms(2) c] assms show ?thesis unfolding commands_ok_def by auto
qed

lemma command_time_ok:
  assumes "commands_ok s" "title_ok t"
  shows "\<exists>n. command_time t s = Some n \<and> n \<le> clock s"
proof -
  from assms(1) obtain al where al: "wd_file al (dog_file s)" "\<forall>(t, n)\<in>set al. n \<le> clock s" "0 \<le> clock s"
    by (auto simp: commands_ok_def)
  then show ?thesis
    using WatchDogGet_file [OF al(1) assms(2)] by (auto simp: command_time_def split: option.splits dest: map_of_SomeD)
qed

lemma command_time_set:
  assumes "commands_ok s" "title_ok t" "title_ok u"
    "dog_file s' = WatchDogSet True True t (clock s) (dog_file s)"
  shows "command_time u s' = (if u = t then Some (clock s) else command_time u s)"
proof -
  from assms(1) obtain al where al: "wd_file al (dog_file s)" and c: "long_range (clock s)"
    by (auto simp: commands_ok_def)
  from WatchDogGet_file [OF WatchDogSet_file [OF al assms(2) c] assms(3)] WatchDogGet_file [OF al assms(3)] assms(4)
  show ?thesis by (simp add: command_time_def update_conv')
qed

lemma titles [simp]: "title_ok WATCHDOG_RESTART" "title_ok WATCHDOG_UPGRADE" "WATCHDOG_RESTART \<noteq> WATCHDOG_UPGRADE"
    "WATCHDOG_UPGRADE \<noteq> WATCHDOG_RESTART"
  by (simp_all add: title_ok_def WATCHDOG_RESTART_def WATCHDOG_UPGRADE_def)

lemma kill_child_kids:
  "kids (kill_child s) = kids s" "alive (kill_child s) = alive s - {child s}"
  "alive s \<inter> dom (zombies s) = {} \<Longrightarrow> alive (kill_child s) \<inter> dom (zombies (kill_child s)) = {}"
  "child (kill_child s) = child s" "clock (kill_child s) = clock s" "tStart (kill_child s) = tStart s"
  "dog_file (kill_child s) = dog_file s" "pid_file (kill_child s) = pid_file s"
  "dog_place (kill_child s) = dog_place s" "bStop (kill_child s) = bStop s"
  "wait_status (kill_child s) = wait_status s"
  by (auto simp: kill_child_def kids_def)

lemma dog_ok_start: "long_range t \<Longrightarrow> 0 \<le> t \<Longrightarrow> wd_file al f0 \<Longrightarrow> \<forall>(u, n)\<in>set al. n \<le> t \<Longrightarrow> dog_ok me (dog_start t f0)"
  by (auto simp: dog_ok_def commands_ok_def dog_start_def kids_def)

lemma commands_ok_step:
  assumes "dog_step restart_tm me s s'" and ok: "commands_ok s"
  shows "commands_ok s'"
  using assms(1)
proof (cases rule: dog_step.cases)
  case (pause n)
  then show ?thesis by (intro commands_ok_tick [OF ok]) simp_all
qed (intro commands_ok_frame [OF ok]; simp add: kill_child_kids)+

lemma kids_simps [simp]:
  "kids (s\<lparr>dog_place := p\<rparr>) = kids s" "kids (s\<lparr>tStart := t\<rparr>) = kids s" "kids (s\<lparr>clock := t\<rparr>) = kids s"
  "kids (s\<lparr>wait_status := t\<rparr>) = kids s" "kids (s\<lparr>pid_file := f\<rparr>) = kids s" "kids (s\<lparr>dog_file := f\<rparr>) = kids s"
  "kids (s\<lparr>bStop := b\<rparr>) = kids s" "kids (s\<lparr>child := p'\<rparr>) = kids s"
  by (simp_all add: kids_def)

lemma one_child: "A \<union> D = {c} \<Longrightarrow> A \<inter> D = {} \<Longrightarrow> p \<in> D \<Longrightarrow> A = {} \<and> D = {p}"
  by (cases "c \<in> A") auto

lemma kids_at_step:
  assumes "dog_step restart_tm me s s'" "alive s \<inter> dom (zombies s) = {}" "kids_at me (dog_place s) s"
  shows "alive s' \<inter> dom (zombies s') = {} \<and> kids_at me (dog_place s') s'"
  using assms(1)
proof (cases rule: dog_step.cases)
  case (fork_ok p)
  with assms(2,3) show ?thesis by (auto simp: kids_def)
next
  case (poll_restart t)
  with assms(2,3) show ?thesis by (simp add: kill_child_kids(1,3-11))
next
  case (wait_child p st)
  then have k: "alive s \<union> dom (zombies s) = {child s}" "p \<in> dom (zombies s)" using assms(3) by (auto simp: kids_def)
  from one_child [OF k(1) assms(2) k(2)] have z: "alive s = {}" "dom (zombies s) = {p}" by simp_all
  have "alive s' = {}" "dom (zombies s') = {}" unfolding wait_child(1) using z by simp_all
  moreover have "dog_place s' = Reaped" unfolding wait_child(1) by simp
  ultimately show ?thesis by (simp add: kids_def)
next
  case wait_fails
  with assms(2,3) show ?thesis by (auto simp: kids_def)
next
  case normal_exit
  with assms(2,3) show ?thesis by simp
next
  case loop_leave
  with assms(2,3) show ?thesis by simp
next
  case (loop_enter)
  with assms(2,3) show ?thesis by (simp add: WritePid_def)
qed (use assms(2,3) in simp_all)

lemma dog_ok_step: "dog_step restart_tm me s s' \<Longrightarrow> dog_ok me s \<Longrightarrow> dog_ok me s'"
  using commands_ok_step [of restart_tm me s s'] kids_at_step [of restart_tm me s s'] by (simp add: dog_ok_def)

lemma dog_ok_env:
  assumes "env_step s s'" and ok: "dog_ok me s"
  shows "dog_ok me s'"
  using assms(1)
proof (cases rule: env_step.cases)
  case tick
  with ok show ?thesis
    by (auto simp: dog_ok_def intro: commands_ok_tick kids_at_frame [where s = s])
next
  case restart_command
  with ok show ?thesis
    by (auto simp: dog_ok_def intro: commands_ok_set [of s WATCHDOG_RESTART] kids_at_frame [where s = s])
next
  case upgrade_command
  with ok show ?thesis
    by (auto simp: dog_ok_def intro: commands_ok_set [of s WATCHDOG_UPGRADE] kids_at_frame [where s = s])
next
  case (child_ends p st)
  then have k: "kids s' = kids s" "alive s \<inter> dom (zombies s) = {} \<Longrightarrow> alive s' \<inter> dom (zombies s') = {}"
    by (auto simp: kids_def)
  from ok have "commands_ok s'" using child_ends commands_ok_frame [of s s'] by (simp add: dog_ok_def)
  moreover have "kids_at me (dog_place s) s'"
    using child_ends ok by (intro kids_at_frame [OF k(1)]) (simp_all add: dog_ok_def)
  ultimately show ?thesis using child_ends k ok by (simp add: dog_ok_def)
next
  case stop_signal
  with ok show ?thesis
    by (auto simp: dog_ok_def intro: commands_ok_frame kids_at_frame [where s = s])
qed

definition file_before :: "int \<Rightarrow> string option \<Rightarrow> bool" where
  "file_before t f0 \<longleftrightarrow> 0 \<le> t \<and> t < 2 ^ 63 \<and> (\<exists>al. wd_file al f0 \<and> (\<forall>(u, n)\<in>set al. n \<le> t))"

lemma dog_ok_reach: "dog_reach restart_tm me t0 f0 s \<Longrightarrow> file_before t0 f0 \<Longrightarrow> dog_ok me s"
proof (induction rule: dog_reach.induct)
  case init
  then show ?case by (auto simp: file_before_def long_range_def intro: dog_ok_start)
qed (auto intro: dog_ok_step dog_ok_env)

section \<open>One service\<close>

text \<open>Whatever else happens, the watch dog itself can always take a step until it has ended.\<close>

lemma dog_moves:
  assumes "dog_ok me s" "dog_place s \<noteq> Ended x" "clock s + 1 < 2 ^ 63" "\<And>y. dog_place s \<noteq> Ended y"
  shows "\<exists>s'. dog_step restart_tm me s s'"
proof -
  obtain t where t: "command_time WATCHDOG_RESTART s = Some t"
    using command_time_ok [of s WATCHDOG_RESTART] assms(1) by (auto simp: dog_ok_def)
  obtain u where u: "command_time WATCHDOG_UPGRADE s = Some u"
    using command_time_ok [of s WATCHDOG_UPGRADE] assms(1) by (auto simp: dog_ok_def)
  show ?thesis
  proof (cases "dog_place s")
    case (Pausing n)
    then show ?thesis using assms(3) by (cases n) (blast intro: dog_step.intros)+
  next
    case Waiting
    show ?thesis
    proof (cases "zombies s = (\<lambda>_. None)")
      case True
      with Waiting dog_step.wait_none dog_step.wait_fails show ?thesis by blast
    next
      case False
      then obtain p st where "zombies s p = Some st" by (auto simp: fun_eq_iff)
      with Waiting dog_step.wait_child show ?thesis by blast
    qed
  next
    case At_loop
    then show ?thesis by (blast intro: dog_step.intros)
  next
    case Polling
    with t show ?thesis by (cases "tStart s < t") (auto intro: dog_step.intros simp: not_less)
  next
    case Reaped
    with u show ?thesis by (cases "tStart s < u"; cases "wait_status s = 0") (auto intro: dog_step.intros simp: not_less)
  qed (use assms(4) in \<open>auto intro: dog_step.intros\<close>)
qed


section \<open>Restarts\<close>

lemma pause_through:
  "dog_place s = Pausing n \<Longrightarrow> \<not> bStop s \<Longrightarrow> clock s + int n < 2 ^ 63 \<Longrightarrow>
   (dog_step restart_tm me)\<^sup>*\<^sup>* s (dog_at (At_time True) (s\<lparr>clock := clock s + int n\<rparr>))"
proof (induction n arbitrary: s)
  case 0
  have "dog_step restart_tm me s (dog_at (At_time True) s)" using dog_step.pause_over [OF "0.prems"(1)] .
  then show ?case by (cases s) auto
next
  case (Suc n)
  let ?s = "dog_at (Pausing n) (s\<lparr>clock := clock s + 1\<rparr>)"
  have "dog_step restart_tm me s ?s" using Suc.prems by (intro dog_step.pause) auto
  moreover have "(dog_step restart_tm me)\<^sup>*\<^sup>* ?s (dog_at (At_time True) (?s\<lparr>clock := clock ?s + int n\<rparr>))"
    using Suc.prems by (intro Suc.IH) auto
  ultimately show ?case by (cases s) (auto intro: converse_rtranclp_into_rtranclp simp: algebra_simps)
qed

text \<open>From the killing of the child to the next one.\<close>

lemma restart_path:
  assumes "dog_place s = Polling" "alive s = {child s}" "zombies s = (\<lambda>_. None)" "\<not> bStop s"
    and "command_time WATCHDOG_RESTART s = Some t" "tStart s < t"
    and "command_time WATCHDOG_UPGRADE s = Some u" "u \<le> tStart s"
    and "clock s + int restart_tm < 2 ^ 63" "0 < p"
  shows "(dog_step restart_tm me)\<^sup>*\<^sup>* s
    (dog_at Polling (s\<lparr>clock := clock s + int restart_tm, tStart := clock s + int restart_tm, child := p,
       wait_status := SIGKILL, alive := {p}, pid_file := WritePid True me p (pid_file s)\<rparr>))"
proof -
  let ?st = "dog_step restart_tm me"
  let ?s1 = "dog_at Waiting (kill_child s)"
  let ?s2 = "dog_at Reaped (s\<lparr>wait_status := SIGKILL, alive := {}\<rparr>)"
  let ?s3 = "dog_at (Pausing restart_tm) ?s2"
  let ?s4 = "dog_at (At_time True) (?s3\<lparr>clock := clock ?s3 + int restart_tm\<rparr>)"
  let ?s5 = "dog_at (At_fork True) (?s4\<lparr>tStart := clock ?s4\<rparr>)"
  let ?s6 = "dog_at At_loop (?s5\<lparr>child := p, alive := insert p (alive ?s5),
    pid_file := if True then WritePid True me p (pid_file ?s5) else pid_file ?s5\<rparr>)"
  let ?s7 = "dog_at Polling (?s6\<lparr>pid_file := WritePid True me (child ?s6) (pid_file ?s6)\<rparr>)"
  have "?st s ?s1" by (rule dog_step.poll_restart [OF assms(1,5,6)])
  moreover have "?st ?s1 ?s2"
  proof -
    have k: "kill_child s = s\<lparr>alive := {}, zombies := [child s \<mapsto> SIGKILL]\<rparr>"
      using assms(2,3) by (simp add: kill_child_def)
    have "?st ?s1 (dog_at Reaped (?s1\<lparr>wait_status := SIGKILL, zombies := (zombies ?s1)(child s := None)\<rparr>))"
      by (rule dog_step.wait_child) (simp_all add: k)
    moreover have "dog_at Reaped (?s1\<lparr>wait_status := SIGKILL, zombies := (zombies ?s1)(child s := None)\<rparr>) = ?s2"
      using assms(3) unfolding k by (cases s) simp
    ultimately show ?thesis by simp
  qed
  moreover have "?st ?s2 ?s3"
  proof -
    have "command_time WATCHDOG_UPGRADE ?s2 = Some u" using assms(7) by (simp add: command_time_def)
    then show ?thesis by (rule dog_step.again [rotated]) (use assms(8) in \<open>simp_all add: SIGKILL_def\<close>)
  qed
  moreover have "?st\<^sup>*\<^sup>* ?s3 ?s4" by (rule pause_through) (use assms(4,9) in simp_all)
  moreover have "?st ?s4 ?s5" by (rule dog_step.take_time) simp
  moreover have "?st ?s5 ?s6" by (rule dog_step.fork_ok) (use assms(3,10) in simp_all)
  moreover have "?st ?s6 ?s7" by (rule dog_step.loop_enter) (use assms(4,10) in simp_all)
  ultimately have "?st\<^sup>*\<^sup>* s ?s7"
    by (meson converse_rtranclp_into_rtranclp rtranclp.rtrancl_refl rtranclp_trans)
  moreover have "?s7 = dog_at Polling (s\<lparr>clock := clock s + int restart_tm, tStart := clock s + int restart_tm,
      child := p, wait_status := SIGKILL, alive := {p}, pid_file := WritePid True me p (pid_file s)\<rparr>)"
    by (cases s) (simp add: WritePid_def)
  ultimately show ?thesis by (simp only:)
qed

lemma sole_child:
  assumes "dog_ok me s" "dog_place s \<in> {Polling, Waiting}" "alive s = {child s}"
  shows "zombies s = (\<lambda>_. None)"
proof -
  have "kids s = {child s}" "alive s \<inter> dom (zombies s) = {}" using assms(1,2) by (auto simp: dog_ok_def)
  then have "dom (zombies s) \<subseteq> {child s}" "alive s \<inter> dom (zombies s) = {}" by (auto simp: kids_def)
  then have "dom (zombies s) = {}" using assms(3) by blast
  then show ?thesis by simp
qed


section \<open>Commands that are lost\<close>

text \<open>Steps of the watch dog and of the clock only.\<close>

definition undisturbed :: "nat \<Rightarrow> int \<Rightarrow> dog \<Rightarrow> dog \<Rightarrow> bool" where
  "undisturbed restart_tm me s s' \<longleftrightarrow> dog_step restart_tm me s s' \<or> s' = s\<lparr>clock := clock s + 1\<rparr>"

definition deaf :: "int \<Rightarrow> dog \<Rightarrow> bool" where
  "deaf c s \<longleftrightarrow> dog_place s \<in> {Polling, Waiting} \<and> alive s = {c} \<and> zombies s = (\<lambda>_. None) \<and>
     (\<exists>t \<le> tStart s. command_time WATCHDOG_RESTART s = Some t)"

lemma deaf_step:
  assumes "undisturbed restart_tm me s s'" "deaf c s"
  shows "deaf c s'"
proof (cases "s' = s\<lparr>clock := clock s + 1\<rparr>")
  case True
  with assms(2) show ?thesis by (simp add: deaf_def command_time_def)
next
  case False
  with assms(1) have "dog_step restart_tm me s s'" by (simp add: undisturbed_def)
  then show ?thesis
    by (cases rule: dog_step.cases) (use assms(2) in \<open>auto simp: deaf_def command_time_def\<close>)
qed

lemma deaf_steps: "(undisturbed restart_tm me)\<^sup>*\<^sup>* s s' \<Longrightarrow> deaf c s \<Longrightarrow> deaf c s'"
  by (induction rule: rtranclp_induct) (auto intro: deaf_step)

text \<open>The child ends with 0 and the upgrade is not younger than the child.\<close>

lemma lost_upgrade_path:
  assumes "dog_place s = Waiting" "alive s = {}" "zombies s = [c \<mapsto> 0]"
    and "command_time WATCHDOG_UPGRADE s = Some u" "u \<le> tStart s"
  shows "\<exists>s'. (dog_step restart_tm me)\<^sup>*\<^sup>* s s' \<and> dog_place s' = Ended Normal_exit \<and> alive s' = {}"
proof -
  let ?s1 = "dog_at Reaped (s\<lparr>wait_status := 0, zombies := (zombies s)(c := None)\<rparr>)"
  have "dog_step restart_tm me s ?s1" by (rule dog_step.wait_child) (use assms(1,3) in simp_all)
  moreover have "dog_step restart_tm me ?s1 (dog_at (Ended Normal_exit) ?s1)"
    by (rule dog_step.normal_exit [where t = u]) (use assms(4,5) in \<open>simp_all add: command_time_def\<close>)
  ultimately have "(dog_step restart_tm me)\<^sup>*\<^sup>* s (dog_at (Ended Normal_exit) ?s1)" by auto
  then show ?thesis using assms(2) by (intro exI conjI) (assumption, simp_all)
qed

text \<open>C35: A command in the second in which the child was started is lost: after a restart the child runs on, however
  long the watch dog and the clock go on; and after an upgrade, for which the service ends by itself, the
  watch dog takes its end for a normal one and ends too, so that nothing runs any more.\<close>

theorem watchdog_loses_commands:
  assumes "dog_reach restart_tm me t0 f0 s" "file_before t0 f0"
    and "dog_place s = Waiting" "alive s = {child s}" "clock s = tStart s"
    and "\<exists>u. command_time WATCHDOG_UPGRADE s = Some u \<and> u \<le> tStart s"
  shows "(let r = s\<lparr>dog_file := WatchDogSet True True WATCHDOG_RESTART (clock s) (dog_file s)\<rparr>
      in env_step s r \<and> (\<forall>s'. (undisturbed restart_tm me)\<^sup>*\<^sup>* r s' \<longrightarrow> alive s' = {child s})) \<and>
    (let r = s\<lparr>dog_file := WatchDogSet True True WATCHDOG_UPGRADE (clock s) (dog_file s)\<rparr>
      in env_step s r \<and>
         (\<exists>r' s'. env_step r r' \<and> (dog_step restart_tm me)\<^sup>*\<^sup>* r' s' \<and> dog_place s' = Ended Normal_exit \<and> alive s' = {}))"
proof -
  note ok = dog_ok_reach [OF assms(1,2)]
  have z: "zombies s = (\<lambda>_. None)" using sole_child [OF ok] assms(3,4) by simp
  have c: "commands_ok s" using ok by (simp add: dog_ok_def)
  let ?r = "s\<lparr>dog_file := WatchDogSet True True WATCHDOG_RESTART (clock s) (dog_file s)\<rparr>"
  let ?u = "s\<lparr>dog_file := WatchDogSet True True WATCHDOG_UPGRADE (clock s) (dog_file s)\<rparr>"
  have "command_time WATCHDOG_RESTART ?r = Some (clock s)" by (subst command_time_set [OF c titles(1,1)]) simp_all
  then have "deaf (child s) ?r" using assms(3-5) z by (simp add: deaf_def)
  then have lost: "alive s' = {child s}" if "(undisturbed restart_tm me)\<^sup>*\<^sup>* ?r s'" for s'
    using deaf_steps [OF that] by (simp add: deaf_def)
  let ?v = "?u\<lparr>alive := alive ?u - {child s}, zombies := (zombies ?u)(child s \<mapsto> 0)\<rparr>"
  have "env_step ?u ?v" by (rule env_step.child_ends) (use assms(4) in simp)
  moreover have "command_time WATCHDOG_UPGRADE ?u = Some (clock s)" by (subst command_time_set [OF c titles(2,2)]) simp_all
  then have "command_time WATCHDOG_UPGRADE ?v = Some (clock s)" by (simp add: command_time_def)
  then have "\<exists>s'. (dog_step restart_tm me)\<^sup>*\<^sup>* ?v s' \<and> dog_place s' = Ended Normal_exit \<and> alive s' = {}"
    using assms(3-5) z by (intro lost_upgrade_path [where c = "child s" and u = "clock s"]) simp_all
  ultimately show ?thesis
    unfolding Let_def using lost env_step.restart_command [of s] env_step.upgrade_command [of s] by blast
qed

section \<open>A watch dog at work\<close>

definition working :: "int \<Rightarrow> dog" where
  "working t = \<lparr>dog_place = Waiting, clock = t, dog_file = None, tStart = t, child = 100, wait_status = 0,
     bStop = False, alive = {100}, zombies = (\<lambda>_. None), pid_file = WritePid True 50 100 None\<rparr>"

lemma no_command: "command_time u (s\<lparr>dog_file := None\<rparr>) = Some 0"
  by (simp add: command_time_def WatchDogGet_def ini_lines_def)

lemma working_reach: "0 \<le> t \<Longrightarrow> dog_reach 30 50 t None (working t)"
proof -
  assume t: "0 \<le> t"
  let ?s0 = "dog_start t None" let ?s1 = "dog_at (At_fork False) (?s0\<lparr>tStart := clock ?s0\<rparr>)"
  let ?s2 = "dog_at At_loop (?s1\<lparr>child := 100, alive := insert 100 (alive ?s1),
    pid_file := if False then WritePid True 50 100 (pid_file ?s1) else pid_file ?s1\<rparr>)"
  let ?s3 = "dog_at Polling (?s2\<lparr>pid_file := WritePid True 50 (child ?s2) (pid_file ?s2)\<rparr>)"
  have "dog_reach 30 50 t None ?s1"
    by (rule dog_reach.dog [OF dog_reach.init], rule dog_step.take_time) (simp add: dog_start_def)
  then have "dog_reach 30 50 t None ?s2"
    by (rule dog_reach.dog, intro dog_step.fork_ok) (simp_all add: dog_start_def)
  then have "dog_reach 30 50 t None ?s3"
    by (rule dog_reach.dog, intro dog_step.loop_enter) (simp_all add: dog_start_def)
  moreover have "command_time WATCHDOG_RESTART ?s3 = Some 0"
    by (simp add: dog_start_def command_time_def WatchDogGet_def ini_lines_def)
  then have "dog_step 30 50 ?s3 (dog_at Waiting ?s3)"
    by (rule dog_step.poll_nothing [rotated]) (use t in \<open>simp_all add: dog_start_def\<close>)
  ultimately have "dog_reach 30 50 t None (dog_at Waiting ?s3)" by (rule dog_reach.dog)
  moreover have "dog_at Waiting ?s3 = working t" by (simp add: working_def dog_start_def)
  ultimately show ?thesis by simp
qed

lemma working_file: "0 \<le> t \<Longrightarrow> t < 2 ^ 63 \<Longrightarrow> file_before t None"
  by (simp add: file_before_def wd_file_def ini_lines_def)


theorem watchdog_loses_commands_witness:
  "\<not> (\<exists>s'. (undisturbed 30 50)\<^sup>*\<^sup>* ((working 1700000000)\<lparr>dog_file :=
     WatchDogSet True True WATCHDOG_RESTART 1700000000 None\<rparr>) s' \<and> alive s' \<noteq> {100})"
proof -
  have "command_time WATCHDOG_UPGRADE (working 1700000000) = Some 0"
    by (simp add: working_def command_time_def WatchDogGet_def ini_lines_def)
  then have u: "\<exists>u. command_time WATCHDOG_UPGRADE (working 1700000000) = Some u \<and> u \<le> tStart (working 1700000000)"
    by (simp add: working_def)
  from watchdog_loses_commands [OF working_reach working_file _ _ _ u] show ?thesis
    by (simp add: working_def Let_def)
qed

text \<open>Two seconds later a restart is noticed.\<close>

definition told :: dog where
  "told = dog_at Polling ((working 1700000000)\<lparr>clock := 1700000002,
     dog_file := WatchDogSet True True WATCHDOG_RESTART 1700000002 None\<rparr>)"

lemma told_reach: "dog_reach 30 50 1700000000 None told"
proof -
  let ?w = "working 1700000000" let ?w1 = "dog_at Polling ?w"
  let ?w2 = "?w1\<lparr>clock := clock ?w1 + 1\<rparr>" let ?w3 = "?w2\<lparr>clock := clock ?w2 + 1\<rparr>"
  let ?w4 = "?w3\<lparr>dog_file := WatchDogSet True True WATCHDOG_RESTART (clock ?w3) (dog_file ?w3)\<rparr>"
  have "dog_reach 30 50 1700000000 None ?w" by (rule working_reach) simp
  then have "dog_reach 30 50 1700000000 None ?w1"
    by (rule dog_reach.dog, intro dog_step.wait_none) (simp_all add: working_def)
  then have "dog_reach 30 50 1700000000 None ?w2"
    by (rule dog_reach.env, intro env_step.tick) (simp add: working_def)
  then have "dog_reach 30 50 1700000000 None ?w3"
    by (rule dog_reach.env, intro env_step.tick) (simp add: working_def)
  then have "dog_reach 30 50 1700000000 None ?w4"
    by (rule dog_reach.env, intro env_step.restart_command)
  moreover have "?w4 = told" by (simp add: told_def working_def)
  ultimately show ?thesis by simp
qed


section \<open>The file of the process numbers\<close>

definition pid_line :: "string \<Rightarrow> int \<Rightarrow> string" where
  "pid_line key n = (key @ ''  '' @ fmt_d n) @ [newline]"

lemma fgets_pid_line:
  "newline \<notin> set l \<Longrightarrow> length l < 126 \<Longrightarrow> fgets_pid ((l @ [newline]) @ f) = l @ [newline]"
proof -
  assume l: "newline \<notin> set l" "length l < 126"
  have "takeWhile (\<lambda>c. c \<noteq> newline) (l @ newline # f) = l" using l(1) by (induction l) auto
  with l(2) show ?thesis by (simp add: fgets_pid_def first_line_def)
qed

lemma pid_pieces_line:
  assumes "newline \<notin> set l" "length l < 126"
  shows "pid_pieces ((l @ [newline]) @ f) = (l @ [newline]) # pid_pieces f"
  by (subst pid_pieces.simps, subst fgets_pid_line [OF assms], subst fgets_pid_line [OF assms]) simp

lemma fmt_d_long: "int_range n \<Longrightarrow> length (fmt_d n) \<le> 20"
  by (rule length_fmt_d_long) (simp add: long_range_def)

lemma sublist_count: "sublist xs ys \<Longrightarrow> length (filter P xs) \<le> length (filter P ys)"
  by (auto simp: sublist_def)

lemma pid_line_ok:
  assumes key: "key = ''PPID'' \<or> key = ''CPID''" and n: "int_range n"
  shows "newline \<notin> set (key @ ''  '' @ fmt_d n)" "length (key @ ''  '' @ fmt_d n) < 126"
    "takeWhile (\<lambda>c. c \<noteq> NUL) (pid_line key n) = pid_line key n"
    "sublist ''PPID'' (pid_line key n) \<longleftrightarrow> key = ''PPID''" "sublist ''CPID'' (pid_line key n) \<longleftrightarrow> key = ''CPID''"
    "scan_second (pid_line key n) m = Some n"
proof -
  have chars: "c \<noteq> newline \<and> c \<noteq> NUL \<and> c \<noteq> CHR ''P'' \<and> c \<noteq> CHR ''C''" if "c \<in> set (fmt_d n)" for c
    using fmt_d_chars [OF that] by (auto simp: isdigit_def newline_def)
  show nl: "newline \<notin> set (key @ ''  '' @ fmt_d n)" using key chars by (auto simp: newline_def)
  show "length (key @ ''  '' @ fmt_d n) < 126" using key fmt_d_long [OF n] by auto
  have "\<forall>c\<in>set (pid_line key n). c \<noteq> NUL" using key chars by (auto simp: pid_line_def newline_def)
  then show "takeWhile (\<lambda>c. c \<noteq> NUL) (pid_line key n) = pid_line key n" by (simp add: takeWhile_eq_all_conv)
  have "filter (\<lambda>c. c = CHR ''P'') (fmt_d n) = []" "filter (\<lambda>c. c = CHR ''C'') (fmt_d n) = []"
    using chars by (auto simp: filter_empty_conv)
  then have count: "length (filter (\<lambda>c. c = CHR ''P'') (pid_line ''CPID'' n)) = 1"
    "length (filter (\<lambda>c. c = CHR ''C'') (pid_line ''PPID'' n)) = 0"
    by (simp_all add: pid_line_def newline_def)
  have self: "sublist k (pid_line k n)" for k by (simp add: pid_line_def)
  show "sublist ''PPID'' (pid_line key n) \<longleftrightarrow> key = ''PPID''"
    using key self [of "''PPID''"] sublist_count [of "''PPID''" "pid_line ''CPID'' n" "\<lambda>c. c = CHR ''P''"] count(1) by auto
  show "sublist ''CPID'' (pid_line key n) \<longleftrightarrow> key = ''CPID''"
    using key self [of "''CPID''"] sublist_count [of "''CPID''" "pid_line ''PPID'' n" "\<lambda>c. c = CHR ''C''"] count(2) by auto
  have k: "dropWhile isspace (pid_line key n) = pid_line key n" "takeWhile (\<lambda>c. \<not> isspace c) (pid_line key n) = key" "key \<noteq> []"
    using key by (auto simp: pid_line_def isspace_def)
  have "scan_num (''  '' @ fmt_d n @ [newline]) = Some n"
    using scan_num_fmt_d [of "[newline]" n] by (simp add: scan_num_def isspace_def isdigit_def newline_def)
  then have "scan_d (drop (length key) (pid_line key n)) = Some (Some n)"
    using n by (simp add: scan_d_def pid_line_def)
  then show "scan_second (pid_line key n) m = Some n" unfolding scan_second_def Let_def k(1,2) using k(3) by simp
qed

text \<open>A second start of the service finds the one that is running: after \<open>WritePid\<close>, \<open>IsExistProgram\<close> asks for
  exactly the child that was written, leaves the file alone when it exists, and otherwise enters its own
  process, keeping the number of the parent.\<close>

theorem IsExistProgram_finds_child:
  assumes "int_range ppid" "int_range cpid" "cpid \<noteq> - 1"
  shows "IsExistProgram killchk True can_write curpid (WritePid True ppid cpid f0) =
    Some (killchk cpid, if killchk cpid then WritePid True ppid cpid f0
      else WritePid can_write ppid curpid (WritePid True ppid cpid f0))"
proof -
  let ?p = "pid_line ''PPID'' ppid" and ?c = "pid_line ''CPID'' cpid"
  have w: "WritePid True ppid cpid f0 = Some (?p @ ?c @ [])" by (simp add: WritePid_def pid_line_def)
  note p = pid_line_ok [of "''PPID''", OF _ assms(1), simplified] and c = pid_line_ok [of "''CPID''", OF _ assms(2), simplified]
  have "pid_pieces (?p @ ?c @ []) = [?p, ?c]"
  proof -
    have "pid_pieces (?p @ ?c @ []) = ?p # pid_pieces (?c @ [])"
      using pid_pieces_line [of "''PPID'' @ ''  '' @ fmt_d ppid" "?c @ []"] p(1,2) by (simp add: pid_line_def)
    also have "pid_pieces (?c @ []) = ?c # pid_pieces []"
      using pid_pieces_line [of "''CPID'' @ ''  '' @ fmt_d cpid" "[]"] c(1,2) by (simp add: pid_line_def)
    finally show ?thesis by (simp add: pid_pieces.simps [of "[]"])
  qed
  then have "pid_lines True (Some (?p @ ?c @ [])) = [?p, ?c]" using p(3) c(3) by (simp add: pid_lines_def)
  then have "read_pids (pid_lines True (Some (?p @ ?c @ []))) (- 1, - 1) = Some (ppid, cpid)"
    using p c by simp
  then show ?thesis unfolding w IsExistProgram_def using assms(3) by simp
qed

theorem IsExistProgram_finds_child_witness:
  "IsExistProgram (\<lambda>p. p = 100) True True 7 (WritePid True 50 100 None) = Some (True, WritePid True 50 100 None)"
  using IsExistProgram_finds_child [of 50 100 "\<lambda>p. p = 100" True 7 None] by simp

end
