(* ===== verification/Daemon.thy ===== *)
theory Daemon
  imports StartUp AliveCommands
begin

text \<open>
  The running program: the alive threads of the pool, the report thread and the clean thread on
  one descriptor table, their rounds interleaved in any order. A round is one turn of the loop of
  a thread and is not interrupted.
\<close>

section \<open>Turns\<close>

text \<open>A thread of the pool that has not begun has no counters yet.\<close>

record daemon =
  d_alive :: "alive_state option list"
  d_perf :: perfinfo
  d_world :: world

datatype turn = Alive nat | Report | Clean

definition daemon_start :: "nat \<Rightarrow> perfinfo \<Rightarrow> world \<Rightarrow> daemon" where
  "daemon_start k p w = \<lparr>d_alive = replicate k None, d_perf = p, d_world = w\<rparr>"

text \<open>
  The first turn of an alive thread is what \<open>alive_process_thread\<close> does before its loop. A number
  that is not one of a thread is no turn.
\<close>

definition alive_turn :: "env \<Rightarrow> conninfo \<Rightarrow> nat \<Rightarrow> daemon \<Rightarrow> daemon option" where
  "alive_turn e c i d = (
     if length (d_alive d) \<le> i then Some d
     else do {
       (s, w) \<leftarrow> (case d_alive d ! i of
                    None \<Rightarrow> map_option (Pair alive_start) (WriteLog e ''Start Alive'' (- 1) L0 (d_world d))
                  | Some s \<Rightarrow> alive_round e c s (d_world d));
       Some (d\<lparr>d_alive := (d_alive d)[i := Some s], d_world := w\<rparr>) })"

definition daemon_turn :: "env \<Rightarrow> conninfo \<Rightarrow> turn \<Rightarrow> daemon \<Rightarrow> daemon option" where
  "daemon_turn e c t d = (
     case t of
       Alive i \<Rightarrow> alive_turn e c i d
     | Report \<Rightarrow> map_option (\<lambda>(p, w). d\<lparr>d_perf := p, d_world := w\<rparr>) (report_perf_round e (d_perf d) (d_world d))
     | Clean \<Rightarrow> map_option (\<lambda>w. d\<lparr>d_world := w\<rparr>) (clean_round e (d_world d)))"

fun daemon_turns :: "env \<Rightarrow> conninfo \<Rightarrow> turn list \<Rightarrow> daemon \<Rightarrow> daemon option" where
  "daemon_turns e c [] d = Some d"
| "daemon_turns e c (t # ts) d = Option.bind (daemon_turn e c t d) (daemon_turns e c ts)"

section \<open>The descriptors\<close>

text \<open>
  The threads close what they open, but for descriptor 0, which an alive thread that gives up closes
  whosever it is, and the one of the monitor.
\<close>

definition fds_ok :: "perfinfo \<Rightarrow> world \<Rightarrow> bool" where
  "fds_ok p w \<longleftrightarrow> open_fds w \<subseteq> {0, m_hSock p} \<and> - 1 \<notin> open_fds w \<and>
     (m_hSock p \<noteq> 0 \<longrightarrow> (m_hSock p \<in> open_fds w \<longrightarrow> 0 \<le> m_hSock p \<and> m_hSock p < 1024) \<and>
        clean_stream (pending (m_hSock p) w))"

lemma fds_ok_ready: "fds_ok p w \<Longrightarrow> perf_ready p w"
proof -
  assume ok: "fds_ok p w"
  then have "open_fds w \<subseteq> {0, m_hSock p}" by (simp add: fds_ok_def)
  then have "card (open_fds w) \<le> card {0, m_hSock p}" by (intro card_mono) auto
  also have "\<dots> \<le> 2" by (simp add: card_insert_if)
  finally have "card (open_fds w) < 1024" by simp
  with ok show ?thesis by (auto simp: fds_ok_def perf_ready_def is_up_def map_of_keys)
qed

lemma SendToPerf_fds_ok:
  assumes ok: "fds_ok p w" and log: "log_ok e w" and peers: "clean_peers e"
  shows "\<exists>q v. SendToPerf e p w = Some (q, v) \<and> fds_ok q v \<and> m_strLogPath v = m_strLogPath w \<and>
    m_connectioncnt q = 0 \<and> m_serveridx q = m_serveridx p"
proof -
  from SendToPerf_spec [OF log fds_ok_ready [OF ok] peers] obtain fd q v where
    r: "SendToPerf e p w = Some (q, v)"
       "if m_hSock p \<noteq> 0 then fd = m_hSock p else fd = - 1 \<or> 0 \<le> fd \<and> fd < 1024 \<and> fd \<notin> open_fds w"
       "q = p\<lparr>m_connectioncnt := 0, m_hSock := m_hSock q\<rparr>"
       "perf_result fd (request_frame REQ_PERF_REPORT (perf_args p)) w q v" by blast
  have q: "m_connectioncnt q = 0" "m_serveridx q = m_serveridx p" by (subst r(3), simp)+
  have others: "open_fds v - {fd} = open_fds w - {fd}"
    using r(4) unfolding perf_result_def by (metis keys_delete)
  have sub: "open_fds w \<subseteq> {0, fd}" "- 1 \<notin> open_fds w"
    using ok r(2) by (auto simp: fds_ok_def split: if_splits)
  have "fds_ok q v"
  proof (cases "m_hSock q = 0")
    case True
    have "open_fds v \<subseteq> {0}"
    proof (cases "fd = 0")
      case False
      then have "fds v = AList.delete fd (fds w)" using r(4) True sub(2) by (simp add: perf_result_def)
      with sub(1) show ?thesis by auto
    qed (use others sub(1) in auto)
    with True show ?thesis by (auto simp: fds_ok_def)
  next
    case False
    with r(4) have "m_hSock q = fd" "0 \<le> fd" "fd < 1024" "clean_stream (pending fd v)"
      by (auto simp: perf_result_def)
    with others sub show ?thesis by (auto simp: fds_ok_def)
  qed
  moreover have "m_strLogPath v = m_strLogPath w" using r(4) by (simp add: perf_result_def)
  ultimately show ?thesis using r(1) q by blast
qed

lemma kept_fds_ok: "fds_ok p w \<Longrightarrow> kept w w1 \<Longrightarrow> fds_ok p w1"
proof -
  assume ok: "fds_ok p w" and "kept w w1"
  then have d: "AList.delete 0 (fds w1) = AList.delete 0 (fds w)" by (simp add: kept_def only_zero_def)
  then have others: "open_fds w1 - {0} = open_fds w - {0}" by (metis keys_delete)
  have "pending fd w1 = pending fd w" if "fd \<noteq> 0" for fd
  proof -
    have "map_of (AList.delete 0 (fds w1)) fd = map_of (AList.delete 0 (fds w)) fd" by (simp add: d)
    with that show ?thesis by (simp add: pending_def delete_conv)
  qed
  with ok others show ?thesis by (auto simp: fds_ok_def)
qed

section \<open>Any schedule\<close>

text \<open>The log directory, whenever it is read: the path of every entry fits its buffer and \<open>stat\<close> succeeds.\<close>

definition dirs_ok :: "env \<Rightarrow> string \<Rightarrow> bool" where
  "dirs_ok e path \<longleftrightarrow> (\<forall>t ds. e_opendir e t = Some ds \<longrightarrow> names_fit path ds \<and> examined ds = ds)"

lemma clean_round_fds:
  assumes "dirs_ok e (m_strLogPath w)"
  shows "\<exists>w1. clean_round e w = Some w1 \<and> fds w1 = fds w \<and> m_strLogPath w1 = m_strLogPath w"
proof (cases "e_opendir e (tick w)")
  case None
  then show ?thesis by (simp add: clean_round_def ClearOldLog_def sys_opendir_def)
next
  case (Some ds)
  with assms have "names_fit (m_strLogPath w) ds" "examined ds = ds" by (auto simp: dirs_ok_def)
  with ClearOldLog_spec [OF Some] show ?thesis by (auto simp: clean_round_def)
qed

text \<open>The counters of a thread after \<open>n\<close> turns, the first of which only begins.\<close>

definition counted :: "nat \<Rightarrow> alive_state option \<Rightarrow> bool" where
  "counted n a \<longleftrightarrow>
     (case a of
        None \<Rightarrow> n = 0
      | Some s \<Rightarrow> 0 < n \<and> refresh s = (n - 1) mod (REFRESH_INTERVAL + 1) \<and>
          metareport s = (n - 1) mod (METADATA_INTERVAL + 1))"

definition daemon_ok :: "string \<Rightarrow> int \<Rightarrow> nat \<Rightarrow> (turn \<Rightarrow> nat) \<Rightarrow> daemon \<Rightarrow> bool" where
  "daemon_ok path idx k ns d \<longleftrightarrow>
     fds_ok (d_perf d) (d_world d) \<and> m_strLogPath (d_world d) = path \<and>
     perf_args (d_perf d) = [AInt idx, AInt 0] \<and> length (d_alive d) = k \<and>
     (\<forall>i<k. counted (ns (Alive i)) (d_alive d ! i))"

lemma counted_next:
  assumes "counted n (Some s)"
    and "refresh s1 = (if refresh s < REFRESH_INTERVAL then refresh s + 1 else 0)"
    and "metareport s1 = (if metareport s < METADATA_INTERVAL then metareport s + 1 else 0)"
  shows "counted (Suc n) (Some s1)"
proof -
  from assms(1) obtain m where n: "n = Suc m" by (cases n) (auto simp: counted_def)
  have "(if a mod Suc b < b then Suc (a mod Suc b) else 0) = Suc a mod Suc b" for a b :: nat
    using count_mod [of "Suc b" a] by (simp split: if_split_asm)
  from this [of m REFRESH_INTERVAL] this [of m METADATA_INTERVAL] assms show ?thesis
    unfolding n by (simp add: counted_def split: if_split_asm)
qed

lemma daemon_turn_ok:
  assumes m: "machine_ok e c" "clean_peers e" "dirs_ok e path"
    and log: "\<And>w. m_strLogPath w = path \<Longrightarrow> log_ok e w"
    and d: "daemon_ok path idx k ns d"
  shows "\<exists>d1. daemon_turn e c t d = Some d1 \<and> daemon_ok path idx k (ns(t := Suc (ns t))) d1"
proof (cases t)
  case (Alive i)
  show ?thesis
  proof (cases "i < k")
    case False
    with d Alive show ?thesis by (auto simp: daemon_turn_def alive_turn_def daemon_ok_def)
  next
    case i: True
    have l: "log_ok e (d_world d)" using log d by (simp add: daemon_ok_def)
    have c: "counted (ns t) (d_alive d ! i)" using d i Alive by (simp add: daemon_ok_def)
    have "\<exists>s w. (case d_alive d ! i of
          None \<Rightarrow> map_option (Pair alive_start) (WriteLog e ''Start Alive'' (- 1) L0 (d_world d))
        | Some s \<Rightarrow> alive_round e c s (d_world d)) = Some (s, w) \<and> kept (d_world d) w \<and>
        counted (Suc (ns t)) (Some s)"
    proof (cases "d_alive d ! i")
      case None
      with l c show ?thesis by (simp add: counted_def alive_start_def)
    next
      case (Some s)
      with alive_round_spec [OF m(1) l, of s] counted_next c show ?thesis by fastforce
    qed
    then obtain s w where r: "(case d_alive d ! i of
          None \<Rightarrow> map_option (Pair alive_start) (WriteLog e ''Start Alive'' (- 1) L0 (d_world d))
        | Some s \<Rightarrow> alive_round e c s (d_world d)) = Some (s, w)" "kept (d_world d) w"
        "counted (Suc (ns t)) (Some s)" by blast
    have "daemon_turn e c t d = Some (d\<lparr>d_alive := (d_alive d)[i := Some s], d_world := w\<rparr>)"
      using r(1) i d Alive by (simp add: daemon_turn_def alive_turn_def daemon_ok_def)
    with r(2,3) d i Alive kept_fds_ok show ?thesis
      by (auto simp: daemon_ok_def kept_def nth_list_update)
  qed
next
  case Report
  have "fds_ok (d_perf d) (sys_sleep 60 (d_world d)) \<and> log_ok e (sys_sleep 60 (d_world d))"
    using d log by (simp add: daemon_ok_def fds_ok_def pending_def)
  with SendToPerf_fds_ok [OF _ _ m(2)] d Report show ?thesis
    by (fastforce simp: daemon_turn_def report_perf_round_def daemon_ok_def perf_args_def)
next
  case Clean
  from d m(3) have "dirs_ok e (m_strLogPath (d_world d))" by (simp add: daemon_ok_def)
  from clean_round_fds [OF this] d Clean show ?thesis
    by (auto simp: daemon_turn_def daemon_ok_def fds_ok_def pending_def)
qed

lemma daemon_turns_ok:
  assumes m: "machine_ok e c" "clean_peers e" "dirs_ok e path"
    and log: "\<And>w. m_strLogPath w = path \<Longrightarrow> log_ok e w"
  shows "daemon_ok path idx k ns d \<Longrightarrow>
    \<exists>d1. daemon_turns e c ts d = Some d1 \<and> daemon_ok path idx k (\<lambda>t. ns t + count_list ts t) d1"
proof (induction ts arbitrary: ns d)
  case Nil
  then show ?case by simp
next
  case (Cons t ts)
  from daemon_turn_ok [OF m log Cons.prems, of t] obtain d1 where
    d1: "daemon_turn e c t d = Some d1" "daemon_ok path idx k (ns(t := Suc (ns t))) d1" by blast
  have "(\<lambda>u. (ns(t := Suc (ns t))) u + count_list ts u) = (\<lambda>u. ns u + count_list (t # ts) u)" by auto
  with Cons.IH [OF d1(2)] d1(1) show ?case by simp
qed

section \<open>From the start\<close>

lemma init_fds_ok:
  assumes "init_result e p w w1" "open_fds w \<subseteq> {0}"
  shows "fds_ok p w1"
  using assms(1) unfolding init_result_def
proof (elim conjE disjE)
  assume "session (m_hSock p) w w1" "m_hSock p < 1024" "clean_stream (pending (m_hSock p) w1)"
  moreover from this have "open_fds w1 = insert (m_hSock p) (open_fds w)"
    unfolding session_def by (metis insert_Diff keys_delete)
  ultimately show ?thesis using assms(2) by (auto simp: fds_ok_def session_def)
qed (use assms(2) in \<open>auto simp: fds_ok_def pending_def split: option.splits dest: map_of_keys\<close>)

text \<open>With a log directory or without one.\<close>

lemma main_start_fds_ok:
  assumes conf: "read_conf 0 content globals_static = Some g" and ok: "startup_ok e J g"
    and fds: "open_fds w \<subseteq> {0, 1, 2}" and dirs: "dirs_ok e (WMI_MANAGER_LOG_PATH g)"
  shows "\<exists>p c w1. main_start e J (Some content) w = Some (Running (g, p, c), w1) \<and> fds_ok p w1 \<and>
    perf_args p = [AInt (SERVER_INDEX g), AInt 0] \<and> m_strLogPath w1 = WMI_MANAGER_LOG_PATH g \<and>
    (identified e J \<longrightarrow> conninfo_ok c)"
proof -
  let ?w = "close_std e w"
  have empty: "fds ?w = []" using close_std_fds(1) [of e w] fds by (auto simp: keys_Nil_iff [symmetric])
  have len: "length (WMI_MANAGER_LOG_PATH g) < 256" using ok by (simp add: startup_ok_def)
  have "\<exists>w2. InitLog e (WMI_MANAGER_LOG_PATH g) ?w = Some w2 \<and> m_strLogPath w2 = WMI_MANAGER_LOG_PATH g \<and>
    open_fds w2 \<subseteq> {0}"
  proof (cases "e_opendir e (tick ?w)")
    case None
    from InitLog_no_directory [OF this len] empty show ?thesis by auto
  next
    case (Some ds)
    with dirs have "names_fit (WMI_MANAGER_LOG_PATH g) ds" by (simp add: dirs_ok_def)
    from InitLog_spec [OF Some len this] empty show ?thesis by (auto simp: lowest_free_def)
  qed
  then obtain w2 where i: "InitLog e (WMI_MANAGER_LOG_PATH g) ?w = Some w2"
    "m_strLogPath w2 = WMI_MANAGER_LOG_PATH g" "open_fds w2 \<subseteq> {0}" by blast
  have "card (open_fds w2) \<le> card {0 :: int}" using i(3) by (intro card_mono) auto
  then have "card (open_fds w2) < 1024" by simp
  from main_start_from [OF conf ok i(1,2) this] obtain p c w3 w4 where
    m: "main_start e J (Some content) w = Some (Running (g, p, c), w4)" "init_result e p w2 w3"
       "m_connectioncnt p = 0" "m_serveridx p = SERVER_INDEX g" "fds w4 = fds w3"
       "m_strLogPath w4 = WMI_MANAGER_LOG_PATH g" "identified e J \<longrightarrow> conninfo_ok c" by blast
  have "fds_ok p w4" using init_fds_ok [OF m(2) i(3)] m(5) by (simp add: fds_ok_def pending_def)
  with m show ?thesis by (auto simp: perf_args_def)
qed

end
