(* ===== verification/Calculator.thy ===== *)
theory Calculator
  imports C_Text
begin

text \<open>
  \<open>CMyCalc\<close> (inc/mycalc.h, test/INNOLIB/src/mycalc.cpp): an expression in a text and its value as a
  \<open>double\<close>. The arithmetic of \<open>double\<close> is the argument \<open>A\<close> of the definitions. A pointer into the
  text is the list of the characters from there to the end of the block; reading behind the block is
  undefined. What is printed on \<open>stderr\<close> is left out.
\<close>

section \<open>Arithmetic\<close>

text \<open>\<open>d_to_int32\<close> and \<open>d_to_int64\<close>: the casts, undefined outside of the range; \<open>d_atof\<close>: \<open>atof\<close>.\<close>

record 'd arithmetic =
  d_add :: "'d \<Rightarrow> 'd \<Rightarrow> 'd"
  d_sub :: "'d \<Rightarrow> 'd \<Rightarrow> 'd"
  d_mul :: "'d \<Rightarrow> 'd \<Rightarrow> 'd"
  d_div :: "'d \<Rightarrow> 'd \<Rightarrow> 'd"
  d_neg :: "'d \<Rightarrow> 'd"
  d_eq0 :: "'d \<Rightarrow> bool"
  d_less0 :: "'d \<Rightarrow> bool"
  d_of_int :: "int \<Rightarrow> 'd"
  d_to_int32 :: "'d \<Rightarrow> int option"
  d_to_int64 :: "'d \<Rightarrow> int option"
  d_atof :: "string \<Rightarrow> 'd"
  d_PI :: 'd
  d_E :: 'd

section \<open>Characters\<close>

definition TestDelimiter :: "char \<Rightarrow> bool" where
  "TestDelimiter c \<longleftrightarrow> c = CHR ''+'' \<or> c = CHR ''-'' \<or> c = CHR ''*'' \<or> c = CHR ''/'' \<or> c = CHR ''%'' \<or>
     c = CHR '','' \<or> c = CHR '')'' \<or> c = NUL \<or> c = CHR ''&'' \<or> c = CHR ''|'' \<or> c = CHR ''~''"

definition is_sign :: "char \<Rightarrow> bool" where
  "is_sign c \<longleftrightarrow> c = CHR ''+'' \<or> c = CHR ''-''"

definition is_operator :: "char \<Rightarrow> bool" where
  "is_operator c \<longleftrightarrow> c = CHR ''*'' \<or> c = CHR ''/'' \<or> c = CHR ''%'' \<or> c = CHR ''|'' \<or> c = CHR ''&''"

text \<open>The loop over leading signs: \<open>neg\<close> and the rest.\<close>

fun skip_signs :: "bool \<Rightarrow> string \<Rightarrow> (bool \<times> string) option" where
  "skip_signs neg [] = None"
| "skip_signs neg (c # r) =
     (if is_sign c then skip_signs (if c = CHR ''-'' then \<not> neg else neg) r else Some (neg, c # r))"

section \<open>Parentheses\<close>

text \<open>
  The number of characters before the parenthesis that closes \<open>nr\<close> open ones; \<open>Some None\<close> when the text
  ends first.
\<close>

fun close_at :: "nat \<Rightarrow> string \<Rightarrow> nat option option" where
  "close_at nr [] = None"
| "close_at nr (c # r) =
     (if c = NUL then Some None
      else let nr = (if c = CHR ''('' then nr + 1 else if c = CHR '')'' then nr - 1 else nr)
           in if nr = 0 then Some (Some 0) else map_option (map_option Suc) (close_at nr r))"

text \<open>From an opening parenthesis at \<open>i\<close> to where it is closed, and the first comma outside of one.\<close>

function skip_group :: "string \<Rightarrow> nat \<Rightarrow> nat \<Rightarrow> nat \<Rightarrow> nat" where
  "skip_group p sz nr i =
     (if nr = 0 \<or> sz \<le> i then i
      else let c = p ! Suc i
           in skip_group p sz (if c = CHR ''('' then nr + 1 else if c = CHR '')'' then nr - 1 else nr) (Suc i))"
  by pat_completeness auto
termination by (relation "measure (\<lambda>(p, sz, nr, i). sz - i)") auto

declare skip_group.simps [simp del]

lemma skip_group_le: "i \<le> skip_group p sz nr i"
proof (induction p sz nr i rule: skip_group.induct)
  case (1 p sz nr i)
  then show ?case by (subst skip_group.simps) (force simp: Let_def)
qed

function comma_at :: "string \<Rightarrow> nat \<Rightarrow> nat \<Rightarrow> nat" where
  "comma_at p sz i =
     (if sz \<le> i then i
      else let j = (if p ! i = CHR ''('' then skip_group p sz 1 i else i)
           in if p ! j = CHR '','' then j else comma_at p sz (Suc j))"
  by pat_completeness auto
termination
proof (relation "measure (\<lambda>(p, sz, i). sz - i)")
  fix p sz i j assume "\<not> sz \<le> (i :: nat)" "j = (if p ! i = CHR ''('' then skip_group p sz 1 i else i)"
  moreover from this have "i \<le> j" using skip_group_le [of i p sz 1] by simp
  ultimately show "((p, sz, Suc j), p, sz, i) \<in> measure (\<lambda>(p, sz, i). sz - i)" by simp
qed simp

declare comma_at.simps [simp del]

section \<open>Numbers\<close>

definition hex_value :: "char \<Rightarrow> nat option" where
  "hex_value c = (
     let n = of_char c :: nat
     in if 48 \<le> n \<and> n \<le> 57 then Some (n - 48)
        else if 97 \<le> n \<and> n \<le> 102 then Some (n - 87)
        else if 65 \<le> n \<and> n \<le> 70 then Some (n - 55)
        else None)"

text \<open>
  \<open>sscanf(p,"%x",&i)\<close> and the loop behind it, on what follows 0x. A value that is no 32-bit number is
  undefined; from \<open>2 ^ 31\<close> on \<open>i\<close> becomes negative.
\<close>

definition hex_number :: "string \<Rightarrow> (int \<times> nat) option" where
  "hex_number r = (
     let digits = takeWhile (\<lambda>c. hex_value c \<noteq> None) r;
         v = foldl (\<lambda>a c. 16 * a + int (the (hex_value c))) 0 digits
     in if digits = r \<or> 2 ^ 32 \<le> v then None
        else Some (sint (word_of_int v :: 32 word), 2 + length digits))"

text \<open>The digits after 0b.\<close>

fun binary_number :: "string \<Rightarrow> int \<Rightarrow> nat \<Rightarrow> (int \<times> nat) option" where
  "binary_number [] i move = None"
| "binary_number (c # r) i move =
     (if c = CHR ''0'' \<or> c = CHR ''1'' then do {
        i \<leftarrow> c_int (i * 2);
        binary_number r (if c = CHR ''1'' then i + 1 else i) (move + 1) }
      else Some (i, move))"

text \<open>Where a decimal number ends. A second point makes it an identifier of the MIB, whose value is 0.\<close>

definition after_sign :: "string \<Rightarrow> string" where
  "after_sign r = (case r of c # r' \<Rightarrow> if is_sign c then r' else r | [] \<Rightarrow> [])"

definition after_char :: "char \<Rightarrow> string \<Rightarrow> string" where
  "after_char d r = (case r of c # r' \<Rightarrow> if c = d then r' else r | [] \<Rightarrow> [])"

definition after_digits :: "string \<Rightarrow> string" where
  "after_digits r = dropWhile isdigit r"

definition decimal_end :: "string \<Rightarrow> bool \<times> string" where
  "decimal_end p = (
     let r = after_digits (after_char (CHR ''.'') (after_digits (after_sign p)));
         (mib, r) = (case r of
            c # r' \<Rightarrow> if c = CHR ''.'' then (True, dropWhile (\<lambda>c. isdigit c \<or> c = CHR ''.'') r')
                     else if c = CHR ''e'' \<or> c = CHR ''E'' then (False, after_digits (after_sign r'))
                     else (False, r)
          | [] \<Rightarrow> (False, []))
     in (mib, after_char (CHR ''i'') r))"

text \<open>A name: the two constants, or 0 without moving; the characters go to an array of 100.\<close>

definition name_value :: "'d arithmetic \<Rightarrow> string \<Rightarrow> ('d \<times> nat) option" where
  "name_value A p = (
     if take 2 p = ''pi'' \<and> length p = 2 then None
     else if take 2 p = ''pi'' \<and> TestDelimiter (p ! 2) then Some (d_PI A, 2)
     else if take 1 p = ''e'' \<and> length p = 1 then None
     else if take 1 p = ''e'' \<and> TestDelimiter (p ! 1) then Some (d_E A, 1)
     else let tmp = takeWhile (\<lambda>c. \<not> TestDelimiter c) p
          in if tmp = p \<or> 100 \<le> length tmp then None else Some (d_of_int A 0, 0))"

text \<open>\<open>GetNumber\<close> on anything but an opening parenthesis.\<close>

definition literal :: "'d arithmetic \<Rightarrow> string \<Rightarrow> ('d \<times> nat) option" where
  "literal A p = (
     case p of
       [] \<Rightarrow> None
     | c # r \<Rightarrow>
         if c = CHR ''0'' \<and> r = [] then None
         else if c = CHR ''0'' \<and> (hd r = CHR ''x'' \<or> hd r = CHR ''X'')
         then map_option (\<lambda>(i, move). (d_of_int A i, move)) (hex_number (tl r))
         else if c = CHR ''0'' \<and> (hd r = CHR ''b'' \<or> hd r = CHR ''B'')
         then map_option (\<lambda>(i, move). (d_of_int A i, move)) (binary_number (tl r) 0 2)
         else if isdigit c \<or> c = CHR ''.''
         then do {
           s \<leftarrow> c_str p;
           let (mib, rest) = decimal_end p;
           Some (if mib then d_of_int A 0 else d_atof A s, length p - length rest) }
         else name_value A p)"

section \<open>Operators\<close>

text \<open>The result of an operator, or \<open>Zero\<close> where \<open>Calc\<close> returns 0 at once.\<close>

datatype 'd op_result = Go 'd | Zero

definition apply_operator :: "'d arithmetic \<Rightarrow> char \<Rightarrow> 'd \<Rightarrow> 'd \<Rightarrow> 'd op_result option" where
  "apply_operator A c d1 d2 = (
     if c = CHR ''|'' then do {
       x \<leftarrow> d_to_int64 A d1;
       if x \<noteq> 0 then Some (Go (d_of_int A 1))
       else map_option (\<lambda>y. Go (d_of_int A (if y \<noteq> 0 then 1 else 0))) (d_to_int64 A d2) }
     else if c = CHR ''&'' then do {
       x \<leftarrow> d_to_int64 A d1;
       if x = 0 then Some (Go (d_of_int A 0))
       else map_option (\<lambda>y. Go (d_of_int A (if y \<noteq> 0 then 1 else 0))) (d_to_int64 A d2) }
     else if c = CHR ''*'' then Some (Go (d_mul A d1 d2))
     else if d_eq0 A d2 then Some Zero
     else if c = CHR ''/'' then Some (Go (d_div A d1 d2))
     else map_option (\<lambda>times. Go (d_sub A d1 (d_mul A (d_of_int A times) d2))) (d_to_int32 A (d_div A d1 d2)))"

definition with_sign :: "'d arithmetic \<Rightarrow> bool \<Rightarrow> 'd \<Rightarrow> 'd" where
  "with_sign A neg d = (if neg then d_neg A d else d)"

text \<open>\<open>Factorial\<close>, which nothing calls any more.\<close>

definition Factorial :: "'d arithmetic \<Rightarrow> 'd \<Rightarrow> 'd option" where
  "Factorial A x = (
     if d_less0 A x then Some (d_of_int A 0)
     else do {
       n \<leftarrow> d_to_int32 A x;
       if n = INT_MAX then None
       else Some (foldl (\<lambda>d i. d_mul A d (d_of_int A i)) (d_of_int A 1) [1..n]) })"

section \<open>Evaluation\<close>

text \<open>
  \<open>Calc p len\<close>, its loop, \<open>GetNumber\<close> and \<open>Funk\<close>. Instead of \<open>pos\<close> the loop has the text from there
  and \<open>left = len - pos\<close>. \<open>x\<close> and \<open>y\<close> of \<open>GetNumber\<close> are not initialised: they are \<open>None\<close> until \<open>Funk\<close>
  assigns them.
\<close>

lemma skip_signs_Some:
  "skip_signs neg r = Some (neg1, s) \<Longrightarrow>
   length s \<le> length r \<and> s \<noteq> [] \<and> \<not> is_sign (hd s) \<and> (is_sign (hd r) \<longrightarrow> length s < length r) \<and>
   (\<not> is_sign (hd r) \<longrightarrow> s = r \<and> neg1 = neg) \<and> (\<exists>t. r = t @ s \<and> (\<forall>c\<in>set t. is_sign c))"
proof (induction neg r rule: skip_signs.induct)
  case (2 neg c r)
  then show ?case by (fastforce split: if_splits intro: exI [of _ "c # _"])
qed simp

lemmas [fundef_cong] = bind_option_cong

definition calc_measure :: "string \<Rightarrow> nat" where
  "calc_measure p = 4 * length p + (if p \<noteq> [] \<and> is_sign (hd p) then 0 else 2)"

function (sequential) Calc :: "'d arithmetic \<Rightarrow> string \<Rightarrow> int \<Rightarrow> 'd option"
  and calc_loop :: "'d arithmetic \<Rightarrow> string \<Rightarrow> int \<Rightarrow> 'd \<Rightarrow> 'd option"
  and GetNumber :: "'d arithmetic \<Rightarrow> string \<Rightarrow> ('d \<times> nat) option"
  and Funk :: "'d arithmetic \<Rightarrow> string \<Rightarrow> bool \<Rightarrow> (nat \<times> 'd option \<times> 'd option) option"
where
  "Calc A p len = do {
     (neg, s) \<leftarrow> skip_signs False p;
     (d1, move) \<leftarrow> GetNumber A s;
     calc_loop A (drop move s) (len - int (length p - length s) - int move) (with_sign A neg d1) }"
| "calc_loop A p left d1 = (
     if left \<le> 0 then Some d1
     else case p of
       [] \<Rightarrow> None
     | c # r \<Rightarrow>
         if is_sign c then Option.bind (Calc A p left) (\<lambda>d. Some (d_add A d1 d))
         else if is_operator c then do {
           (neg, s) \<leftarrow> skip_signs False r;
           (d2, move) \<leftarrow> GetNumber A s;
           res \<leftarrow> apply_operator A c d1 (with_sign A neg d2);
           case res of
             Zero \<Rightarrow> Some (d_of_int A 0)
           | Go d \<Rightarrow> calc_loop A (drop move s) (left - 1 - int (length r - length s) - int move) d }
         else Some (d_of_int A 0))"
| "GetNumber A p = (
     case p of
       [] \<Rightarrow> None
     | c # r \<Rightarrow>
         if c = CHR ''('' then do {
           (n, x, y) \<leftarrow> Funk A r False;
           d \<leftarrow> x;
           Some (d, 1 + n) }
         else literal A p)"
| "Funk A p binary = do {
     closed \<leftarrow> close_at 1 p;
     case closed of
       None \<Rightarrow> Some (0, None, None)
     | Some sz \<Rightarrow>
         if binary then
           let i = comma_at p sz 0
           in if i = sz then Some (sz + 1, None, None)
              else do {
                x \<leftarrow> Calc A p (int i);
                y \<leftarrow> Calc A (drop (i + 1) p) (int sz - int i - 1);
                Some (sz + 1, Some x, Some y) }
         else do {
           x \<leftarrow> Calc A p (int sz);
           Some (sz + 1, Some x, None) } }"
  by pat_completeness auto

termination
  by (relation "measure (\<lambda>x. case x of
        Inl (Inl (A, p, len)) \<Rightarrow> calc_measure p
      | Inl (Inr (A, p, left, d1)) \<Rightarrow> 4 * length p + 1
      | Inr (Inl (A, p)) \<Rightarrow> 4 * length p
      | Inr (Inr (A, p, binary)) \<Rightarrow> 4 * length p + 3)")
    (auto simp: calc_measure_def dest!: skip_signs_Some)

declare Calc.simps [simp del] calc_loop.simps [simp del] GetNumber.simps [simp del] Funk.simps [simp del]

text \<open>The text without white space, in an array of 5000, and only what follows an equals sign.\<close>

definition Calc_text :: "'d arithmetic \<Rightarrow> string \<Rightarrow> 'd option" where
  "Calc_text A psz = do {
     s \<leftarrow> c_str psz;
     let p = filter (\<lambda>c. \<not> isspace c) s;
     if p = [] then Some (d_of_int A 0)
     else if 5000 \<le> length p then None
     else let q = (if CHR ''='' \<in> set p then tl (dropWhile (\<lambda>c. c \<noteq> CHR ''='') p) else p)
          in Calc A (q @ [NUL]) (int (length q)) }"

end
