(* ===== verification/CalcSpec.thy ===== *)
theory CalcSpec
  imports Calculator
begin

text \<open>
  The properties of the calculator: sums, differences and products of numbers, with parentheses, have
  the value they have in arithmetic; and what a text must not contain for \<open>Calc\<close> to be defined on it.
\<close>

section \<open>Expressions\<close>

datatype expr = Num nat | Plus expr expr | Minus expr expr | Times expr expr

fun val :: "expr \<Rightarrow> int" where
  "val (Num n) = int n"
| "val (Plus a b) = val a + val b"
| "val (Minus a b) = val a - val b"
| "val (Times a b) = val a * val b"

text \<open>A bound on every number that comes up on the way.\<close>

fun mag :: "expr \<Rightarrow> int" where
  "mag (Num n) = int n"
| "mag (Plus a b) = mag a + mag b"
| "mag (Minus a b) = mag a + mag b"
| "mag (Times a b) = mag a * mag b"

text \<open>An expression as one writes it: at level 0 a sum, at level 1 a product, at level 2 a factor.\<close>

definition paren :: "bool \<Rightarrow> string \<Rightarrow> string" where
  "paren b s = (if b then ''('' @ s @ '')'' else s)"

fun show_expr :: "nat \<Rightarrow> expr \<Rightarrow> string" where
  "show_expr p (Num n) = dec n"
| "show_expr p (Plus a b) = paren (0 < p) (show_expr 0 a @ ''+'' @ show_expr 1 b)"
| "show_expr p (Minus a b) = paren (0 < p) (show_expr 0 a @ ''-'' @ show_expr 1 b)"
| "show_expr p (Times a b) = paren (1 < p) (show_expr 1 a @ ''*'' @ show_expr 2 b)"

lemma mag_nonneg [simp]: "0 \<le> mag e"
  by (induction e) auto

lemma val_mag: "\<bar>val e\<bar> \<le> mag e"
proof (induction e)
  case (Times a b)
  then show ?case by (simp add: abs_mult mult_mono)
qed (auto simp: abs_le_iff)

lemma mag_Times: "\<bar>val a * val b\<bar> \<le> mag a * mag b"
  using val_mag [of "Times a b"] by simp

section \<open>Exact arithmetic\<close>

text \<open>
  \<open>R d n\<close>: the \<open>double\<close> \<open>d\<close> has the integer value \<open>n\<close>. Up to \<open>2 ^ 53\<close> the operations are exact, and
  \<open>atof\<close> reads a number up to the first character that cannot continue it.
\<close>

definition exact :: "'d arithmetic \<Rightarrow> ('d \<Rightarrow> int \<Rightarrow> bool) \<Rightarrow> bool" where
  "exact A R \<longleftrightarrow>
     (\<forall>x y m n. R x m \<and> R y n \<and> \<bar>m + n\<bar> \<le> 2 ^ 53 \<longrightarrow> R (d_add A x y) (m + n)) \<and>
     (\<forall>x y m n. R x m \<and> R y n \<and> \<bar>m * n\<bar> \<le> 2 ^ 53 \<longrightarrow> R (d_mul A x y) (m * n)) \<and>
     (\<forall>x m. R x m \<longrightarrow> R (d_neg A x) (- m)) \<and>
     (\<forall>n s. int n \<le> 2 ^ 53 \<and> (s = [] \<or> hd s \<in> set ''+-*)'') \<longrightarrow> R (d_atof A (dec n @ s)) (int n))"

lemma exactD:
  assumes "exact A R"
  shows "R x m \<Longrightarrow> R y n \<Longrightarrow> \<bar>m + n\<bar> \<le> 2 ^ 53 \<Longrightarrow> R (d_add A x y) (m + n)"
    and "R x m \<Longrightarrow> R y n \<Longrightarrow> \<bar>m * n\<bar> \<le> 2 ^ 53 \<Longrightarrow> R (d_mul A x y) (m * n)"
    and "R x m \<Longrightarrow> R (with_sign A neg x) (if neg then - m else m)"
    and "int k \<le> 2 ^ 53 \<Longrightarrow> s = [] \<or> hd s \<in> set ''+-*)'' \<Longrightarrow> R (d_atof A (dec k @ s)) (int k)"
  using assms unfolding exact_def with_sign_def by (simp_all del: list.set)

section \<open>Pieces of text\<close>

definition ends :: "string \<Rightarrow> bool" where
  "ends r \<longleftrightarrow> NUL \<in> set r \<and> hd r \<in> set (NUL # ''+-*)'')"

lemma ends_Cons: "c \<in> set ''+-*)'' \<Longrightarrow> NUL \<in> set r \<Longrightarrow> ends (c # r)"
  by (auto simp: ends_def)

lemma ends_not_digit: "ends r \<Longrightarrow> r \<noteq> [] \<and> \<not> isdigit (hd r)"
  by (auto simp: ends_def isdigit_def)

lemma dec_digits: "\<forall>c\<in>set (dec n). isdigit c"
  using dec_isdigit by blast

lemma dec_Cons: obtains c r where "dec n = c # r" "isdigit c" "\<forall>d\<in>set r. isdigit d"
  using dec_digits [of n] by (cases "dec n") auto

lemma digit_not: "isdigit c \<Longrightarrow> c \<noteq> NUL \<and> c \<noteq> CHR ''('' \<and> c \<noteq> CHR '')'' \<and> c \<noteq> CHR ''+'' \<and> c \<noteq> CHR ''-'' \<and>
  c \<noteq> CHR ''.'' \<and> c \<noteq> CHR ''x'' \<and> c \<noteq> CHR ''X'' \<and> c \<noteq> CHR ''b'' \<and> c \<noteq> CHR ''B'' \<and> c \<noteq> CHR ''='' \<and> \<not> isspace c"
  by (auto simp: isdigit_def isspace_def)

lemma decimal_end_dec: "ends r \<Longrightarrow> decimal_end (dec n @ r) = (False, r)"
proof -
  assume r: "ends r"
  obtain c t where c: "dec n = c # t" "isdigit c" "\<forall>d\<in>set t. isdigit d" by (rule dec_Cons)
  have "after_sign (dec n @ r) = dec n @ r"
    using digit_not [OF c(2)] by (simp add: after_sign_def c(1) is_sign_def)
  moreover have "after_digits (dec n @ r) = r"
    using ends_not_digit [OF r] dec_digits [of n] by (cases r) (auto simp: after_digits_def dropWhile_append2)
  moreover have "after_char (CHR ''.'') r = r" "after_char (CHR ''i'') r = r" "after_digits r = r"
    "case r of [] \<Rightarrow> True | c # _ \<Rightarrow> c \<noteq> CHR ''.'' \<and> c \<noteq> CHR ''e'' \<and> c \<noteq> CHR ''E''"
    using r ends_not_digit [OF r] by (cases r; auto simp: ends_def after_char_def after_digits_def)+
  ultimately show ?thesis by (cases r) (simp_all add: decimal_end_def)
qed

lemma literal_dec:
  assumes "ends r"
  shows "literal A (dec n @ r) = Some (d_atof A (dec n @ takeWhile (\<lambda>c. c \<noteq> NUL) r), length (dec n))"
proof -
  obtain c t where c: "dec n = c # t" "isdigit c" "\<forall>d\<in>set t. isdigit d" by (rule dec_Cons)
  have next_char: "hd (t @ r) \<noteq> CHR ''x'' \<and> hd (t @ r) \<noteq> CHR ''X'' \<and> hd (t @ r) \<noteq> CHR ''b'' \<and> hd (t @ r) \<noteq> CHR ''B''"
    using c(3) assms digit_not by (cases t) (auto simp: ends_def)
  have "NUL \<notin> set (dec n)" using dec_digits [of n] digit_not by blast
  then have "c_str (dec n @ r) = Some (dec n @ takeWhile (\<lambda>c. c \<noteq> NUL) r)"
    using assms by (auto simp: c_str_def ends_def takeWhile_append)
  with next_char c(1,2) ends_not_digit [OF assms] decimal_end_dec [OF assms, of n] show ?thesis
    by (simp add: literal_def)
qed

lemma takeWhile_ends: "ends r \<Longrightarrow> takeWhile (\<lambda>c. c \<noteq> NUL) r = [] \<or> hd (takeWhile (\<lambda>c. c \<noteq> NUL) r) \<in> set ''+-*)''"
  by (cases r) (auto simp: ends_def)

section \<open>Parentheses match\<close>

definition shift :: "nat \<Rightarrow> nat option option \<Rightarrow> nat option option" where
  "shift n = map_option (map_option (\<lambda>x. n + x))"

lemma shift_simps [simp]:
  "shift n (Some (Some m)) = Some (Some (n + m))" "shift m (shift n x) = shift (m + n) x" "shift 0 x = x"
  by (cases x; cases "the x"; simp add: shift_def)+

text \<open>A text that opens and closes as many, never closing more.\<close>

definition balanced :: "string \<Rightarrow> bool" where
  "balanced t \<longleftrightarrow> (\<forall>nr r. 0 < nr \<longrightarrow> close_at nr (t @ r) = shift (length t) (close_at nr r))"

lemma balancedD: "balanced t \<Longrightarrow> 0 < nr \<Longrightarrow> close_at nr (t @ r) = shift (length t) (close_at nr r)"
  by (simp add: balanced_def)

lemma close_at_step:
  "0 < nr \<Longrightarrow> c \<noteq> NUL \<Longrightarrow> c \<noteq> CHR '')'' \<Longrightarrow>
   close_at nr (c # r) = shift 1 (close_at (if c = CHR ''('' then nr + 1 else nr) r)"
  by (simp add: shift_def)

lemma close_at_down: "0 < nr \<Longrightarrow> close_at (nr + 1) (CHR '')'' # r) = shift 1 (close_at nr r)"
  by (simp add: shift_def)

lemma balanced_append: "balanced s \<Longrightarrow> balanced t \<Longrightarrow> balanced (s @ t)"
  unfolding balanced_def by simp

lemma balanced_char:
  assumes "c \<noteq> NUL" "c \<noteq> CHR ''(''" "c \<noteq> CHR '')''" "balanced t"
  shows "balanced (c # t)"
  using assms(4) close_at_step [OF _ assms(1,3)] assms(2) unfolding balanced_def
  by (simp del: close_at.simps)

lemma balanced_Nil: "balanced []"
  by (simp add: balanced_def)

lemma balanced_plain: "\<forall>c\<in>set t. c \<noteq> NUL \<and> c \<noteq> CHR ''('' \<and> c \<noteq> CHR '')'' \<Longrightarrow> balanced t"
  by (induction t) (simp_all add: balanced_Nil balanced_char)

lemma balanced_paren: "balanced t \<Longrightarrow> balanced (paren b t)"
proof (cases b)
  case True
  assume t: "balanced t"
  have "close_at nr (CHR ''('' # t @ CHR '')'' # r) = shift (length t + 2) (close_at nr r)"
    if "0 < nr" for nr r
  proof -
    have "close_at (nr + 1) (t @ CHR '')'' # r) = shift (length t) (close_at (nr + 1) (CHR '')'' # r))"
      by (rule balancedD [OF t]) simp
    also have "\<dots> = shift (length t + 1) (close_at nr r)" by (simp only: close_at_down [OF that] shift_simps)
    finally show ?thesis using close_at_step [OF that, of "CHR ''(''"] by (simp del: close_at.simps)
  qed
  with True show ?thesis unfolding balanced_def paren_def by (simp del: close_at.simps)
qed (simp add: paren_def)

lemma balanced_show: "balanced (show_expr p e)"
proof (induction e arbitrary: p)
  case (Num n)
  show ?case using dec_digits [of n] digit_not by (simp add: balanced_plain)
qed (simp_all add: balanced_paren balanced_append balanced_char)

lemma close_at_show: "close_at 1 (show_expr p e @ CHR '')'' # r) = Some (Some (length (show_expr p e)))"
proof -
  have "close_at 1 (show_expr p e @ CHR '')'' # r) = shift (length (show_expr p e)) (close_at 1 (CHR '')'' # r))"
    by (rule balancedD [OF balanced_show]) simp
  then show ?thesis by simp
qed

lemma show_first: "show_expr p e \<noteq> [] \<and> (isdigit (hd (show_expr p e)) \<or> hd (show_expr p e) = CHR ''('')"
proof (induction e arbitrary: p)
  case (Num n)
  obtain c r where "dec n = c # r" "isdigit c" by (rule dec_Cons)
  then show ?case by simp
qed (auto simp: paren_def hd_append)

lemma show_no_sign: "\<not> is_sign (hd (show_expr p e @ r))"
  using show_first [of p e] by (auto simp: is_sign_def hd_append isdigit_def)

section \<open>Steps of the evaluation\<close>

text \<open>From a factor on, its signs behind it.\<close>

definition from_factor :: "'d arithmetic \<Rightarrow> bool \<Rightarrow> string \<Rightarrow> int \<Rightarrow> 'd option" where
  "from_factor A neg s left = do {
     (d, move) \<leftarrow> GetNumber A s;
     calc_loop A (drop move s) (left - int move) (with_sign A neg d) }"

lemma skip_no_signs: "s \<noteq> [] \<Longrightarrow> \<not> is_sign (hd s) \<Longrightarrow> skip_signs neg s = Some (neg, s)"
  by (cases s) simp_all

lemma Calc_factor: "s \<noteq> [] \<Longrightarrow> \<not> is_sign (hd s) \<Longrightarrow> Calc A s len = from_factor A False s len"
  by (simp add: Calc.simps skip_no_signs from_factor_def)

lemma Calc_sign:
  "is_sign c \<Longrightarrow> s \<noteq> [] \<Longrightarrow> \<not> is_sign (hd s) \<Longrightarrow> Calc A (c # s) len = from_factor A (c = CHR ''-'') s (len - 1)"
  by (simp add: Calc.simps skip_no_signs from_factor_def algebra_simps)

lemma calc_loop_times:
  "0 < left \<Longrightarrow> s \<noteq> [] \<Longrightarrow> \<not> is_sign (hd s) \<Longrightarrow>
   calc_loop A (CHR ''*'' # s) left d1 = do {
     (d2, move) \<leftarrow> GetNumber A s;
     calc_loop A (drop move s) (left - 1 - int move) (d_mul A d1 d2) }"
  by (subst calc_loop.simps)
    (simp add: skip_no_signs is_sign_def is_operator_def apply_operator_def with_sign_def)

lemma calc_loop_end: "left \<le> 0 \<Longrightarrow> calc_loop A s left d = Some d"
  by (subst calc_loop.simps) simp

lemma calc_loop_sign:
  "0 < left \<Longrightarrow> s \<noteq> [] \<Longrightarrow> is_sign (hd s) \<Longrightarrow>
   calc_loop A s left d1 = Option.bind (Calc A s left) (\<lambda>d. Some (d_add A d1 d))"
  by (cases s) (simp_all add: calc_loop.simps)

lemma GetNumber_literal: "s \<noteq> [] \<Longrightarrow> hd s \<noteq> CHR ''('' \<Longrightarrow> GetNumber A s = literal A s"
  by (cases s) (simp_all add: GetNumber.simps literal_def)

lemma GetNumber_paren:
  "close_at 1 r = Some (Some sz) \<Longrightarrow>
   GetNumber A (CHR ''('' # r) = Option.bind (Calc A r (int sz)) (\<lambda>x. Some (x, 2 + sz))"
  by (simp add: GetNumber.simps Funk.simps)

section \<open>Values\<close>

definition factor_ok :: "'d arithmetic \<Rightarrow> ('d \<Rightarrow> int \<Rightarrow> bool) \<Rightarrow> expr \<Rightarrow> bool" where
  "factor_ok A R e \<longleftrightarrow> (\<forall>r. ends r \<longrightarrow>
     (\<exists>d. GetNumber A (show_expr 2 e @ r) = Some (d, length (show_expr 2 e)) \<and> R d (val e)))"

definition term_ok :: "'d arithmetic \<Rightarrow> ('d \<Rightarrow> int \<Rightarrow> bool) \<Rightarrow> expr \<Rightarrow> bool" where
  "term_ok A R e \<longleftrightarrow> (\<forall>neg r left. ends r \<and> int (length (show_expr 1 e)) \<le> left \<longrightarrow>
     (\<exists>d. from_factor A neg (show_expr 1 e @ r) left = calc_loop A r (left - int (length (show_expr 1 e))) d \<and>
        R d (if neg then - val e else val e)))"

text \<open>What is left of a sum and the value it adds.\<close>

definition rest_value :: "'d arithmetic \<Rightarrow> ('d \<Rightarrow> int \<Rightarrow> bool) \<Rightarrow> string \<Rightarrow> int \<Rightarrow> int \<Rightarrow> bool" where
  "rest_value A R r left V \<longleftrightarrow>
     (if left \<le> 0 then V = 0 else is_sign (hd r) \<and> (\<exists>d. Calc A r left = Some d \<and> R d V))"

definition sum_ok :: "'d arithmetic \<Rightarrow> ('d \<Rightarrow> int \<Rightarrow> bool) \<Rightarrow> expr \<Rightarrow> bool" where
  "sum_ok A R e \<longleftrightarrow> (\<forall>r left V. ends r \<and> int (length (show_expr 0 e)) \<le> left \<and>
     rest_value A R r (left - int (length (show_expr 0 e))) V \<and> \<bar>V\<bar> + mag e \<le> 2 ^ 53 \<longrightarrow>
     (\<exists>d. Calc A (show_expr 0 e @ r) left = Some d \<and> R d (val e + V)))"

lemma add_rest:
  assumes "exact A R" "R d n" "rest_value A R r left V" "ends r" "\<bar>n + V\<bar> \<le> 2 ^ 53"
  shows "\<exists>x. calc_loop A r left d = Some x \<and> R x (n + V)"
proof (cases "left \<le> 0")
  case True
  with assms(2,3) show ?thesis by (simp add: rest_value_def calc_loop_end)
next
  case False
  with assms(3) obtain x where "is_sign (hd r)" "Calc A r left = Some x" "R x V"
    by (auto simp: rest_value_def)
  with False assms(1,2,4,5) ends_not_digit [OF assms(4)] show ?thesis
    by (simp add: calc_loop_sign exactD(1))
qed

lemma factor_term:
  assumes ex: "exact A R" and same: "show_expr 1 e = show_expr 2 e" and f: "factor_ok A R e"
  shows "term_ok A R e"
  unfolding term_ok_def
proof (intro allI impI, elim conjE)
  fix neg r and left :: int
  assume "ends r"
  with f obtain d where "GetNumber A (show_expr 2 e @ r) = Some (d, length (show_expr 2 e))" "R d (val e)"
    by (auto simp: factor_ok_def)
  then show "\<exists>d. from_factor A neg (show_expr 1 e @ r) left =
      calc_loop A r (left - int (length (show_expr 1 e))) d \<and> R d (if neg then - val e else val e)"
    using exactD(3) [OF ex, of d "val e" neg] unfolding same by (auto simp: from_factor_def)
qed

lemma term_okD:
  "term_ok A R e \<Longrightarrow> ends r \<Longrightarrow> int (length (show_expr 1 e)) \<le> left \<Longrightarrow>
   \<exists>d. from_factor A neg (show_expr 1 e @ r) left = calc_loop A r (left - int (length (show_expr 1 e))) d \<and>
     R d (if neg then - val e else val e)"
  unfolding term_ok_def by blast

lemma term_sum:
  assumes ex: "exact A R" and same: "show_expr 0 e = show_expr 1 e" and t: "term_ok A R e"
  shows "sum_ok A R e"
  unfolding sum_ok_def
proof (intro allI impI, elim conjE)
  fix r V and left :: int
  assume r: "ends r" "int (length (show_expr 0 e)) \<le> left"
    and v: "rest_value A R r (left - int (length (show_expr 0 e))) V" "\<bar>V\<bar> + mag e \<le> 2 ^ 53"
  from term_okD [OF t r(1) r(2) [unfolded same], of False] obtain d where
    d: "from_factor A False (show_expr 1 e @ r) left =
      calc_loop A r (left - int (length (show_expr 1 e))) d" "R d (val e)" by auto
  have "\<bar>val e + V\<bar> \<le> 2 ^ 53" using val_mag [of e] v(2) by linarith
  from add_rest [OF ex d(2) v(1) r(1) this] d(1) show
    "\<exists>d. Calc A (show_expr 0 e @ r) left = Some d \<and> R d (val e + V)"
    using show_first [of 1 e] show_no_sign [of 1 e r] unfolding same by (simp add: Calc_factor)
qed

lemma sum_factor:
  assumes same: "show_expr 2 e = paren True (show_expr 0 e)" and s: "sum_ok A R e" "mag e \<le> 2 ^ 53"
  shows "factor_ok A R e"
  unfolding factor_ok_def
proof (intro allI impI)
  fix r
  assume r: "ends r"
  let ?n = "length (show_expr 0 e)"
  have "ends ('')'' @ r)" using r by (auto simp: ends_def)
  then obtain d where "Calc A (show_expr 0 e @ '')'' @ r) (int ?n) = Some d" "R d (val e)"
    using s by (fastforce simp: sum_ok_def rest_value_def)
  with GetNumber_paren [OF close_at_show [of 0 e], of A] show
    "\<exists>d. GetNumber A (show_expr 2 e @ r) = Some (d, length (show_expr 2 e)) \<and> R d (val e)"
    unfolding same by (simp add: paren_def)
qed

lemma product_term:
  assumes ex: "exact A R" and a: "term_ok A R a" and b: "factor_ok A R b" and m: "mag (Times a b) \<le> 2 ^ 53"
  shows "term_ok A R (Times a b)"
  unfolding term_ok_def
proof (intro allI impI, elim conjE)
  fix neg r and left :: int
  let ?a = "show_expr 1 a" and ?b = "show_expr 2 b"
  assume r: "ends r" "int (length (show_expr 1 (Times a b))) \<le> left"
  have len: "length (show_expr 1 (Times a b)) = length ?a + 1 + length ?b" by (simp add: paren_def)
  have r1: "ends (''*'' @ ?b @ r)" using r(1) by (auto simp: ends_def)
  have "int (length ?a) \<le> left" using r(2) len by simp
  from term_okD [OF a r1 this, of neg] obtain x where x: "from_factor A neg (?a @ ''*'' @ ?b @ r) left =
      calc_loop A (''*'' @ ?b @ r) (left - int (length ?a)) x" "R x (if neg then - val a else val a)" by blast
  from b r(1) obtain y where y: "GetNumber A (?b @ r) = Some (y, length ?b)" "R y (val b)"
    by (auto simp: factor_ok_def)
  have "\<bar>(if neg then - val a else val a) * val b\<bar> \<le> 2 ^ 53" using mag_Times [of a b] m by (simp split: if_splits)
  from exactD(2) [OF ex x(2) y(2) this] have "R (d_mul A x y) (if neg then - val (Times a b) else val (Times a b))"
    by (simp split: if_splits)
  moreover have "0 < left - int (length ?a)" using r(2) len by simp
  then have "calc_loop A (''*'' @ ?b @ r) (left - int (length ?a)) x =
      calc_loop A r (left - int (length ?a) - 1 - int (length ?b)) (d_mul A x y)"
    using y(1) show_first [of 2 b] show_no_sign [of 2 b r] by (simp add: calc_loop_times)
  ultimately show "\<exists>d. from_factor A neg (show_expr 1 (Times a b) @ r) left =
      calc_loop A r (left - int (length (show_expr 1 (Times a b)))) d \<and>
      R d (if neg then - val (Times a b) else val (Times a b))"
    using x(1) by (intro exI [of _ "d_mul A x y"]) (simp add: paren_def algebra_simps)
qed

lemma sum_step:
  assumes ex: "exact A R" and a: "sum_ok A R a" and b: "term_ok A R b"
    and e: "e = (if neg then Minus a b else Plus a b)" and c: "c = (if neg then CHR ''-'' else CHR ''+'')"
  shows "sum_ok A R e"
  unfolding sum_ok_def
proof (intro allI impI, elim conjE)
  fix r V and left :: int
  let ?a = "show_expr 0 a" and ?b = "show_expr 1 b" and ?v = "if neg then - val b else val b"
  assume r: "ends r" "int (length (show_expr 0 e)) \<le> left"
    and v: "rest_value A R r (left - int (length (show_expr 0 e))) V" "\<bar>V\<bar> + mag e \<le> 2 ^ 53"
  have sh: "show_expr 0 e = ?a @ c # ?b" by (simp add: e c paren_def)
  have val_e: "val e = val a + ?v" and mag_e: "mag e = mag a + mag b" by (simp_all add: e)
  let ?left = "left - int (length ?a)"
  have left: "int (length ?b) \<le> ?left - 1" "0 < ?left" using r(2) by (simp_all add: sh)
  from term_okD [OF b r(1) left(1), of neg] obtain d where
    d: "from_factor A neg (?b @ r) (?left - 1) = calc_loop A r (?left - 1 - int (length ?b)) d" "R d ?v" by blast
  have sum: "\<bar>?v + V\<bar> \<le> 2 ^ 53 \<and> \<bar>?v + V\<bar> + mag a \<le> 2 ^ 53"
    using val_mag [of b] v(2) mag_nonneg [of a] unfolding mag_e by (auto simp del: mag_nonneg split: if_splits)
  have "rest_value A R r (?left - 1 - int (length ?b)) V" using v(1) by (simp add: sh algebra_simps)
  from add_rest [OF ex d(2) this r(1)] sum obtain x where
    x: "calc_loop A r (?left - 1 - int (length ?b)) d = Some x" "R x (?v + V)" by blast
  have "is_sign c" "neg = (c = CHR ''-'')" by (simp_all add: c is_sign_def)
  then have "Calc A (c # ?b @ r) ?left = Some x"
    using d(1) x(1) show_first [of 1 b] show_no_sign [of 1 b r] by (simp add: Calc_sign)
  with x(2) left(2) \<open>is_sign c\<close> have "rest_value A R (c # ?b @ r) ?left (?v + V)" by (simp add: rest_value_def)
  moreover have "ends (c # ?b @ r)" using r(1) by (auto simp: ends_def c)
  moreover have "int (length ?a) \<le> left" using left(2) by simp
  ultimately have "\<exists>d. Calc A (?a @ c # ?b @ r) left = Some d \<and> R d (val a + (?v + V))"
    using a sum unfolding sum_ok_def by blast
  then show "\<exists>d. Calc A (show_expr 0 e @ r) left = Some d \<and> R d (val e + V)"
    by (simp add: sh val_e add.assoc)
qed

text \<open>A factor of a product may exceed its bound only when the other is 0: it is bounded by itself.\<close>

fun fits :: "expr \<Rightarrow> bool" where
  "fits (Num n) \<longleftrightarrow> int n \<le> 2 ^ 53"
| "fits (Plus a b) \<longleftrightarrow> fits a \<and> fits b \<and> mag (Plus a b) \<le> 2 ^ 53"
| "fits (Minus a b) \<longleftrightarrow> fits a \<and> fits b \<and> mag (Minus a b) \<le> 2 ^ 53"
| "fits (Times a b) \<longleftrightarrow> fits a \<and> fits b \<and> mag (Times a b) \<le> 2 ^ 53"

lemma fits_mag: "fits e \<Longrightarrow> mag e \<le> 2 ^ 53"
  by (cases e) simp_all

lemma expr_ok:
  assumes ex: "exact A R"
  shows "fits e \<Longrightarrow> factor_ok A R e \<and> term_ok A R e \<and> sum_ok A R e"
proof (induction e)
  case (Num n)
  have "factor_ok A R (Num n)"
    unfolding factor_ok_def
  proof (intro allI impI)
    fix r assume r: "ends r"
    obtain c t where "dec n = c # t" "isdigit c" by (rule dec_Cons)
    then have "GetNumber A (dec n @ r) = literal A (dec n @ r)"
      using digit_not [of c] by (simp add: GetNumber_literal)
    moreover have "R (d_atof A (dec n @ takeWhile (\<lambda>c. c \<noteq> NUL) r)) (int n)"
      using exactD(4) [OF ex _ takeWhile_ends [OF r], of n] Num by simp
    ultimately show "\<exists>d. GetNumber A (show_expr 2 (Num n) @ r) = Some (d, length (show_expr 2 (Num n))) \<and> R d (val (Num n))"
      by (simp add: literal_dec [OF r])
  qed
  with factor_term [OF ex _ this] term_sum [OF ex] show ?case by simp
next
  case (Plus a b)
  then have "sum_ok A R (Plus a b)" using sum_step [OF ex, of a b "Plus a b" False] by simp
  with sum_factor [of "Plus a b" A R] factor_term [OF ex, of "Plus a b"] fits_mag [OF Plus.prems] show ?case
    by (simp add: paren_def)
next
  case (Minus a b)
  then have "sum_ok A R (Minus a b)" using sum_step [OF ex, of a b "Minus a b" True] by simp
  with sum_factor [of "Minus a b" A R] factor_term [OF ex, of "Minus a b"] fits_mag [OF Minus.prems] show ?case
    by (simp add: paren_def)
next
  case (Times a b)
  then have t: "term_ok A R (Times a b)" using product_term [OF ex, of a b] by simp
  have "sum_ok A R (Times a b)" using term_sum [OF ex _ t] by (simp add: paren_def)
  with t sum_factor [of "Times a b" A R] fits_mag [OF Times.prems] show ?case by (simp add: paren_def)
qed

lemma show_chars: "c \<in> set (show_expr p e) \<Longrightarrow> isdigit c \<or> c \<in> set ''+-*()''"
proof (induction e arbitrary: p)
  case (Num n)
  then show ?case using dec_digits [of n] by simp
qed (auto simp: paren_def split: if_splits)

text \<open>C21: A text that writes an expression of numbers, sums, differences and products, with the usual
  precedence, subtraction grouping to the left, parentheses where they are needed and blanks anywhere
  outside the numbers, is given the value of the expression, although \<open>Calc\<close> adds from the right: provided
  it has fewer than 5000 characters besides the blanks and no intermediate result can leave the range in
  which \<open>double\<close> is exact.\<close>

theorem calc_evaluates:
  assumes "exact A R" "fits e" "filter (\<lambda>c. \<not> isspace c) s = show_expr 0 e" "NUL \<notin> set s"
    and "length (show_expr 0 e) < 5000"
  shows "\<exists>d. Calc_text A (s @ [NUL]) = Some d \<and> R d (val e)"
proof -
  let ?p = "show_expr 0 e"
  have eq: "CHR ''='' \<notin> set ?p" using show_chars [of "CHR ''=''" 0 e] by (auto simp: isdigit_def)
  have "ends [NUL]" by (simp add: ends_def)
  with expr_ok [OF assms(1,2)] fits_mag [OF assms(2)] obtain d where
    "Calc A (?p @ [NUL]) (int (length ?p)) = Some d" "R d (val e)"
    by (fastforce simp: sum_ok_def rest_value_def)
  moreover have "Calc_text A (s @ [NUL]) = Calc A (?p @ [NUL]) (int (length ?p))"
    using assms(3-5) eq show_first [of 0 e] by (simp add: Calc_text_def Let_def)
  ultimately show ?thesis by simp
qed

text \<open>An arithmetic to compute with: the integers.\<close>

definition int_arith :: "int arithmetic" where
  "int_arith = \<lparr>d_add = (+), d_sub = (-), d_mul = (*), d_div = (div), d_neg = uminus,
     d_eq0 = (\<lambda>x. x = 0), d_less0 = (\<lambda>x. x < 0), d_of_int = (\<lambda>n. n), d_to_int32 = c_int,
     d_to_int64 = (\<lambda>n. if - (2 ^ 63) \<le> n \<and> n < 2 ^ 63 then Some n else None),
     d_atof = (\<lambda>s. int (dec_val (takeWhile isdigit s))), d_PI = 3, d_E = 2\<rparr>"

lemma int_arith_exact: "exact int_arith (=)"
proof -
  have "takeWhile isdigit (dec n @ s) = dec n" if "s = [] \<or> hd s \<in> set ''+-*)''" for n s
    using that dec_digits [of n] by (cases s) (auto simp: takeWhile_append isdigit_def)
  then show ?thesis by (simp add: exact_def int_arith_def)
qed

theorem calc_evaluates_witness:
  "\<exists>d. Calc_text int_arith (''10-4 - 3*(2+1)'' @ [NUL]) = Some d \<and> d = - 3"
proof -
  let ?e = "Minus (Minus (Num 10) (Num 4)) (Times (Num 3) (Plus (Num 2) (Num 1)))"
  have sh: "show_expr 0 ?e = ''10-4-3*(2+1)''"
    by (simp add: paren_def dec.simps digit_def char_of_def bit_0)
  from calc_evaluates [OF int_arith_exact, of ?e "''10-4 - 3*(2+1)''"] show ?thesis
    unfolding sh by (simp add: isspace_def)
qed

end
