(* ===== verification/CalcDef.thy ===== *)
theory CalcDef
  imports CalcSpec
begin

text \<open>On which texts \<open>Calc\<close> is defined, whatever the arithmetic.\<close>

section \<open>Texts without pitfalls\<close>

definition hex_run :: "string \<Rightarrow> nat" where
  "hex_run r = length (takeWhile (\<lambda>c. hex_value c \<noteq> None) r)"

definition binary_run :: "string \<Rightarrow> nat" where
  "binary_run r = length (takeWhile (\<lambda>c. c = CHR ''0'' \<or> c = CHR ''1'') r)"

definition name_run :: "string \<Rightarrow> nat" where
  "name_run p = length (takeWhile (\<lambda>c. \<not> TestDelimiter c) p)"

text \<open>What may go wrong at the first character: a parenthesis, a number or a name.\<close>

fun place_ok :: "string \<Rightarrow> bool" where
  "place_ok [] \<longleftrightarrow> True"
| "place_ok (c # r) \<longleftrightarrow>
     (c = CHR ''('' \<longrightarrow> close_at 1 r \<noteq> Some None) \<and>
     (c = CHR ''0'' \<and> (hd r = CHR ''x'' \<or> hd r = CHR ''X'') \<longrightarrow> hex_run (tl r) \<le> 8) \<and>
     (c = CHR ''0'' \<and> (hd r = CHR ''b'' \<or> hd r = CHR ''B'') \<longrightarrow> binary_run (tl r) \<le> 31) \<and>
     (\<not> isdigit c \<and> c \<noteq> CHR ''('' \<longrightarrow> name_run (c # r) < 100) \<and>
     c \<notin> set ''%|&''"

fun text_ok :: "string \<Rightarrow> bool" where
  "text_ok [] \<longleftrightarrow> True"
| "text_ok (c # r) \<longleftrightarrow> place_ok (c # r) \<and> text_ok r"

definition calc_ok :: "string \<Rightarrow> bool" where
  "calc_ok p \<longleftrightarrow> p \<noteq> [] \<and> last p = NUL \<and> text_ok p"

lemma text_ok_drop: "text_ok p \<Longrightarrow> text_ok (drop n p)"
proof (induction p arbitrary: n)
  case (Cons c p)
  then show ?case by (cases n) auto
qed simp

lemma calc_ok_drop: "calc_ok p \<Longrightarrow> n < length p \<Longrightarrow> calc_ok (drop n p)"
  by (simp add: calc_ok_def text_ok_drop)

lemma calc_ok_tl: "calc_ok (c # r) \<Longrightarrow> c \<noteq> NUL \<Longrightarrow> calc_ok r"
  by (auto simp: calc_ok_def split: if_splits)

section \<open>Pieces\<close>

lemma skip_signs_total: "p \<noteq> [] \<Longrightarrow> last p = NUL \<Longrightarrow> \<exists>neg1 s. skip_signs neg p = Some (neg1, s)"
  by (induction neg p rule: skip_signs.induct) (auto simp: is_sign_def split: if_splits)

lemma close_at_total: "p \<noteq> [] \<Longrightarrow> last p = NUL \<Longrightarrow> close_at nr p \<noteq> None"
  by (induction nr p rule: close_at.induct) (auto simp: Let_def split: if_splits)

lemma close_at_less: "close_at nr p = Some (Some sz) \<Longrightarrow> sz < length p"
  by (induction nr p arbitrary: sz rule: close_at.induct) (auto simp: Let_def split: if_splits)

lemma takeWhile_last: "p \<noteq> [] \<Longrightarrow> \<not> P (last p) \<Longrightarrow> takeWhile P p \<noteq> p"
  by (metis last_in_set set_takeWhileD)

lemma hex_value_less: "hex_value c = Some v \<Longrightarrow> v < 16"
  by (auto simp: hex_value_def Let_def split: if_splits)

lemma hex_fold_less:
  "\<forall>c\<in>set ds. hex_value c \<noteq> None \<Longrightarrow> 0 \<le> a \<Longrightarrow>
   foldl (\<lambda>a c. 16 * a + int (the (hex_value c))) a ds < (a + 1) * 16 ^ length ds"
proof (induction ds arbitrary: a)
  case (Cons c ds)
  then obtain v where v: "hex_value c = Some v" by auto
  have "foldl (\<lambda>a c. 16 * a + int (the (hex_value c))) (16 * a + int v) ds < (16 * a + int v + 1) * 16 ^ length ds"
    using Cons by simp
  also have "\<dots> \<le> (16 * (a + 1)) * 16 ^ length ds"
    using hex_value_less [OF v] by (intro mult_right_mono) auto
  finally show ?case using v by (simp add: algebra_simps)
qed simp

lemma hex_number_total:
  assumes "r \<noteq> []" "last r = NUL" "hex_run r \<le> 8"
  shows "hex_number r \<noteq> None"
proof -
  let ?ds = "takeWhile (\<lambda>c. hex_value c \<noteq> None) r"
  have "hex_value NUL = None" by (simp add: hex_value_def)
  then have "?ds \<noteq> r" using takeWhile_last [of r "\<lambda>c. hex_value c \<noteq> None"] assms(1,2) by metis
  moreover have "foldl (\<lambda>a c. 16 * a + int (the (hex_value c))) 0 ?ds < 16 ^ length ?ds"
    using hex_fold_less [of ?ds 0] by (auto dest: set_takeWhileD)
  moreover have "(16 :: int) ^ length ?ds \<le> 16 ^ 8"
    using assms(3) unfolding hex_run_def by (intro power_increasing) auto
  ultimately show ?thesis by (simp add: hex_number_def Let_def)
qed

lemma binary_number_total:
  "r \<noteq> [] \<Longrightarrow> last r = NUL \<Longrightarrow> 0 \<le> i \<Longrightarrow> (i + 1) * 2 ^ binary_run r \<le> 2 ^ 31 \<Longrightarrow> binary_number r i move \<noteq> None"
proof (induction r i move rule: binary_number.induct)
  case (2 c r i move)
  show ?case
  proof (cases "c = CHR ''0'' \<or> c = CHR ''1''")
    case True
    then have r: "r \<noteq> []" "last r = NUL" using "2.prems"(2) by (auto split: if_splits)
    have run: "binary_run (c # r) = Suc (binary_run r)" using True by (simp add: binary_run_def)
    have pow: "(i + 1) * 2 * 2 ^ binary_run r \<le> 2 ^ 31" using "2.prems"(4) unfolding run power_Suc by (simp only: mult.assoc)
    have "(i + 1) * 2 * 1 \<le> (i + 1) * 2 * 2 ^ binary_run r" using "2.prems"(3) by (intro mult_left_mono) auto
    with pow have "(i + 1) * 2 \<le> 2 ^ 31" by linarith
    then have ci: "c_int (i * 2) = Some (i * 2)" using "2.prems"(3) by simp
    let ?i = "if c = CHR ''1'' then i * 2 + 1 else i * 2"
    have "(?i + 1) * 2 ^ binary_run r \<le> (i + 1) * 2 * 2 ^ binary_run r" by (intro mult_right_mono) auto
    then have "(?i + 1) * 2 ^ binary_run r \<le> 2 ^ 31" using pow by linarith
    moreover have "0 \<le> ?i" using "2.prems"(3) by simp
    ultimately have "binary_number r ?i (move + 1) \<noteq> None" using "2.IH" [OF True _ r] ci by auto
    with True ci show ?thesis by simp
  qed simp
qed simp

lemma literal_total:
  assumes "calc_ok p" "hd p \<noteq> CHR ''(''"
  shows "literal A p \<noteq> None"
proof -
  from assms obtain c r where p: "p = c # r" by (cases p) (auto simp: calc_ok_def)
  have NUL: "NUL \<in> set p" using assms(1) unfolding calc_ok_def by (metis last_in_set)
  have place: "place_ok p" and last: "last p = NUL" using assms(1) by (simp_all add: calc_ok_def p)
  show ?thesis
  proof (cases "isdigit c \<or> c = CHR ''.''")
    case True
    then have r: "r \<noteq> []" "last r = NUL" using last by (auto simp: p isdigit_def split: if_splits)
    have tl: "tl r \<noteq> [] \<and> last (tl r) = NUL" if "hd r \<noteq> NUL" using r that by (cases r) (auto split: if_splits)
    have "hex_number (tl r) \<noteq> None" if "c = CHR ''0''" "hd r = CHR ''x'' \<or> hd r = CHR ''X''"
      using place that tl by (intro hex_number_total) (auto simp: p)
    moreover have "binary_number (tl r) 0 2 \<noteq> None" if "c = CHR ''0''" "hd r = CHR ''b'' \<or> hd r = CHR ''B''"
    proof (rule binary_number_total)
      have "(2 :: int) ^ binary_run (tl r) \<le> 2 ^ 31" using place that by (intro power_increasing) (auto simp: p)
      then show "(0 + 1) * 2 ^ binary_run (tl r) \<le> (2 :: int) ^ 31" by simp
    qed (use that tl in auto)
    ultimately show ?thesis using True NUL r(1) by (auto simp: p literal_def c_str_def Let_def split: prod.splits)
  next
    case False
    have "TestDelimiter NUL" by (simp add: TestDelimiter_def)
    then have "takeWhile (\<lambda>c. \<not> TestDelimiter c) p \<noteq> p"
      using takeWhile_last [of p "\<lambda>c. \<not> TestDelimiter c"] last p by auto
    moreover have "name_run p < 100" using place assms(2) False by (simp add: p)
    moreover have "\<not> (take 2 p = ''pi'' \<and> length p = 2)" "\<not> (take 1 p = ''e'' \<and> length p = 1)"
      using last by (auto simp: p)
    moreover have "c \<noteq> CHR ''0''" using False by (auto simp: isdigit_def)
    ultimately show ?thesis using False by (auto simp: p literal_def name_value_def name_run_def Let_def)
  qed
qed

section \<open>Evaluation\<close>

lemma apply_operator_total:
  "is_operator c \<Longrightarrow> c \<notin> set ''%|&'' \<Longrightarrow> apply_operator A c d1 d2 \<noteq> None"
  by (auto simp: is_operator_def apply_operator_def)

lemma calc_ok_rest:
  assumes "calc_ok p" "left < int (length p)" "0 < left - int n"
  shows "calc_ok (drop n p)"
  using assms by (intro calc_ok_drop) auto

lemma skip_signs_ok:
  assumes "calc_ok p"
  obtains neg1 s where "skip_signs neg p = Some (neg1, s)" "calc_ok s" "length s \<le> length p"
proof -
  from assms obtain neg1 s where s: "skip_signs neg p = Some (neg1, s)"
    using skip_signs_total [of p neg] by (auto simp: calc_ok_def)
  from skip_signs_Some [OF this] obtain t where "p = t @ s" "s \<noteq> []" "length s \<le> length p" by blast
  with assms have "calc_ok s" using calc_ok_drop [of p "length t"] by simp
  with s \<open>length s \<le> length p\<close> that show ?thesis by blast
qed

lemma calc_total:
  shows "calc_ok p \<Longrightarrow> len < int (length p) \<Longrightarrow> Calc A p len \<noteq> None"
  and "(0 < left \<Longrightarrow> calc_ok p \<and> left < int (length p)) \<Longrightarrow> calc_loop A p left d \<noteq> None"
  and "calc_ok p \<Longrightarrow> GetNumber A p \<noteq> None"
  and "calc_ok p \<Longrightarrow> close_at 1 p \<noteq> Some None \<Longrightarrow> \<not> binary \<Longrightarrow> \<exists>n x. Funk A p binary = Some (n, Some x, None)"
proof (induction A p len and A p left d and A p and A p binary rule: Calc_calc_loop_GetNumber_Funk.induct)
  case (1 A p len)
  obtain neg s where s: "skip_signs False p = Some (neg, s)" "calc_ok s" "length s \<le> length p"
    by (rule skip_signs_ok [OF 1(3)])
  from 1(1) [of "(neg, s)" neg s] s obtain d move where g: "GetNumber A s = Some (d, move)" by auto
  let ?left = "len - int (length p - length s)"
  have left: "?left < int (length s)" using 1(4) s(3) by linarith
  have "calc_loop A (drop move s) (?left - int move) (with_sign A neg d) \<noteq> None"
    using 1(2) [of "(neg, s)" neg s "(d, move)" d move] s(1) g calc_ok_rest [OF s(2) left] left by auto
  with s(1) g show ?case by (simp add: Calc.simps)
next
  case (2 A p left d1)
  show ?case
  proof (cases "0 < left")
    case False
    then show ?thesis by (simp add: calc_loop_end)
  next
    case pos: True
    with 2(4) have ok: "calc_ok p" "left < int (length p)" by simp_all
    then obtain c r where p: "p = c # r" by (cases p) (auto simp: calc_ok_def)
    show ?thesis
    proof (cases "is_sign c")
      case True
      with 2(1) [of c r] pos ok p have "Calc A p left \<noteq> None" by auto
      with pos True show ?thesis by (subst p) (auto simp: calc_loop.simps [of A "c # r"] p)
    next
      case sign: False
      show ?thesis
      proof (cases "is_operator c")
        case False
        with pos sign show ?thesis by (simp add: p calc_loop.simps [of A "c # r"])
      next
        case op: True
        then have "c \<noteq> NUL" by (auto simp: is_operator_def)
        with calc_ok_tl ok(1) p have r: "calc_ok r" by blast
        obtain neg s where s: "skip_signs False r = Some (neg, s)" "calc_ok s" "length s \<le> length r"
          by (rule skip_signs_ok [OF r])
        from 2(2) [of c r "(neg, s)" neg s] s pos sign op p obtain d2 move where
          g: "GetNumber A s = Some (d2, move)" by auto
        have "c \<notin> set ''%|&''" using ok(1) by (simp add: calc_ok_def p)
        from apply_operator_total [OF op this, of A d1 "with_sign A neg d2"] obtain res where
          res: "apply_operator A c d1 (with_sign A neg d2) = Some res" by auto
        let ?left = "left - 1 - int (length r - length s)"
        have left: "?left < int (length s)" using ok(2) s(3) by (simp add: p)
        have "calc_loop A (drop move s) (?left - int move) d \<noteq> None" if "res = Go d" for d
          using 2(3) [of c r "(neg, s)" neg s "(d2, move)" d2 move res d] s(1) g res that pos sign op p
            calc_ok_rest [OF s(2) left] left by auto
        with pos sign op s(1) g res show ?thesis
          by (cases res) (simp_all add: p calc_loop.simps [of A "c # r"])
      qed
    qed
  qed
next
  case (3 A p)
  then obtain c r where p: "p = c # r" by (cases p) (auto simp: calc_ok_def)
  show ?case
  proof (cases "c = CHR ''(''")
    case True
    have "calc_ok r" using calc_ok_tl [of c r] 3(2) True p by simp
    moreover have "close_at 1 r \<noteq> Some None" using 3(2) True by (simp add: calc_ok_def p)
    ultimately obtain n x where "Funk A r False = Some (n, Some x, None)" using 3(1) [OF p True] by auto
    with True show ?thesis by (simp add: p GetNumber.simps)
  next
    case False
    with literal_total [of p A] 3(2) show ?thesis by (simp add: p GetNumber.simps)
  qed
next
  case (4 A p binary)
  from 4(4) close_at_total [of p 1] obtain closed where "close_at 1 p = Some closed" by (auto simp: calc_ok_def)
  with 4(5) obtain sz where sz: "close_at 1 p = Some (Some sz)" by (cases closed) auto
  with 4(3) [of "Some sz" sz] 4(4,6) close_at_less [OF sz] obtain x where "Calc A p (int sz) = Some x" by auto
  with sz 4(6) show ?case by (simp add: Funk.simps)
qed



section \<open>Texts with a pitfall\<close>

text \<open>A parenthesis that is not closed: \<open>x\<close> is returned although nothing has assigned it.\<close>

lemma GetNumber_unclosed: "close_at 1 r = Some None \<Longrightarrow> GetNumber A (CHR ''('' # r) = None"
  by (simp add: GetNumber.simps Funk.simps)

text \<open>A name of 100 characters overruns its array.\<close>

lemma GetNumber_long_name:
  assumes "\<forall>c\<in>set s. \<not> TestDelimiter c \<and> c \<noteq> CHR ''.''" "100 \<le> length s" "\<not> isdigit (hd s)" "hd s \<noteq> CHR ''(''"
  shows "GetNumber A (s @ [NUL]) = None"
proof -
  obtain c d e r where s: "s = c # d # e # r" using assms(2) by (cases s; cases "tl s"; cases "tl (tl s)") auto
  have run: "takeWhile (\<lambda>c. \<not> TestDelimiter c) (s @ [NUL]) = s"
    using assms(1) by (simp add: takeWhile_append TestDelimiter_def)
  have "c \<noteq> CHR ''0''" using assms(3) by (auto simp: s isdigit_def)
  with assms run show ?thesis
    by (simp add: s GetNumber.simps literal_def name_value_def Let_def)
qed

text \<open>A division by zero gives 0 to all that follows it as well.\<close>

lemma calc_loop_zero_divisor:
  assumes "0 < left" "skip_signs False r = Some (neg, s)" "GetNumber A s = Some (d2, move)"
    and "d_eq0 A (with_sign A neg d2)"
  shows "calc_loop A (CHR ''/'' # r) left d1 = Some (d_of_int A 0)"
  using assms by (simp add: calc_loop.simps [of A "CHR ''/'' # r"] is_sign_def is_operator_def apply_operator_def)

end
