(* ===== verification/Snprintf.thy ===== *)
theory Snprintf
  imports C_Text
begin

text \<open>
  The library's own \<open>snprintf\<close> (inc/snprintf.h, test/INNOLIB/src/snprintf.cpp), with which the service builds
  its names, settings and log lines. The machine has 32-bit \<open>int\<close>, 64-bit \<open>long\<close> and the calling
  convention of x86-64; \<open>malloc\<close> succeeds. A number of type \<open>double\<close> is its bit pattern, and what the
  system's \<open>sprintf\<close> makes of it is a parameter.
\<close>

section \<open>Directives\<close>

datatype fmt_flag =
    MINUS_FLAG | PLUS_FLAG | SPACE_FLAG | HASH_FLAG | CONV_TO_SHORT | IS_LONG_INT | IS_LONG_DOUBLE
  | X_UPCASE | IS_NEGATIVE | UNSIGNED_DEC | ZERO_PADDING | IS_LONG_LONG_INT

definition flag_of :: "char \<Rightarrow> fmt_flag option" where
  "flag_of c =
     (if c = CHR ''-'' then Some MINUS_FLAG
      else if c = CHR ''+'' then Some PLUS_FLAG
      else if c = CHR '' '' then Some SPACE_FLAG
      else if c = CHR ''#'' then Some HASH_FLAG
      else if c = CHR ''0'' then Some ZERO_PADDING
      else None)"

fun get_flags :: "fmt_flag set \<Rightarrow> string \<Rightarrow> fmt_flag set \<times> string" where
  "get_flags F [] = (F, [])"
| "get_flags F (c # str) = (case flag_of c of Some f \<Rightarrow> get_flags (insert f F) str | None \<Rightarrow> (F, c # str))"

text \<open>\<open>value = 10 * value + *str - '0'\<close> as long as there are digits.\<close>

fun get_number :: "int \<Rightarrow> string \<Rightarrow> (int \<times> string) option" where
  "get_number val [] = Some (val, [])"
| "get_number val (c # str) =
     (if isdigit c then do { n \<leftarrow> c_int (10 * val + of_char c); get_number (n - 48) str }
      else Some (val, c # str))"

text \<open>
  A width or precision \<open>*\<close> is undefined: \<open>myvsnprintf\<close> passes the address of its parameter \<open>ap\<close>, which on
  x86-64 is a pointer to the list and not the list itself.
\<close>

definition get_width :: "string \<Rightarrow> (int \<times> string) option" where
  "get_width str =
     (if str \<noteq> [] \<and> isdigit (hd str) then get_number 0 str
      else if str \<noteq> [] \<and> hd str = CHR ''*'' then None
      else Some (0, str))"

definition get_precision :: "string \<Rightarrow> (int \<times> string) option" where
  "get_precision str =
     (if str \<noteq> [] \<and> hd str = CHR ''.''
      then let str = tl str
           in if str \<noteq> [] \<and> isdigit (hd str) then get_number 0 str
              else if str \<noteq> [] \<and> hd str = CHR ''*'' then None
              else Some (0, str)
      else Some (- 1, str))"

definition get_type :: "string \<Rightarrow> fmt_flag set \<times> string" where
  "get_type str =
     (case str of
        [] \<Rightarrow> ({}, str)
      | c # s \<Rightarrow>
          if c = CHR ''h'' then ({CONV_TO_SHORT}, s)
          else if c = CHR ''l''
          then (if s \<noteq> [] \<and> hd s = CHR ''l'' then ({IS_LONG_LONG_INT}, tl s) else ({IS_LONG_INT}, s))
          else if take 3 str = ''I64'' then ({IS_LONG_LONG_INT}, drop 3 str)
          else if c = CHR ''L'' then ({IS_LONG_DOUBLE}, s)
          else ({}, str))"

record directive =
  d_flags :: "fmt_flag set"
  d_width :: int
  d_precision :: int
  d_char :: char

text \<open>
  \<open>str\<close> is what follows the \<open>%\<close>. The result has the directive and the rest of the format; it is
  \<open>Some None\<close> where the function returns 0.
\<close>

definition snprintf_get_directive :: "string \<Rightarrow> (directive \<times> string) option option" where
  "snprintf_get_directive str = do {
     let (flags, str) = get_flags {} str;
     let flags = (if MINUS_FLAG \<in> flags \<and> ZERO_PADDING \<in> flags then flags - {ZERO_PADDING} else flags);
     (width, str) \<leftarrow> get_width str;
     (precision, str) \<leftarrow> get_precision str;
     let (type, str) = get_type str;
     let flags = flags \<union> type;
     case str of
       [] \<Rightarrow> Some None
     | format_char # str \<Rightarrow>
         if format_char \<in> set ''idouxXfeEgGcspn''
         then let flags = (if format_char = CHR ''X'' then insert X_UPCASE flags else flags);
                  flags = (if format_char = CHR ''o'' then insert UNSIGNED_DEC flags else flags)
              in Some (Some (\<lparr>d_flags = flags, d_width = width, d_precision = precision, d_char = format_char\<rparr>, str))
         else Some None }"

section \<open>Numbers\<close>

text \<open>
  \<open>tmp_buf\<close> has \<open>100 + width\<close> bytes and is filled from its end: \<open>tmp\<close> is what is in it, \<open>room\<close> the bytes
  before \<open>tmp_buf_ptr\<close>.
\<close>

fun main_conversion :: "int \<Rightarrow> string \<Rightarrow> nat \<Rightarrow> int \<Rightarrow> int \<Rightarrow> string \<Rightarrow> string" where
  "main_conversion base digits 0 ulong_val precision tmp = tmp"
| "main_conversion base digits (Suc room) ulong_val precision tmp =
     (let tmp = digits ! nat (ulong_val mod base) # tmp;
          ulong_val = ulong_val div base;
          precision = precision - 1
      in if (ulong_val \<noteq> 0 \<or> 0 < precision) \<and> 0 < room
         then main_conversion base digits room ulong_val precision tmp
         else tmp)"

text \<open>\<open>prefix[0]\<close> and \<open>prefix[1]\<close>, up to the first NUL. \<open>flags && X_UPCASE\<close> asks only whether there is a flag.\<close>

definition number_prefix :: "int \<Rightarrow> fmt_flag set \<Rightarrow> string" where
  "number_prefix base flags =
     (if IS_NEGATIVE \<in> flags then ''-''
      else if base = 16 \<and> HASH_FLAG \<in> flags then (if flags \<noteq> {} then ''x0'' else ''X0'')
      else if base = 8 \<and> HASH_FLAG \<in> flags then ''0''
      else if base = 10 \<and> UNSIGNED_DEC \<notin> flags \<and> PLUS_FLAG \<in> flags then ''+''
      else if base = 10 \<and> UNSIGNED_DEC \<notin> flags \<and> SPACE_FLAG \<in> flags then '' ''
      else [])"

fun put_prefix :: "nat \<Rightarrow> string \<Rightarrow> string \<Rightarrow> string" where
  "put_prefix room [] tmp = tmp"
| "put_prefix room (c # cs) tmp = (if 0 < room then put_prefix (room - 1) cs (c # tmp) else tmp)"

text \<open>What is copied to \<open>buffer\<close>; the length of it is the value returned.\<close>

definition snprintf_convert_ulong ::
  "int \<Rightarrow> int \<Rightarrow> string \<Rightarrow> 64 word \<Rightarrow> fmt_flag set \<Rightarrow> int \<Rightarrow> int \<Rightarrow> string option" where
  "snprintf_convert_ulong buf_size base digits ulong_val flags width precision = do {
     tmp_buf_len \<leftarrow> c_int (100 + width);
     let tmp = main_conversion base digits (nat tmp_buf_len) (uint ulong_val) precision [];
     let tmp = put_prefix (nat tmp_buf_len - length tmp) (number_prefix base flags) tmp;
     let len = int (length tmp);
     if len \<le> buf_size
     then if len < width
          then let width = (if tmp_buf_len - len < width then tmp_buf_len - len else width);
                   pad = replicate (nat (width - len)) (if ZERO_PADDING \<in> flags then CHR ''0'' else CHR '' '')
               in if width < len then None
                  else Some (if MINUS_FLAG \<in> flags then tmp @ pad else pad @ tmp)
          else Some tmp
     else Some (take (nat buf_size) tmp) }"

text \<open>
  The format made for the system's \<open>sprintf\<close>. Its result has 160 bytes; \<open>print_buf_len\<close> is a \<open>char\<close>, which
  128 and more make negative, and then \<open>strncpy\<close> fills all of memory.
\<close>

definition float_format :: "fmt_flag set \<Rightarrow> int \<Rightarrow> int \<Rightarrow> char \<Rightarrow> string" where
  "float_format flags width precision format_char =
     (let width = (if 155 < width then 155 else width);
          precision = (if precision \<le> 0 then 6 else precision);
          precision = (if 120 < precision then 120 else precision)
      in ''%'' @ (if MINUS_FLAG \<in> flags then ''-'' else []) @ (if PLUS_FLAG \<in> flags then ''+'' else []) @
         (if SPACE_FLAG \<in> flags then '' '' else []) @ (if ZERO_PADDING \<in> flags then ''0'' else []) @
         (if HASH_FLAG \<in> flags then ''#'' else []) @ fmt_d width @ ''.'' @ fmt_d precision @ [format_char])"

definition snprintf_convert_float ::
  "(string \<Rightarrow> 64 word \<Rightarrow> string) \<Rightarrow> int \<Rightarrow> 64 word \<Rightarrow> fmt_flag set \<Rightarrow> int \<Rightarrow> int \<Rightarrow> char \<Rightarrow> string option" where
  "snprintf_convert_float sprintf buf_size dbl_val flags width precision format_char =
     (if IS_LONG_DOUBLE \<in> flags then None
      else let print_buf = sprintf (float_format flags width precision format_char) dbl_val
           in if 128 \<le> length print_buf then None else Some (take (nat buf_size) print_buf))"

section \<open>Characters and strings\<close>

definition convert_char :: "int \<Rightarrow> char \<Rightarrow> fmt_flag set \<Rightarrow> int \<Rightarrow> string" where
  "convert_char left c flags width =
     (if width = 0 then [c]
      else let width = (if left < width then left else width);
               pad = replicate (nat (width - 1)) (if ZERO_PADDING \<in> flags then CHR ''0'' else CHR '' '')
           in if MINUS_FLAG \<in> flags then c # pad else pad @ [c])"

text \<open>\<open>precision\<close> is negative when none is given. A null pointer prints \<open>(null)\<close>.\<close>

definition convert_str :: "int \<Rightarrow> char list option \<Rightarrow> fmt_flag set \<Rightarrow> int \<Rightarrow> int \<Rightarrow> string option" where
  "convert_str left str_val flags width precision = do {
     let str_val = (case str_val of None \<Rightarrow> ''(null)'' @ [NUL] | Some blk \<Rightarrow> blk);
     precision \<leftarrow> (if precision < 0 \<or> NUL \<in> set (take (nat precision) str_val)
                  then map_option (\<lambda>s. int (length s)) (c_str str_val)
                  else if int (length str_val) < precision then None
                  else Some precision);
     let precision = (if left < precision then left else precision);
     let width = (if left < width then left else width);
     let width = (if width < precision then precision else width);
     let pad = replicate (nat (width - precision)) (if ZERO_PADDING \<in> flags then CHR ''0'' else CHR '' '');
     let s = take (nat precision) str_val;
     Some (if MINUS_FLAG \<in> flags then s @ pad else pad @ s) }"

section \<open>The function\<close>

text \<open>
  An argument: an \<open>int\<close>, one of 64 bits, a \<open>double\<close>, a pointer to characters, or a pointer to the \<open>int\<close> of
  \<open>%n\<close>. To read one as what it is not is undefined.
\<close>

datatype va_arg = VInt "32 word" | VLong "64 word" | VDouble "64 word" | VStr "char list option" | VCount

fun va_signed :: "fmt_flag set \<Rightarrow> va_arg list \<Rightarrow> (int \<times> va_arg list) option" where
  "va_signed flags (VInt w # ap) =
     (if IS_LONG_LONG_INT \<in> flags \<or> IS_LONG_INT \<in> flags then None else Some (sint w, ap))"
| "va_signed flags (VLong w # ap) =
     (if IS_LONG_LONG_INT \<in> flags \<or> IS_LONG_INT \<in> flags then Some (sint w, ap) else None)"
| "va_signed flags ap = None"

fun va_unsigned :: "fmt_flag set \<Rightarrow> va_arg list \<Rightarrow> (64 word \<times> va_arg list) option" where
  "va_unsigned flags (VInt w # ap) =
     (if IS_LONG_LONG_INT \<in> flags \<or> IS_LONG_INT \<in> flags then None else Some (ucast w, ap))"
| "va_unsigned flags (VLong w # ap) =
     (if IS_LONG_LONG_INT \<in> flags \<or> IS_LONG_INT \<in> flags then Some (w, ap) else None)"
| "va_unsigned flags ap = None"

fun va_str :: "va_arg list \<Rightarrow> (char list option \<times> va_arg list) option" where
  "va_str (VStr s # ap) = Some (s, ap)"
| "va_str ap = None"

text \<open>The value of a \<open>long double\<close> is never used (see \<open>snprintf_convert_float\<close>).\<close>

fun va_double :: "va_arg list \<Rightarrow> (64 word \<times> va_arg list) option" where
  "va_double (VDouble d # ap) = Some (d, ap)"
| "va_double ap = None"

text \<open>One directive: what is written, the arguments left, and the numbers \<open>%n\<close> stores.\<close>

definition convert_ulong ::
  "int \<Rightarrow> int \<Rightarrow> string \<Rightarrow> directive \<Rightarrow> int \<Rightarrow> va_arg list \<Rightarrow> (string \<times> va_arg list \<times> int list) option" where
  "convert_ulong left base digits d precision ap = do {
     (ulong_val, ap) \<leftarrow> va_unsigned (d_flags d) ap;
     out \<leftarrow> snprintf_convert_ulong left base digits ulong_val (d_flags d) (d_width d) precision;
     Some (out, ap, []) }"

definition convert ::
  "(string \<Rightarrow> 64 word \<Rightarrow> string) \<Rightarrow> directive \<Rightarrow> va_arg list \<Rightarrow> int \<Rightarrow> int \<Rightarrow>
     (string \<times> va_arg list \<times> int list) option" where
  "convert sprintf d ap pos left =
     (let c = d_char d; flags = d_flags d;
          precision = (if 0 \<le> d_precision d then d_precision d else 0)
      in if c = CHR ''i'' \<or> c = CHR ''d''
      then do {
        (long_val, ap) \<leftarrow> va_signed flags ap;
        if long_val = - (2 ^ 63) then None
        else do {
          out \<leftarrow> snprintf_convert_ulong left 10 ''0123456789'' (word_of_int \<bar>long_val\<bar>)
                  (if long_val < 0 then insert IS_NEGATIVE flags else flags) (d_width d) precision;
          Some (out, ap, []) } }
      else if c = CHR ''x'' then convert_ulong left 16 ''0123456789abcdef'' d precision ap
      else if c = CHR ''X'' then convert_ulong left 16 ''0123456789ABCDEF'' d precision ap
      else if c = CHR ''o'' then convert_ulong left 8 ''01234567'' d precision ap
      else if c = CHR ''u'' then convert_ulong left 10 ''0123456789'' d precision ap
      else if c = CHR ''c''
      then do {
        (ulong_val, ap) \<leftarrow> va_unsigned flags ap;
        Some (convert_char left (char_of_byte (ucast ulong_val)) flags (d_width d), ap, []) }
      else if c = CHR ''s''
      then do {
        (str_val, ap) \<leftarrow> va_str ap;
        out \<leftarrow> convert_str left str_val flags (d_width d) (d_precision d);
        Some (out, ap, []) }
      else if c = CHR ''n'' then (case ap of VCount # ap \<Rightarrow> Some ([], ap, [pos]) | _ \<Rightarrow> None)
      else if c \<in> set ''feEgG''
      then do {
        (dbl_val, ap) \<leftarrow> va_double ap;
        out \<leftarrow> snprintf_convert_float sprintf left dbl_val flags (d_width d) precision c;
        Some (out, ap, []) }
      else Some ([], ap, []))"

text \<open>What is left of the format gets shorter.\<close>

lemma length_get_flags: "get_flags F s = (G, r) \<Longrightarrow> length r \<le> length s"
  by (induction F s rule: get_flags.induct) (auto split: option.splits)

lemma length_get_number: "get_number v s = Some (n, r) \<Longrightarrow> length r \<le> length s"
  by (induction v s rule: get_number.induct) (auto split: if_splits bind_splits)

lemma length_get_width: "get_width s = Some (n, r) \<Longrightarrow> length r \<le> length s"
  by (auto simp: get_width_def dest: length_get_number split: if_splits)

lemma length_get_precision: "get_precision s = Some (n, r) \<Longrightarrow> length r \<le> length s"
  by (cases s) (auto simp: get_precision_def dest: length_get_number split: if_splits)

lemma length_get_type: "get_type s = (F, r) \<Longrightarrow> length r \<le> length s"
  by (auto simp: get_type_def split: list.splits if_splits)

lemma length_get_directive:
  assumes "snprintf_get_directive s = Some (Some (d, r))"
  shows "length r < length s"
proof -
  obtain F s1 where 1: "get_flags {} s = (F, s1)" by fastforce
  with assms obtain w s2 where 2: "get_width s1 = Some (w, s2)"
    by (cases "get_width s1") (auto simp: snprintf_get_directive_def)
  with 1 assms obtain p s3 where 3: "get_precision s2 = Some (p, s3)"
    by (cases "get_precision s2") (auto simp: snprintf_get_directive_def)
  obtain T s4 where 4: "get_type s3 = (T, s4)" by fastforce
  have "s4 \<noteq> [] \<and> r = tl s4"
    using assms by (cases s4) (simp_all add: snprintf_get_directive_def 1 2 3 4 Let_def split: if_splits)
  then show ?thesis
    using length_get_flags [OF 1] length_get_width [OF 2] length_get_precision [OF 3] length_get_type [OF 4]
    by (cases s4) auto
qed

text \<open>
  The loop: the number returned, the block at \<open>str\<close>, the numbers stored by \<open>%n\<close>. \<open>pos\<close> is the offset of the next
  character, \<open>left\<close> the number there is room for.
\<close>

definition finish :: "int \<Rightarrow> char list \<Rightarrow> int \<Rightarrow> int list \<Rightarrow> (int \<times> char list \<times> int list) option" where
  "finish pos str ret counts = do { str \<leftarrow> poke pos [NUL] str; Some (ret, str, counts) }"

function format_loop ::
  "(string \<Rightarrow> 64 word \<Rightarrow> string) \<Rightarrow> 64 word \<Rightarrow> string \<Rightarrow> va_arg list \<Rightarrow> int \<Rightarrow> int \<Rightarrow> char list \<Rightarrow> int list \<Rightarrow>
     (int \<times> char list \<times> int list) option" where
  "format_loop sprintf n [] ap pos left str counts =
     finish pos str (if left \<le> 0 then - 1 else sint (ucast (n - word_of_int left - 1) :: 32 word)) counts"
| "format_loop sprintf n (c # fmt) ap pos left str counts =
     (if c = CHR ''%''
      then if fmt \<noteq> [] \<and> hd fmt = CHR ''%'' \<and> 0 < left
           then do {
             str \<leftarrow> poke pos ''%'' str;
             format_loop sprintf n (tl fmt) ap (pos + 1) (left - 1) str counts }
           else if left \<le> 0 then finish pos str (- 1) counts
           else case snprintf_get_directive fmt of
                  None \<Rightarrow> None
                | Some None \<Rightarrow> finish pos str (- 2) counts
                | Some (Some (d, fmt)) \<Rightarrow> do {
                    (out, ap, stored) \<leftarrow> convert sprintf d ap pos left;
                    str \<leftarrow> poke pos out str;
                    format_loop sprintf n fmt ap (pos + int (length out)) (left - int (length out)) str
                      (counts @ stored) }
      else if 0 < left
      then do {
        str \<leftarrow> poke pos [c] str;
        format_loop sprintf n fmt ap (pos + 1) (left - 1) str counts }
      else finish pos str (- 1) counts)"
  by pat_completeness auto
termination
  by (relation "measure (\<lambda>(sprintf, n, fmt, ap). length fmt)") (auto dest: length_get_directive)

definition myvsnprintf ::
  "(string \<Rightarrow> 64 word \<Rightarrow> string) \<Rightarrow> char list option \<Rightarrow> 64 word \<Rightarrow> string option \<Rightarrow> va_arg list \<Rightarrow>
     (int \<times> char list option \<times> int list) option" where
  "myvsnprintf sprintf str n format ap = do {
     left \<leftarrow> c_int (sint (ucast n :: 32 word) - 1);
     case (str, format) of
       (Some blk, Some format) \<Rightarrow>
         if n = 0 then Some (- 1, str, [])
         else do {
           (ret, blk, counts) \<leftarrow> format_loop sprintf n format ap 0 left blk [];
           Some (ret, Some blk, counts) }
     | _ \<Rightarrow> Some (- 1, str, []) }"

definition mysnprintf ::
  "(string \<Rightarrow> 64 word \<Rightarrow> string) \<Rightarrow> char list option \<Rightarrow> 64 word \<Rightarrow> string option \<Rightarrow> va_arg list \<Rightarrow>
     (int \<times> char list option \<times> int list) option" where
  "mysnprintf = myvsnprintf"

end
