(* ===== verification/SvcFiles.thy ===== *)
theory SvcFiles
  imports Snprintf IniFile
begin

text \<open>
  The files of a service (test/INNOLIB/src/svcapp.cpp): the names it derives from its program name, the
  directory it works in, and its log, which is renamed when it has grown to five million bytes. The
  directory of the executable, which which.cpp finds, is an argument.
\<close>

section \<open>Names\<close>

record svc_names =
  m_szProgFileName :: string
  m_szProgramName :: string
  m_szIniName :: string
  m_szLogName :: string
  m_szWatchDogFile :: string
  m_szPid :: string
  m_szUpgrade :: string
  m_szUpgradeNew :: string
  m_szExecFullName :: string
  m_szEnvPath :: "char list"

text \<open>What follows the last \<open>c\<close> and what precedes it, as \<open>strrchr\<close> finds it.\<close>

definition after_last :: "char \<Rightarrow> string \<Rightarrow> string" where
  "after_last c s = rev (takeWhile (\<lambda>x. x \<noteq> c) (rev s))"

definition before_last :: "char \<Rightarrow> string \<Rightarrow> string" where
  "before_last c s = (if c \<in> set s then rev (tl (dropWhile (\<lambda>x. x \<noteq> c) (rev s))) else s)"

text \<open>
  \<open>stat_ok\<close>: the executable exists; otherwise the program ends after a line in its log, which is the inner \<open>None\<close>. The outer one is a
  program name that overruns \<open>buf\<close> or fills its member without a terminator.
\<close>

definition GetProgramProperty :: "string \<Rightarrow> string \<Rightarrow> string option \<Rightarrow> bool \<Rightarrow> svc_names option option" where
  "GetProgramProperty arg execpath env stat_ok =
     (if 256 \<le> length arg then None
      else do {
        name \<leftarrow> c_str (strncpy_block 128 (after_last (CHR ''/'') arg));
        let program = before_last (CHR ''.'') name;
        Some (if stat_ok
              then Some \<lparr>m_szProgFileName = name, m_szProgramName = program,
                m_szIniName = printed 128 (program @ ''.ini''), m_szLogName = printed 128 (program @ ''.log''),
                m_szWatchDogFile = printed 128 (program @ ''.dog''), m_szPid = printed 128 (program @ ''.pid''),
                m_szUpgrade = printed 128 (program @ ''.upgrade''), m_szUpgradeNew = printed 128 (program @ ''.new''),
                m_szExecFullName = printed 512 (execpath @ ''/'' @ name),
                m_szEnvPath = (case env of None \<Rightarrow> replicate 512 NUL | Some p \<Rightarrow> strncpy_block 512 p)\<rparr>
              else None) })"

section \<open>The working directory\<close>

text \<open>The answers of the system: the mode of the file \<open>stat\<close> finds, or its error.\<close>

datatype stat_result = Mode "32 word" | ENOENT | StatError

record dir_env =
  de_stat :: stat_result
  de_mkdir :: bool
  de_stat_new :: stat_result
  de_chdir :: bool

definition S_IFDIR :: "32 word" where "S_IFDIR = 0x4000"

text \<open>
  The path is \<open>m_szProgramPath\<close> before, \<open>old\<close>, or the path from the environment; the inner \<open>None\<close> is \<open>exit(1)\<close>. After
  another error than \<open>ENOENT\<close> the mode is read from a structure that was never filled.
\<close>

definition check_dir :: "stat_result \<Rightarrow> bool \<Rightarrow> string \<Rightarrow> string option option" where
  "check_dir sb chdir_ok path =
     (case sb of
        Mode m \<Rightarrow> Some (if m AND S_IFDIR = 0 \<or> \<not> chdir_ok then None else Some path)
      | _ \<Rightarrow> None)"

definition SetProgramPath :: "dir_env \<Rightarrow> svc_names \<Rightarrow> string \<Rightarrow> string option option" where
  "SetProgramPath d n old = do {
     envpath \<leftarrow> c_str (m_szEnvPath n);
     let path = (if envpath \<noteq> [] then printed 512 (envpath @ ''/'' @ m_szProgramName n) else old);
     if de_stat d = ENOENT
     then if de_mkdir d then check_dir (de_stat_new d) (de_chdir d) path else Some None
     else check_dir (de_stat d) (de_chdir d) path }"

section \<open>The log\<close>

text \<open>\<open>g_nMaxLog\<close> and what \<open>SetLogSize\<close> returns.\<close>

definition SetLogSize :: "int \<Rightarrow> int \<Rightarrow> int \<times> int" where
  "SetLogSize nMaxSize g_nMaxLog = (if 5000000 \<le> nMaxSize then (1, nMaxSize) else (0, g_nMaxLog))"

text \<open>
  The answers of the system to one call: whether \<open>stat\<close>, \<open>unlink\<close> and \<open>rename\<close> work, the text of \<open>ctime\<close>, the
  descriptor \<open>open\<close> returns and the bytes each of the two \<open>write\<close> takes. The files are a map from names to
  contents.
\<close>

record log_env =
  le_stat :: bool
  le_unlink :: bool
  le_rename :: bool
  le_time :: string
  le_fd :: int
  le_write1 :: nat
  le_write2 :: nat

type_synonym files = "string \<Rightarrow> string option"

definition rotate_log :: "log_env \<Rightarrow> string \<Rightarrow> files \<Rightarrow> files" where
  "rotate_log e pFile fs =
     (case fs pFile of
        None \<Rightarrow> fs
      | Some f \<Rightarrow>
          if le_stat e \<and> 5000000 \<le> length f
          then let backup = printed 255 (pFile @ ''.1'');
                   fs = (if le_unlink e then fs(backup := None) else fs)
               in if le_rename e \<and> fs pFile \<noteq> None then (fs(pFile := None))(backup := fs pFile) else fs
          else fs)"

text \<open>\<open>_Log\<close>: the files afterwards, and whether the descriptor stays open: \<open>fd > 0\<close> does not hold for descriptor 0.\<close>

definition LogTo :: "log_env \<Rightarrow> string \<Rightarrow> string \<Rightarrow> files \<Rightarrow> (files \<times> bool) option" where
  "LogTo e pFile buf fs =
     (let fs = rotate_log e pFile fs; f = (case fs pFile of None \<Rightarrow> [] | Some f \<Rightarrow> f)
      in if le_fd e < 0 then Some (fs, False)
         else if le_fd e = 0 then Some (fs(pFile := Some f), True)
         else if le_time e = [] \<or> 255 < length (le_time e) then None
         else let timebuf = butlast (le_time e) @ '' ''
              in Some (fs(pFile := Some (f @ take (le_write1 e) timebuf @ take (le_write2 e) buf)), False))"

text \<open>\<open>Log\<close> formats with the \<open>vsnprintf\<close> of the system, to which \<open>msg\<close> is the whole text; \<open>LogFile\<close> with its own.\<close>

definition Log :: "log_env \<Rightarrow> svc_names option \<Rightarrow> string \<Rightarrow> files \<Rightarrow> (files \<times> bool) option" where
  "Log e g_pApp msg fs =
     (case g_pApp of None \<Rightarrow> Some (fs, False) | Some n \<Rightarrow> LogTo e (m_szLogName n) (take 1022 msg) fs)"

definition LogFile ::
  "(string \<Rightarrow> 64 word \<Rightarrow> string) \<Rightarrow> log_env \<Rightarrow> string \<Rightarrow> string \<Rightarrow> va_arg list \<Rightarrow> files \<Rightarrow> (files \<times> bool) option" where
  "LogFile sprintf e pszFileName pszMsg args fs = do {
     (_, szBuf, _) \<leftarrow> mysnprintf sprintf (Some (replicate 1024 NUL)) 1023 (Some pszMsg) args;
     buf \<leftarrow> (case szBuf of None \<Rightarrow> None | Some blk \<Rightarrow> c_str blk);
     LogTo e pszFileName buf fs }"

end
