(* ===== verification/SnprintfSpec.thy ===== *)
theory SnprintfSpec
  imports Snprintf
begin

text \<open>
  What \<open>mysnprintf\<close> prints, against the description of \<open>printf\<close> in ISO C. A format is a list of pieces,
  \<open>iso_printf\<close> gives its text from the pieces alone, and for the pieces on which the two agree the
  function puts the text, cut to the size of the array, into it and nothing after it.
\<close>

section \<open>The text of a format\<close>

fun numeral_text :: "nat \<Rightarrow> string \<Rightarrow> nat \<Rightarrow> string" where
  "numeral_text base digits n =
     (if n < base \<or> base < 2 then [digits ! n]
      else numeral_text base digits (n div base) @ [digits ! (n mod base)])"

declare numeral_text.simps [simp del]

datatype int_type = TInt | TShort | TLong | TLongLong | TI64

datatype piece =
    Lit char
  | Percent
  | Conv "fmt_flag list" nat "nat option" int_type char

fun flag_text :: "fmt_flag \<Rightarrow> string" where
  "flag_text MINUS_FLAG = ''-''"
| "flag_text PLUS_FLAG = ''+''"
| "flag_text SPACE_FLAG = '' ''"
| "flag_text HASH_FLAG = ''#''"
| "flag_text ZERO_PADDING = ''0''"
| "flag_text _ = []"

fun type_text :: "int_type \<Rightarrow> string" where
  "type_text TInt = []"
| "type_text TShort = ''h''"
| "type_text TLong = ''l''"
| "type_text TLongLong = ''ll''"
| "type_text TI64 = ''I64''"

fun piece_text :: "piece \<Rightarrow> string" where
  "piece_text (Lit c) = [c]"
| "piece_text Percent = ''%%''"
| "piece_text (Conv F w p ty c) =
     ''%'' @ concat (map flag_text F) @ (if w = 0 then [] else dec w) @
     (case p of None \<Rightarrow> [] | Some k \<Rightarrow> ''.'' @ dec k) @ type_text ty @ [c]"

definition format_text :: "piece list \<Rightarrow> string" where
  "format_text ps = concat (map piece_text ps)"

definition iso_digits :: "nat \<Rightarrow> string \<Rightarrow> nat option \<Rightarrow> nat \<Rightarrow> string" where
  "iso_digits base digits p n =
     (let t = numeral_text base digits n
      in case p of
           None \<Rightarrow> t
         | Some k \<Rightarrow> if k = 0 \<and> n = 0 then [] else replicate (k - length t) (CHR ''0'') @ t)"

definition iso_pad :: "fmt_flag set \<Rightarrow> nat \<Rightarrow> bool \<Rightarrow> string \<Rightarrow> string \<Rightarrow> string" where
  "iso_pad F w zeros pre t =
     (let k = w - length (pre @ t)
      in if MINUS_FLAG \<in> F then pre @ t @ replicate k (CHR '' '')
         else if ZERO_PADDING \<in> F \<and> zeros then pre @ replicate k (CHR ''0'') @ t
         else replicate k (CHR '' '') @ pre @ t)"

fun iso_signed :: "int_type \<Rightarrow> va_arg list \<Rightarrow> (int \<times> va_arg list) option" where
  "iso_signed TInt (VInt w # ap) = Some (sint w, ap)"
| "iso_signed TShort (VInt w # ap) = Some (sint (ucast w :: 16 word), ap)"
| "iso_signed TLong (VLong w # ap) = Some (sint w, ap)"
| "iso_signed TLongLong (VLong w # ap) = Some (sint w, ap)"
| "iso_signed TI64 (VLong w # ap) = Some (sint w, ap)"
| "iso_signed ty ap = None"

fun iso_unsigned :: "int_type \<Rightarrow> va_arg list \<Rightarrow> (nat \<times> va_arg list) option" where
  "iso_unsigned TInt (VInt w # ap) = Some (unat w, ap)"
| "iso_unsigned TShort (VInt w # ap) = Some (unat (ucast w :: 16 word), ap)"
| "iso_unsigned TLong (VLong w # ap) = Some (unat w, ap)"
| "iso_unsigned TLongLong (VLong w # ap) = Some (unat w, ap)"
| "iso_unsigned TI64 (VLong w # ap) = Some (unat w, ap)"
| "iso_unsigned ty ap = None"

definition iso_sign :: "fmt_flag set \<Rightarrow> int \<Rightarrow> string" where
  "iso_sign F n =
     (if n < 0 then ''-'' else if PLUS_FLAG \<in> F then ''+'' else if SPACE_FLAG \<in> F then '' '' else [])"

definition base_of :: "char \<Rightarrow> (nat \<times> string) option" where
  "base_of c =
     (if c = CHR ''u'' then Some (10, ''0123456789'')
      else if c = CHR ''x'' then Some (16, ''0123456789abcdef'')
      else if c = CHR ''X'' then Some (16, ''0123456789ABCDEF'')
      else if c = CHR ''o'' then Some (8, ''01234567'')
      else None)"

text \<open>\<open>#\<close> puts \<open>0x\<close> or \<open>0X\<close> before a number that is not 0, and a 0 before an octal one that does not begin with 0.\<close>

definition iso_prefix :: "char \<Rightarrow> fmt_flag set \<Rightarrow> nat \<Rightarrow> string \<Rightarrow> string" where
  "iso_prefix c F n t =
     (if HASH_FLAG \<notin> F then []
      else if c = CHR ''x'' \<and> n \<noteq> 0 then ''0x''
      else if c = CHR ''X'' \<and> n \<noteq> 0 then ''0X''
      else if c = CHR ''o'' \<and> (t = [] \<or> hd t \<noteq> CHR ''0'') then ''0''
      else [])"

definition iso_str :: "nat option \<Rightarrow> char list \<Rightarrow> string option" where
  "iso_str p blk =
     (case p of
        None \<Rightarrow> c_str blk
      | Some k \<Rightarrow> if NUL \<in> set (take k blk) then c_str blk
                  else if k \<le> length blk then Some (take k blk) else None)"

fun iso_piece :: "piece \<Rightarrow> va_arg list \<Rightarrow> (string \<times> va_arg list) option" where
  "iso_piece (Lit c) ap = Some ([c], ap)"
| "iso_piece Percent ap = Some (''%'', ap)"
| "iso_piece (Conv F w p ty c) ap =
     (if c = CHR ''d'' \<or> c = CHR ''i''
      then do {
        (n, ap) \<leftarrow> iso_signed ty ap;
        Some (iso_pad (set F) w (p = None) (iso_sign (set F) n) (iso_digits 10 ''0123456789'' p (nat \<bar>n\<bar>)), ap) }
      else if c = CHR ''c''
      then (case ap of
              VInt n # ap \<Rightarrow>
                if ty = TInt then Some (iso_pad (set F) w False [] [char_of_byte (ucast n)], ap) else None
            | _ \<Rightarrow> None)
      else if c = CHR ''s''
      then (case ap of
              VStr (Some blk) # ap \<Rightarrow>
                if ty = TInt then map_option (\<lambda>s. (iso_pad (set F) w False [] s, ap)) (iso_str p blk) else None
            | _ \<Rightarrow> None)
      else do {
        (base, digits) \<leftarrow> base_of c;
        (n, ap) \<leftarrow> iso_unsigned ty ap;
        let t = iso_digits base digits p n;
        Some (iso_pad (set F) w (p = None) (iso_prefix c (set F) n t) t, ap) })"

fun iso_printf :: "piece list \<Rightarrow> va_arg list \<Rightarrow> string option" where
  "iso_printf [] ap = Some []"
| "iso_printf (p # ps) ap = do { (t, ap) \<leftarrow> iso_piece p ap; ts \<leftarrow> iso_printf ps ap; Some (t @ ts) }"

section \<open>Where the two agree\<close>

text \<open>
  The differences: after the flag \<open>0\<close> the function fills up before the sign or prefix, and also when there
  is a precision; the precision 0 does not suppress the number 0; \<open>#\<close> is right only for \<open>x\<close> and a number that is
  not 0; \<open>u\<close> takes a sign; \<open>h\<close> is ignored; strings and characters are filled with zeros as well; the least
  \<open>long\<close> is negated. The buffer for digits and the type \<open>int\<close> limit precision and width.
\<close>

definition plain_zero :: "fmt_flag set \<Rightarrow> bool \<Rightarrow> bool" where
  "plain_zero F ok \<longleftrightarrow> ZERO_PADDING \<notin> F \<or> MINUS_FLAG \<in> F \<or> ok"

fun agrees :: "piece \<Rightarrow> va_arg list \<Rightarrow> bool" where
  "agrees (Lit c) ap \<longleftrightarrow> c \<noteq> CHR ''%''"
| "agrees Percent ap \<longleftrightarrow> True"
| "agrees (Conv F w p ty c) ap \<longleftrightarrow>
     set F \<subseteq> {MINUS_FLAG, PLUS_FLAG, SPACE_FLAG, HASH_FLAG, ZERO_PADDING} \<and> ty \<noteq> TShort \<and>
     int w < 2 ^ 31 - 100 \<and> (case p of None \<Rightarrow> True | Some k \<Rightarrow> k \<le> 98) \<and>
     (if c = CHR ''d'' \<or> c = CHR ''i''
      then (case iso_signed ty ap of
              None \<Rightarrow> True
            | Some (n, _) \<Rightarrow> (n = 0 \<longrightarrow> p \<noteq> Some 0) \<and> n \<noteq> - (2 ^ 63) \<and>
                plain_zero (set F) (p = None \<and> iso_sign (set F) n = []))
      else if c = CHR ''c'' \<or> c = CHR ''s'' then plain_zero (set F) False
      else (case iso_unsigned ty ap of
              None \<Rightarrow> True
            | Some (n, _) \<Rightarrow> (n = 0 \<longrightarrow> p \<noteq> Some 0) \<and>
                (c = CHR ''u'' \<longrightarrow> PLUS_FLAG \<notin> set F \<and> SPACE_FLAG \<notin> set F) \<and>
                (HASH_FLAG \<in> set F \<longrightarrow> c = CHR ''u'' \<or> c = CHR ''x'' \<and> n \<noteq> 0) \<and>
                plain_zero (set F) (p = None \<and> (c = CHR ''x'' \<longrightarrow> HASH_FLAG \<notin> set F))))"

text \<open>
  A text that is filled up to its width must fit into what is left; numbers are otherwise
  written beyond the end, strings filled up to the end.
\<close>

fun piece_width :: "piece \<Rightarrow> nat" where
  "piece_width (Conv F w p ty c) = w"
| "piece_width _ = 0"

fun conforms :: "nat \<Rightarrow> piece list \<Rightarrow> va_arg list \<Rightarrow> bool" where
  "conforms left [] ap \<longleftrightarrow> True"
| "conforms left (p # ps) ap \<longleftrightarrow>
     agrees p ap \<and>
     (case iso_piece p ap of
        None \<Rightarrow> True
      | Some (t, ap) \<Rightarrow> (piece_width p < length t \<or> length t \<le> left) \<and> conforms (left - length t) ps ap)"

section \<open>Numbers\<close>

lemma numeral_text_not_Nil [simp]: "numeral_text b ds n \<noteq> []"
  by (subst numeral_text.simps) simp

lemma length_numeral_text: "2 \<le> b \<Longrightarrow> n < b ^ k \<Longrightarrow> 0 < k \<Longrightarrow> length (numeral_text b ds n) \<le> k"
proof (induction k arbitrary: n)
  case 0
  then show ?case by simp
next
  case (Suc k)
  show ?case
  proof (cases "n < b")
    case True
    then show ?thesis by (simp add: numeral_text.simps [of b ds n])
  next
    case False
    with Suc.prems have "n div b < b ^ k" "0 < k"
      by (auto simp: less_mult_imp_div_less mult.commute intro: gr0I)
    with Suc False show ?thesis by (simp add: numeral_text.simps [of b ds n])
  qed
qed

lemma length_numeral_64: "2 \<le> b \<Longrightarrow> n < 2 ^ 64 \<Longrightarrow> length (numeral_text b ds n) \<le> 64"
  using power_mono [of 2 b 64] by (intro length_numeral_text) auto

text \<open>The loop over the digits: the number, behind zeros up to the precision.\<close>

lemma main_conversion_text:
  assumes "2 \<le> b" "ds ! 0 = CHR ''0''" "length (numeral_text b ds n) \<le> room" "p \<le> int room"
  shows "main_conversion (int b) ds room (int n) p tmp =
    replicate (nat p - length (numeral_text b ds n)) (CHR ''0'') @ numeral_text b ds n @ tmp"
  using assms(3,4)
proof (induction room arbitrary: n p tmp)
  case 0
  then show ?case by simp
next
  case (Suc room)
  have step: "nat (int n mod int b) = n mod b" "int n div int b = int (n div b)"
    by (simp_all add: nat_mod_as_int zdiv_int)
  show ?case
  proof (cases "n < b")
    case False
    with assms(1) have q: "n div b \<noteq> 0" by (simp add: div_eq_0_iff)
    have t: "numeral_text b ds n = numeral_text b ds (n div b) @ [ds ! (n mod b)]"
      using False assms(1) by (subst numeral_text.simps) simp
    then have "0 < room" using Suc.prems by (cases room) auto
    moreover have "nat p - Suc k = nat (p - 1) - k" for k by simp
    ultimately show ?thesis using Suc q by (simp add: step t Let_def)
  next
    case True
    then have t: "numeral_text b ds n = [ds ! n]" by (subst numeral_text.simps) simp
    show ?thesis
    proof (cases "1 < p")
      case False
      with True show ?thesis by (simp add: step t Let_def)
    next
      case p: True
      have z: "numeral_text b ds 0 = [CHR ''0'']" using assms by (subst numeral_text.simps) auto
      have "replicate (nat p - 2) (CHR ''0'') @ CHR ''0'' # ds ! n # tmp =
        replicate (nat p - 1) (CHR ''0'') @ ds ! n # tmp"
        using p by (metis One_nat_def Suc_1 Suc_diff_Suc Suc_diff_1 append_Cons append.left_neutral
            append_assoc less_numeral_extra(3) nat_less_eq_zless numeral_2_eq_2 one_less_nat_eq replicate_Suc
            replicate_append_same zero_less_diff zless_nat_conj)
      moreover have "nat (p - 1) - 1 = nat p - 2" by simp
      ultimately show ?thesis
        using Suc.IH [of 0 "p - 1"] Suc.prems True p by (simp add: step t z Let_def)
    qed
  qed
qed

lemma put_prefix_text: "length pre \<le> room \<Longrightarrow> put_prefix room pre tmp = rev pre @ tmp"
  by (induction room pre tmp rule: put_prefix.induct) auto

lemma length_number_prefix: "length (number_prefix b F) \<le> 2"
  by (simp add: number_prefix_def)

lemma convert_ulong_exact:
  fixes u :: "64 word" and b w :: nat and p left :: int and ds :: string and F :: "fmt_flag set"
  defines "t \<equiv> numeral_text b ds (unat u)"
  defines "body \<equiv> rev (number_prefix (int b) F) @ replicate (nat p - length t) (CHR ''0'') @ t"
  defines "pad \<equiv> replicate (w - length body) (if ZERO_PADDING \<in> F then CHR ''0'' else CHR '' '')"
  defines "out \<equiv> if MINUS_FLAG \<in> F then body @ pad else pad @ body"
  assumes "2 \<le> b" "ds ! 0 = CHR ''0''" "int w < 2 ^ 31 - 100" "p \<le> 98"
  shows "snprintf_convert_ulong left (int b) ds u F (int w) p =
    (if int (length body) \<le> left then Some out else Some (take (nat left) body))"
proof -
  have "unat u < 2 ^ 64" using unsigned_less [of u] by simp
  then have t: "length t \<le> 64" using assms(5) by (simp add: t_def length_numeral_64)
  have u: "uint u = int (unat u)" by simp
  let ?ds = "replicate (nat p - length t) (CHR ''0'') @ t"
  have 1: "main_conversion (int b) ds (100 + w) (uint u) p [] = ?ds"
    using assms(5,6,8) t unfolding u t_def by (subst main_conversion_text) auto
  have 2: "put_prefix (100 + w - length ?ds) (number_prefix (int b) F) ?ds = body"
    using length_number_prefix [of "int b" F] assms(8) t by (simp add: put_prefix_text body_def)
  have 3: "length body \<le> 100"
    using length_number_prefix [of "int b" F] assms(8) t by (simp add: body_def)
  have 4: "c_int (100 + int w) = Some (100 + int w)" using assms(7) by simp
  have 5: "nat (100 + int w) = 100 + w" "nat (int w - int (length body)) = w - length body"
    by simp_all
  show ?thesis
    unfolding snprintf_convert_ulong_def 4 bind.bind_lunit Let_def 5 1 2
    using 3 by (simp add: out_def pad_def 5)
qed

lemma convert_ulong_text:
  fixes u :: "64 word" and b w :: nat and p left :: int and ds :: string and F :: "fmt_flag set"
  defines "t \<equiv> numeral_text b ds (unat u)"
  defines "body \<equiv> rev (number_prefix (int b) F) @ replicate (nat p - length t) (CHR ''0'') @ t"
  defines "pad \<equiv> replicate (w - length body) (if ZERO_PADDING \<in> F then CHR ''0'' else CHR '' '')"
  defines "out \<equiv> if MINUS_FLAG \<in> F then body @ pad else pad @ body"
  assumes "2 \<le> b" "ds ! 0 = CHR ''0''" "int w < 2 ^ 31 - 100" "p \<le> 98" "w < length out \<or> int (length out) \<le> left"
    "0 < left"
  shows "snprintf_convert_ulong left (int b) ds u F (int w) p = Some (take (nat left) out)"
  using convert_ulong_exact [OF assms(5-8), of left u F] assms(9,10) unfolding t_def [symmetric] body_def [symmetric]
  by (cases "int (length body) \<le> left") (auto simp: out_def pad_def split: if_splits)

section \<open>One directive\<close>

text \<open>The directive as the function reads it.\<close>

fun type_flags :: "int_type \<Rightarrow> fmt_flag set" where
  "type_flags TInt = {}"
| "type_flags TShort = {CONV_TO_SHORT}"
| "type_flags TLong = {IS_LONG_INT}"
| "type_flags TLongLong = {IS_LONG_LONG_INT}"
| "type_flags TI64 = {IS_LONG_LONG_INT}"

definition directive_of :: "fmt_flag list \<Rightarrow> nat \<Rightarrow> nat option \<Rightarrow> int_type \<Rightarrow> char \<Rightarrow> directive" where
  "directive_of F w p ty c =
     \<lparr>d_flags = (if MINUS_FLAG \<in> set F \<and> ZERO_PADDING \<in> set F then set F - {ZERO_PADDING} else set F) \<union>
        type_flags ty \<union> (if c = CHR ''X'' then {X_UPCASE} else {}) \<union> (if c = CHR ''o'' then {UNSIGNED_DEC} else {}),
      d_width = int w, d_precision = (case p of None \<Rightarrow> - 1 | Some k \<Rightarrow> int k), d_char = c\<rparr>"

lemma directive_of_sel [simp]:
  "d_width (directive_of F w p ty c) = int w"
  "d_precision (directive_of F w p ty c) = (case p of None \<Rightarrow> - 1 | Some k \<Rightarrow> int k)"
  "d_char (directive_of F w p ty c) = c"
  by (simp_all add: directive_of_def)

abbreviation iso_flags :: "fmt_flag set" where
  "iso_flags \<equiv> {MINUS_FLAG, PLUS_FLAG, SPACE_FLAG, HASH_FLAG, ZERO_PADDING}"

lemma directive_flags:
  fixes F w p ty c
  defines "fl \<equiv> d_flags (directive_of F w p ty c)"
  assumes "set F \<subseteq> iso_flags"
  shows "MINUS_FLAG \<in> fl \<longleftrightarrow> MINUS_FLAG \<in> set F" "PLUS_FLAG \<in> fl \<longleftrightarrow> PLUS_FLAG \<in> set F"
    "SPACE_FLAG \<in> fl \<longleftrightarrow> SPACE_FLAG \<in> set F" "HASH_FLAG \<in> fl \<longleftrightarrow> HASH_FLAG \<in> set F"
    "ZERO_PADDING \<in> fl \<longleftrightarrow> ZERO_PADDING \<in> set F \<and> MINUS_FLAG \<notin> set F" "IS_NEGATIVE \<notin> fl"
    "UNSIGNED_DEC \<in> fl \<longleftrightarrow> c = CHR ''o''" "IS_LONG_INT \<in> fl \<longleftrightarrow> ty = TLong"
    "IS_LONG_LONG_INT \<in> fl \<longleftrightarrow> ty = TLongLong \<or> ty = TI64"
  using assms by (cases ty; auto simp: directive_of_def)+

lemma va_signed_iso:
  "set F \<subseteq> iso_flags \<Longrightarrow> ty \<noteq> TShort \<Longrightarrow> va_signed (d_flags (directive_of F w p ty c)) ap = iso_signed ty ap"
  by (cases ap rule: list.exhaust; cases "hd ap"; cases ty) (auto simp: directive_flags)

lemma va_unsigned_iso:
  "set F \<subseteq> iso_flags \<Longrightarrow> ty \<noteq> TShort \<Longrightarrow>
     va_unsigned (d_flags (directive_of F w p ty c)) ap =
     map_option (\<lambda>(n, ap). (word_of_nat n, ap)) (iso_unsigned ty ap)"
  by (cases ap rule: list.exhaust; cases "hd ap"; cases ty) (auto simp: directive_flags unsigned_of_nat)

lemma unat_less_64:
  "unat (v :: 32 word) < 2 ^ 64" "unat (u :: 16 word) < 2 ^ 64" "unat (x :: 64 word) < 2 ^ 64"
  using unsigned_less [of v, where 'a = nat] unsigned_less [of u, where 'a = nat] unsigned_less [of x, where 'a = nat]
  by simp_all

lemma iso_unsigned_less: "iso_unsigned ty ap = Some (n, ap') \<Longrightarrow> n < 2 ^ 64"
  by (induction ty ap rule: iso_unsigned.induct) (use unat_less_64 in auto)

lemma iso_signed_range: "iso_signed ty ap = Some (n, ap') \<Longrightarrow> - (2 ^ 63) \<le> n \<and> n < 2 ^ 63"
proof -
  have "- (2 ^ 63) \<le> sint (v :: 32 word) \<and> sint v < 2 ^ 63" "- (2 ^ 63) \<le> sint (u :: 16 word) \<and> sint u < 2 ^ 63"
    "- (2 ^ 63) \<le> sint (x :: 64 word) \<and> sint x < 2 ^ 63" for v u x
    using sint_ge [of v] sint_lt [of v] sint_ge [of u] sint_lt [of u] sint_ge [of x] sint_lt [of x] by simp_all
  then show "iso_signed ty ap = Some (n, ap') \<Longrightarrow> - (2 ^ 63) \<le> n \<and> n < 2 ^ 63"
    by (induction ty ap rule: iso_signed.induct) auto
qed

lemma iso_digits_eq:
  "(n = 0 \<longrightarrow> p \<noteq> Some 0) \<Longrightarrow> iso_digits b ds p n =
     replicate (nat (case p of None \<Rightarrow> 0 | Some k \<Rightarrow> int k) - length (numeral_text b ds n)) (CHR ''0'') @ numeral_text b ds n"
  by (cases p) (auto simp: iso_digits_def Let_def)

lemma iso_pad_eq:
  assumes "plain_zero F (ok \<and> pre = [])" "MINUS_FLAG \<in> G \<longleftrightarrow> MINUS_FLAG \<in> F"
    "ZERO_PADDING \<in> G \<longleftrightarrow> ZERO_PADDING \<in> F \<and> MINUS_FLAG \<notin> F"
  shows "iso_pad F w ok pre t =
    (let body = pre @ t; pad = replicate (w - length body) (if ZERO_PADDING \<in> G then CHR ''0'' else CHR '' '')
     in if MINUS_FLAG \<in> G then body @ pad else pad @ body)"
  using assms by (auto simp: iso_pad_def plain_zero_def Let_def)

text \<open>Numbers, with the prefix \<open>pre\<close> that the function makes from its flags \<open>G\<close>.\<close>

lemma convert_ulong_iso:
  assumes "2 \<le> b" "ds ! 0 = CHR ''0''" "n < 2 ^ 64" "n = 0 \<longrightarrow> p \<noteq> Some 0" "case p of None \<Rightarrow> True | Some k \<Rightarrow> k \<le> 98"
    and G: "rev (number_prefix (int b) G) = pre" "MINUS_FLAG \<in> G \<longleftrightarrow> MINUS_FLAG \<in> F"
      "ZERO_PADDING \<in> G \<longleftrightarrow> ZERO_PADDING \<in> F \<and> MINUS_FLAG \<notin> F" "plain_zero F (ok \<and> pre = [])"
    and t: "t = iso_pad F w ok pre (iso_digits b ds p n)"
    and w: "int w < 2 ^ 31 - 100" "w < length t \<or> int (length t) \<le> left" "0 < left"
  shows "snprintf_convert_ulong left (int b) ds (word_of_nat n) G (int w)
    (case p of None \<Rightarrow> 0 | Some k \<Rightarrow> int k) = Some (take (nat left) t)"
proof -
  have n: "unat (word_of_nat n :: 64 word) = n" using assms(3) by (simp add: unat_of_nat)
  have le: "(case p of None \<Rightarrow> 0 | Some k \<Rightarrow> int k) \<le> 98" using assms(5) by (simp split: option.splits)
  note digits = iso_digits_eq [OF assms(4), of b ds]
  show ?thesis
    using convert_ulong_text [where u = "word_of_nat n" and b = b and ds = ds and F = G and w = w and left = left
        and p = "case p of None \<Rightarrow> 0 | Some k \<Rightarrow> int k"] assms(1,2) w le
    unfolding n G(1) t iso_pad_eq [OF G(4,2,3)] digits Let_def by blast
qed

lemma precision_of: "(if 0 \<le> (case p of None \<Rightarrow> - 1 | Some k \<Rightarrow> int k)
  then case p of None \<Rightarrow> - 1 | Some k \<Rightarrow> int k else 0) = (case p of None \<Rightarrow> 0 | Some k \<Rightarrow> int k)"
  by (cases p) simp_all

lemma convert_di:
  "d_char d = CHR ''d'' \<or> d_char d = CHR ''i'' \<Longrightarrow> convert sprintf d ap pos left = do {
     (long_val, ap) \<leftarrow> va_signed (d_flags d) ap;
     if long_val = - (2 ^ 63) then None
     else do {
       out \<leftarrow> snprintf_convert_ulong left 10 ''0123456789'' (word_of_int \<bar>long_val\<bar>)
               (if long_val < 0 then insert IS_NEGATIVE (d_flags d) else d_flags d) (d_width d)
               (if 0 \<le> d_precision d then d_precision d else 0);
       Some (out, ap, []) } }"
  unfolding convert_def Let_def by (elim disjE) (simp_all only: if_True simp_thms char.inject)

lemma convert_signed:
  assumes "agrees (Conv F w p ty c) ap" "c = CHR ''d'' \<or> c = CHR ''i''" "iso_piece (Conv F w p ty c) ap = Some (t, ap')"
    "w < length t \<or> int (length t) \<le> left" "0 < left"
  shows "convert sprintf (directive_of F w p ty c) ap pos left = Some (take (nat left) t, ap', [])"
proof -
  let ?G = "d_flags (directive_of F w p ty c)"
  have ag: "set F \<subseteq> iso_flags" "ty \<noteq> TShort" "int w < 2 ^ 31 - 100" "case p of None \<Rightarrow> True | Some k \<Rightarrow> k \<le> 98"
    using assms(1) by simp_all
  obtain n where n: "iso_signed ty ap = Some (n, ap')"
    and t: "t = iso_pad (set F) w (p = None) (iso_sign (set F) n) (iso_digits 10 ''0123456789'' p (nat \<bar>n\<bar>))"
    using assms(2,3) by (auto split: bind_splits)
  have cond: "n = 0 \<longrightarrow> p \<noteq> Some 0" "n \<noteq> - (2 ^ 63)" "plain_zero (set F) (p = None \<and> iso_sign (set F) n = [])"
    using assms(1,2) n by auto
  have va: "va_signed ?G ap = Some (n, ap')" using va_signed_iso [OF ag(1,2)] n by simp
  have "- (2 ^ 63) \<le> n \<and> n < 2 ^ 63"
    using iso_signed_range [OF n] .
  then have less: "nat \<bar>n\<bar> < 2 ^ 64" by auto
  define H where "H = (if n < 0 then insert IS_NEGATIVE ?G else ?G)"
  have H: "rev (number_prefix (int 10) H) = iso_sign (set F) n" "MINUS_FLAG \<in> H \<longleftrightarrow> MINUS_FLAG \<in> set F"
    "ZERO_PADDING \<in> H \<longleftrightarrow> ZERO_PADDING \<in> set F \<and> MINUS_FLAG \<notin> set F"
    using assms(2) by (auto simp: H_def number_prefix_def iso_sign_def directive_flags [OF ag(1)])
  have u: "word_of_int \<bar>n\<bar> = (word_of_nat (nat \<bar>n\<bar>) :: 64 word)"
    by (metis abs_ge_zero nat_0_le of_int_of_nat_eq)
  have "snprintf_convert_ulong left 10 ''0123456789'' (word_of_int \<bar>n\<bar>) H (int w)
    (case p of None \<Rightarrow> 0 | Some k \<Rightarrow> int k) = Some (take (nat left) t)"
    using convert_ulong_iso [where b = 10 and ds = "''0123456789''" and n = "nat \<bar>n\<bar>", OF _ _ less _ ag(4) H cond(3) t ag(3) assms(4,5)]
      cond(1) unfolding u by simp
  then show ?thesis
    using cond(2) unfolding convert_di [of "directive_of F w p ty c", unfolded directive_of_sel, OF assms(2)] va
      precision_of H_def by (simp only: bind.bind_lunit prod.case if_False)
qed

lemma iso_prefix_unsigned:
  assumes "set F \<subseteq> iso_flags" "base_of c = Some (b, ds)" "c = CHR ''u'' \<longrightarrow> PLUS_FLAG \<notin> set F \<and> SPACE_FLAG \<notin> set F"
    "HASH_FLAG \<in> set F \<longrightarrow> c = CHR ''u'' \<or> c = CHR ''x'' \<and> n \<noteq> 0"
  shows "rev (number_prefix (int b) (d_flags (directive_of F w p ty c))) = iso_prefix c (set F) n t"
proof -
  have "HASH_FLAG \<in> set F \<Longrightarrow> d_flags (directive_of F w p ty c) \<noteq> {}"
    using directive_flags(4) [OF assms(1), of w p ty c] by auto
  then show ?thesis
    using assms(2-4) unfolding base_of_def
    by (auto simp: number_prefix_def iso_prefix_def directive_flags [OF assms(1)] split: if_splits)
qed

lemma convert_unsigned:
  assumes "agrees (Conv F w p ty c) ap" "base_of c = Some (b, ds)" "iso_piece (Conv F w p ty c) ap = Some (t, ap')"
    "w < length t \<or> int (length t) \<le> left" "0 < left"
  shows "convert sprintf (directive_of F w p ty c) ap pos left = Some (take (nat left) t, ap', [])"
proof -
  let ?G = "d_flags (directive_of F w p ty c)"
  have ag: "set F \<subseteq> iso_flags" "ty \<noteq> TShort" "int w < 2 ^ 31 - 100" "case p of None \<Rightarrow> True | Some k \<Rightarrow> k \<le> 98"
    using assms(1) by simp_all
  have c: "c \<noteq> CHR ''d'' \<and> c \<noteq> CHR ''i'' \<and> c \<noteq> CHR ''c'' \<and> c \<noteq> CHR ''s''"
    using assms(2) by (auto simp: base_of_def)
  obtain n where n: "iso_unsigned ty ap = Some (n, ap')"
    and t: "t = iso_pad (set F) w (p = None) (iso_prefix c (set F) n (iso_digits b ds p n)) (iso_digits b ds p n)"
    using assms(2,3) c by (auto simp: Let_def split: bind_splits)
  have cond: "n = 0 \<longrightarrow> p \<noteq> Some 0" "c = CHR ''u'' \<longrightarrow> PLUS_FLAG \<notin> set F \<and> SPACE_FLAG \<notin> set F"
    "HASH_FLAG \<in> set F \<longrightarrow> c = CHR ''u'' \<or> c = CHR ''x'' \<and> n \<noteq> 0"
    "plain_zero (set F) (p = None \<and> (c = CHR ''x'' \<longrightarrow> HASH_FLAG \<notin> set F))"
    using assms(1) c n by auto
  have z: "plain_zero (set F) (p = None \<and> iso_prefix c (set F) n (iso_digits b ds p n) = [])"
    using cond(3,4) by (auto simp: plain_zero_def iso_prefix_def)
  have b: "2 \<le> b" "ds ! 0 = CHR ''0''" using assms(2) by (auto simp: base_of_def split: if_splits)
  note pre = iso_prefix_unsigned [OF ag(1) assms(2) cond(2,3), of w p ty "iso_digits b ds p n"]
  have "snprintf_convert_ulong left (int b) ds (word_of_nat n) ?G (int w)
    (case p of None \<Rightarrow> 0 | Some k \<Rightarrow> int k) = Some (take (nat left) t)"
    by (rule convert_ulong_iso [OF b iso_unsigned_less [OF n] cond(1) ag(4) pre _ _ z t ag(3) assms(4,5)])
      (simp_all add: directive_flags [OF ag(1)])
  then have "convert_ulong left (int b) ds (directive_of F w p ty c) (case p of None \<Rightarrow> 0 | Some k \<Rightarrow> int k) ap =
    Some (take (nat left) t, ap', [])"
    using va_unsigned_iso [OF ag(1,2), of w p c ap] n by (simp add: convert_ulong_def)
  then show ?thesis
    using assms(2) unfolding convert_def directive_of_sel precision_of Let_def base_of_def by (auto split: if_splits)
qed

text \<open>Characters and strings are filled up with blanks.\<close>

lemma convert_c:
  assumes "agrees (Conv F w p ty (CHR ''c'')) ap" "iso_piece (Conv F w p ty (CHR ''c'')) ap = Some (t, ap')"
    "w < length t \<or> int (length t) \<le> left" "0 < left"
  shows "convert sprintf (directive_of F w p ty (CHR ''c'')) ap pos left = Some (take (nat left) t, ap', [])"
proof -
  have ag: "set F \<subseteq> iso_flags" "plain_zero (set F) False" using assms(1) by simp_all
  obtain v where v: "ap = VInt v # ap'" "ty = TInt" "t = iso_pad (set F) w False [] [char_of_byte (ucast v)]"
    using assms(2) by (auto split: list.splits va_arg.splits if_splits)
  have "char_of_byte (ucast (ucast v :: 64 word)) = char_of_byte (ucast v)" by (simp add: unsigned_ucast_eq take_bit_word_eq_self)
  moreover have "convert_char left x (d_flags (directive_of F w p ty (CHR ''c''))) (int w) = take (nat left) t"
    if "x = char_of_byte (ucast v)" for x
    using assms(3,4) that ag(2) unfolding v(3) convert_char_def
    by (auto simp: iso_pad_def plain_zero_def directive_flags [OF ag(1)] Let_def nat_diff_distrib)
  ultimately show ?thesis
    using v(1,2) by (simp add: convert_def directive_flags [OF ag(1)])
qed

lemma convert_s:
  assumes "agrees (Conv F w p ty (CHR ''s'')) ap" "iso_piece (Conv F w p ty (CHR ''s'')) ap = Some (t, ap')"
    "w < length t \<or> int (length t) \<le> left" "0 < left"
  shows "convert sprintf (directive_of F w p ty (CHR ''s'')) ap pos left = Some (take (nat left) t, ap', [])"
proof -
  have ag: "set F \<subseteq> iso_flags" "plain_zero (set F) False" using assms(1) by simp_all
  let ?G = "d_flags (directive_of F w p ty (CHR ''s''))"
  obtain blk s where v: "ap = VStr (Some blk) # ap'" "iso_str p blk = Some s" "t = iso_pad (set F) w False [] s"
    using assms(2) by (auto split: list.splits va_arg.splits option.splits if_splits)
  let ?p = "case p of None \<Rightarrow> - 1 | Some k \<Rightarrow> int k"
  have prec: "(if ?p < 0 \<or> NUL \<in> set (take (nat ?p) blk) then map_option (\<lambda>s. int (length s)) (c_str blk)
     else if int (length blk) < ?p then None else Some ?p) = Some (int (length s))"
    using v(2) by (auto simp: iso_str_def split: option.splits if_splits)
  have s: "take (length s) blk = s"
    using v(2) by (auto simp: iso_str_def c_str_def takeWhile_eq_take [symmetric] split: option.splits if_splits)
  then have cut: "take (nat left) blk = take (nat left) s" if "left < int (length s)"
    using that by (metis less_imp_le min.absorb1 nat_le_iff take_take)
  have len: "length t = max w (length s)" by (auto simp: v(3) iso_pad_def Let_def)
  have t: "t = (if MINUS_FLAG \<in> ?G then s @ replicate (w - length s) (CHR '' '') else replicate (w - length s) (CHR '' '') @ s)"
    and z: "ZERO_PADDING \<notin> ?G"
    using ag(2) by (auto simp: v(3) iso_pad_def plain_zero_def directive_flags [OF ag(1)] Let_def)
  have "convert_str left (Some blk) ?G (int w) ?p = Some (take (nat left) t)"
  proof (cases "w < length s")
    case True
    then show ?thesis
      using z s cut assms(4) unfolding convert_str_def option.case prec bind.bind_lunit Let_def
      by (simp add: t)
  next
    case False
    then have "int w \<le> left" "int (length s) \<le> int w" using assms(3) len by auto
    then show ?thesis
      using z s unfolding convert_str_def option.case prec bind.bind_lunit Let_def
      by (simp add: t nat_diff_distrib)
  qed
  then show ?thesis using v(1) by (simp add: convert_def)
qed

lemma convert_agrees:
  assumes "agrees (Conv F w p ty c) ap" "iso_piece (Conv F w p ty c) ap = Some (t, ap')"
    "w < length t \<or> int (length t) \<le> left" "0 < left"
  shows "convert sprintf (directive_of F w p ty c) ap pos left = Some (take (nat left) t, ap', [])"
proof (cases "base_of c")
  case None
  then have "c = CHR ''d'' \<or> c = CHR ''i'' \<or> c = CHR ''c'' \<or> c = CHR ''s''"
    using assms(2) by (auto split: if_splits)
  then consider "c = CHR ''d'' \<or> c = CHR ''i''" | "c = CHR ''c''" | "c = CHR ''s''" by blast
  then show ?thesis
  proof cases
    case 1
    then show ?thesis using convert_signed [OF assms(1) _ assms(2-4)] by simp
  next
    case 2
    show ?thesis using convert_c [OF assms [unfolded 2]] unfolding 2 .
  next
    case 3
    show ?thesis using convert_s [OF assms [unfolded 3]] unfolding 3 .
  qed
next
  case (Some bd)
  then show ?thesis using convert_unsigned [OF assms(1) _ assms(2-4)] by (cases bd) simp
qed

section \<open>Reading a directive\<close>

lemma get_flags_text:
  "set F \<subseteq> iso_flags \<Longrightarrow> r \<noteq> [] \<Longrightarrow> flag_of (hd r) = None \<Longrightarrow>
     get_flags G (concat (map flag_text F) @ r) = (G \<union> set F, r)"
proof (induction F arbitrary: G)
  case Nil
  then show ?case by (cases r) auto
next
  case (Cons f F)
  then show ?case by (auto simp: flag_of_def)
qed

lemma of_char_digit_int [simp]: "n < 10 \<Longrightarrow> (of_char (digit n) :: int) = 48 + int n"
  using of_char_digit [of n] by (metis of_nat_add of_nat_numeral of_nat_of_char)

lemma get_number_dec: "int n < 2 ^ 31 - 100 \<Longrightarrow> get_number 0 (dec n @ r) = get_number (int n) r"
proof (induction n arbitrary: r rule: dec.induct)
  case (1 n)
  show ?case
  proof (cases "n < 10")
    case True
    then show ?thesis by (simp add: dec.simps [of n])
  next
    case False
    have "10 * int (n div 10) + int (n mod 10) = int n" by presburger
    with 1 False show ?thesis by (simp add: dec.simps [of n])
  qed
qed

lemma get_number_text:
  "int n < 2 ^ 31 - 100 \<Longrightarrow> r \<noteq> [] \<Longrightarrow> \<not> isdigit (hd r) \<Longrightarrow> get_number 0 (dec n @ r) = Some (int n, r)"
  by (cases r) (simp_all add: get_number_dec)

lemma hd_dec: "isdigit (hd (dec n))" "0 < n \<Longrightarrow> hd (dec n) \<noteq> CHR ''0''"
proof -
  show "isdigit (hd (dec n))" using dec_isdigit [of "hd (dec n)" n] by simp
  show "hd (dec n) \<noteq> CHR ''0''" if "0 < n"
    using that
  proof (induction n rule: dec.induct)
    case (1 n)
    have "digit n \<noteq> CHR ''0''" if "n < 10"
    proof
      assume "digit n = CHR ''0''"
      then have "(of_char (digit n) :: nat) = 48" by simp
      with that 1(2) show False by simp
    qed
    then show ?case using 1 by (cases "n < 10") (auto simp: dec.simps [of n])
  qed
qed

lemma get_width_text:
  assumes "int w < 2 ^ 31 - 100" "r \<noteq> []" "\<not> isdigit (hd r)" "hd r \<noteq> CHR ''*''"
  shows "get_width ((if w = 0 then [] else dec w) @ r) = Some (int w, r)"
  using assms hd_dec(1) [of w] by (auto simp: get_width_def get_number_text)

lemma get_precision_text:
  assumes "case p of None \<Rightarrow> True | Some k \<Rightarrow> k \<le> 98" "r \<noteq> []" "\<not> isdigit (hd r)" "hd r \<noteq> CHR ''.''"
  shows "get_precision ((case p of None \<Rightarrow> [] | Some k \<Rightarrow> ''.'' @ dec k) @ r) =
    Some (case p of None \<Rightarrow> - 1 | Some k \<Rightarrow> int k, r)"
  using assms hd_dec(1) by (cases p) (auto simp: get_precision_def get_number_text)

lemma get_type_text:
  "c \<in> set ''dicsuxXo'' \<Longrightarrow> get_type (type_text ty @ c # r) = (type_flags ty, c # r)"
  by (cases ty) (auto simp: get_type_def)

lemma get_directive_text:
  assumes F: "set F \<subseteq> iso_flags" and w: "int w < 2 ^ 31 - 100" and p: "case p of None \<Rightarrow> True | Some k \<Rightarrow> k \<le> 98"
    and c: "c \<in> set ''dicsuxXo''"
  shows "snprintf_get_directive (tl (piece_text (Conv F w p ty c)) @ r) = Some (Some (directive_of F w p ty c, r))"
proof -
  let ?T = "type_text ty @ c # r"
  let ?P = "(case p of None \<Rightarrow> [] | Some k \<Rightarrow> ''.'' @ dec k) @ ?T"
  let ?W = "(if w = 0 then [] else dec w) @ ?P"
  have T: "\<not> isdigit (hd ?T)" "hd ?T \<noteq> CHR ''.''" "hd ?T \<noteq> CHR ''*''" "flag_of (hd ?T) = None"
    using c by (cases ty; auto simp: isdigit_def flag_of_def)+
  then have P: "?P \<noteq> []" "\<not> isdigit (hd ?P)" "hd ?P \<noteq> CHR ''*''" "flag_of (hd ?P) = None"
    by (cases p; auto simp: isdigit_def flag_of_def)+
  have "flag_of (hd (dec w)) = None" if "w \<noteq> 0"
    using hd_dec [of w] that by (auto simp: flag_of_def isdigit_def)
  with P have "?W \<noteq> []" "flag_of (hd ?W) = None" by auto
  then have "get_flags {} (concat (map flag_text F) @ ?W) = (set F, ?W)"
    using get_flags_text [OF F] by simp
  moreover have "get_width ?W = Some (int w, ?P)" using get_width_text w P by blast
  moreover have "get_precision ?P = Some (case p of None \<Rightarrow> - 1 | Some k \<Rightarrow> int k, ?T)"
    using get_precision_text p T by simp
  moreover have "get_type ?T = (type_flags ty, c # r)" using get_type_text c by blast
  ultimately show ?thesis
    using c unfolding snprintf_get_directive_def by (auto simp: directive_of_def Let_def)
qed

lemma hd_conv_text:
  assumes "set F \<subseteq> iso_flags" "c \<in> set ''dicsuxXo''"
  shows "hd (tl (piece_text (Conv F w p ty c)) @ r) \<noteq> CHR ''%''"
proof (cases F)
  case (Cons f fs)
  with assms show ?thesis by auto
next
  case Nil
  have "hd (dec w) \<noteq> CHR ''%''" using hd_dec(1) [of w] by (auto simp: isdigit_def)
  with Nil assms(2) show ?thesis by (cases "w = 0"; cases p; cases ty; auto)
qed

section \<open>The whole format\<close>

definition loop_result :: "string \<Rightarrow> nat \<Rightarrow> nat \<Rightarrow> char list \<Rightarrow> int list \<Rightarrow> int \<times> char list \<times> int list" where
  "loop_result t pos left blk counts =
     (if length t < left then int (pos + length t) else - 1,
      take pos blk @ take left t @ [NUL] @ drop (pos + min left (length t) + 1) blk, counts)"

lemma loop_result_append:
  assumes "pos + left < length blk"
  shows "loop_result ts (pos + min left (length t)) (left - length t)
      (take pos blk @ take left t @ drop (pos + min left (length t)) blk) counts =
    loop_result (t @ ts) pos left blk counts"
proof -
  have "take pos (take pos blk @ xs) = take pos blk" for xs using assms by simp
  then show ?thesis
    using assms by (cases "length t < left") (auto simp: loop_result_def min_def ac_simps)
qed

lemma loop_full: "left \<le> 0 \<Longrightarrow> format_loop sprintf n f ap pos left blk counts = finish pos blk (- 1) counts"
  by (cases f) simp_all

lemma finish_result:
  "pos + left < length blk \<Longrightarrow> finish (int pos) blk r counts =
     Some (r, take pos blk @ [NUL] @ drop (pos + 1) blk, counts)"
  by (simp add: finish_def poke_def nat_add_distrib)

lemma returned_length:
  assumes "uint (n :: 64 word) = int pos + int left + 1" "pos + left + 1 < 2 ^ 31"
  shows "sint (ucast (n - word_of_int (int left) - 1) :: 32 word) = int pos"
proof -
  have "n = word_of_int (int pos + int left + 1)" using assms(1) by (metis word_of_int_uint)
  then have "n - word_of_int (int left) - 1 = word_of_nat pos" by simp
  moreover have "take_bit 64 pos = pos" using assms(2) by (simp add: take_bit_nat_eq_self)
  ultimately have "(ucast (n - word_of_int (int left) - 1) :: 32 word) = word_of_int (int pos)"
    by (simp add: unsigned_of_nat)
  then show ?thesis using assms(2) sint_word_of_int_32 [of "int pos"] by simp
qed

lemma format_text_Cons: "format_text (p # ps) = piece_text p @ format_text ps"
  by (simp add: format_text_def)

lemma format_loop_text:
  assumes "iso_printf ps ap = Some full" "conforms left ps ap" "uint n = int pos + int left + 1"
    "pos + left + 1 < 2 ^ 31" "pos + left < length blk"
  shows "format_loop sprintf n (format_text ps) ap (int pos) (int left) blk counts =
    Some (loop_result full pos left blk counts)"
  using assms
proof (induction ps arbitrary: ap full pos left blk)
  case Nil
  then show ?case
    using returned_length [OF Nil.prems(3,4)]
    by (simp add: format_text_def loop_result_def finish_result)
next
  case (Cons pce ps)
  obtain t ap' ts where t: "iso_piece pce ap = Some (t, ap')" and ts: "iso_printf ps ap' = Some ts" "full = t @ ts"
    using Cons.prems(1) by (auto split: bind_splits)
  have ag: "agrees pce ap" "piece_width pce < length t \<or> length t \<le> left" "conforms (left - length t) ps ap'"
    using Cons.prems(2) t by auto
  let ?out = "take left t" and ?f = "format_text ps"
  let ?blk = "take pos blk @ ?out @ drop (pos + min left (length t)) blk"
  have poke: "poke (int pos) ?out blk = Some ?blk"
    using Cons.prems(5) by (simp add: poke_def nat_add_distrib min.commute)
  have rest: "format_loop sprintf n ?f ap' (int pos + int (length ?out)) (int left - int (length ?out)) ?blk counts =
    Some (loop_result full pos left blk counts)"
  proof -
    have i: "int pos + int (length ?out) = int (pos + min left (length t))"
      "int left - int (length ?out) = int (left - length t)" by (simp_all add: min_def)
    show ?thesis
      unfolding i ts(2) loop_result_append [OF Cons.prems(5), symmetric]
      using Cons.prems(3-5) by (intro Cons.IH [OF ts(1) ag(3)]) (auto simp: min_def)
  qed
  show ?case
  proof (cases "left = 0")
    case True
    then show ?thesis
      using Cons.prems(5) finish_result [of pos 0 blk] by (simp add: loop_full loop_result_def)
  next
    case False
    show ?thesis
    proof (cases pce)
      case (Lit c)
      then have "take left t = [c]" "ap' = ap" using t False by (cases left; auto)+
      with Lit show ?thesis using ag(1) rest poke False by (simp add: format_text_Cons)
    next
      case Percent
      then have "take left t = ''%''" "ap' = ap" using t False by (cases left; auto)+
      with Percent show ?thesis using rest poke False by (simp add: format_text_Cons)
    next
      case (Conv F w p ty c)
      note conv = convert_agrees [where sprintf = sprintf and left = "int left" and pos = "int pos",
          OF ag(1) [unfolded Conv] t [unfolded Conv]]
      have c: "c \<in> set ''dicsuxXo''" using t by (auto simp: Conv base_of_def split: if_splits)
      have dir: "snprintf_get_directive (tl (piece_text pce) @ ?f) = Some (Some (directive_of F w p ty c, ?f))"
        using ag(1) c unfolding Conv by (intro get_directive_text) simp_all
      have "format_text (pce # ps) = CHR ''%'' # tl (piece_text pce) @ ?f" by (simp add: format_text_Cons Conv)
      moreover have "hd (tl (piece_text pce) @ ?f) \<noteq> CHR ''%''"
        using ag(1) c unfolding Conv by (intro hd_conv_text) simp_all
      ultimately show ?thesis
        using conv ag(2) dir rest poke False by (simp add: Conv)
    qed
  qed
qed

lemma mysnprintf_text:
  assumes "iso_printf ps ap = Some t" "conforms (n - 1) ps ap" "0 < n" "n \<le> length blk" "n < 2 ^ 31"
    "loop_result t 0 (n - 1) blk [] = (r, b, cs)"
  shows "mysnprintf sprintf (Some blk) (word_of_nat n) (Some (format_text ps)) ap = Some (r, Some b, cs)"
proof -
  have n: "uint (word_of_nat n :: 64 word) = int n"
    using assms(5) by (simp add: unsigned_of_nat take_bit_nat_eq_self)
  then have z: "(word_of_nat n :: 64 word) \<noteq> 0" using assms(3) by auto
  have s: "sint (ucast (word_of_nat n :: 64 word) :: 32 word) = int n"
    using sint_word_of_int_32 [of "int n"] assms(5) by (simp add: unsigned_of_nat take_bit_nat_eq_self)
  have "format_loop sprintf (word_of_nat n) (format_text ps) ap (int 0) (int (n - 1)) blk [] =
    Some (loop_result t 0 (n - 1) blk [])"
    using assms n by (intro format_loop_text) auto
  then show ?thesis
    using assms(3,5,6) z by (simp add: mysnprintf_def myvsnprintf_def s of_nat_diff)
qed

text \<open>C23: For an array of \<open>n\<close> bytes or more and a format on which the two agree, the array holds the text of ISO C, cut
  to \<open>n - 1\<close> characters and terminated, the rest of it is as before, and the length is returned when it is less than
  \<open>n - 1\<close>.\<close>

theorem snprintf_is_printf:
  assumes "iso_printf ps ap = Some t" "conforms (n - 1) ps ap" "0 < n" "n \<le> length blk" "n < 2 ^ 31"
  shows "mysnprintf sprintf (Some blk) (word_of_nat n) (Some (format_text ps)) ap =
    Some (if length t < n - 1 then int (length t) else - 1,
          Some (take (n - 1) t @ [NUL] @ drop (min n (length t + 1)) blk), [])"
  using assms(3) by (intro mysnprintf_text [OF assms]) (auto simp: loop_result_def min_def)

theorem snprintf_is_printf_witness:
  "mysnprintf (\<lambda>f d. []) (Some (replicate 12 (CHR ''?''))) (word_of_nat 10) (Some ''%-5d|%s'')
     [VInt (- 42), VStr (Some (''dog'' @ [NUL]))] =
   Some (- 1, Some (''-42  |dog'' @ [NUL] @ ''??''), [])"
proof -
  let ?ps = "[Conv [MINUS_FLAG] 5 None TInt (CHR ''d''), Lit (CHR ''|''), Conv [] 0 None TInt (CHR ''s'')]"
  let ?ap = "[VInt (- 42), VStr (Some (''dog'' @ [NUL]))]"
  have t: "iso_printf ?ps ?ap = Some ''-42  |dog''" by code_simp
  have c: "conforms (10 - 1) ?ps ?ap" by code_simp
  have f: "format_text ?ps = ''%-5d|%s''" by code_simp
  have b: "take (10 - 1) ''-42  |dog'' @ [NUL] @ drop (min 10 (length ''-42  |dog'' + 1)) (replicate 12 (CHR ''?'')) =
    ''-42  |dog'' @ [NUL] @ ''??''" by code_simp
  have l: "\<not> length ''-42  |dog'' < 10 - 1" "(0::nat) < 10" "10 \<le> length (replicate 12 (CHR ''?''))" "(10::nat) < 2 ^ 31"
    by simp_all
  show ?thesis
    using snprintf_is_printf [OF t c l(2-4), of "\<lambda>f d. []"] l(1) unfolding f b by (simp only: if_False)
qed

end
