(* ===== verification/SnprintfUse.thy ===== *)
theory SnprintfUse
  imports SnprintfSpec IniFile
begin

text \<open>
  Where \<open>mysnprintf\<close> writes beyond its array or prints something else than \<open>printf\<close>, and the lines of the settings,
  which are what it prints for the formats of svcapp.cpp.
\<close>

section \<open>Beyond the end\<close>

lemma digits: "map digit [0..<10] = ''0123456789''"
  by code_simp

lemma numeral_text_dec: "numeral_text 10 ''0123456789'' n = dec n"
proof (induction n rule: dec.induct)
  case (1 n)
  have "''0123456789'' ! k = digit k" if "k < 10" for k
    using that nth_map [of k "[0..<10]" digit] digits by simp
  with 1 show ?case by (simp add: numeral_text.simps [of 10 _ n] dec.simps [of n])
qed

text \<open>Characters other than \<open>%\<close> are copied.\<close>

lemma format_loop_literal:
  assumes "CHR ''%'' \<notin> set pre" "pos + length pre + left \<le> length blk" "0 < left"
  shows "format_loop sprintf n (pre @ f) ap (int pos) (int (length pre + left)) blk counts =
    format_loop sprintf n f ap (int (pos + length pre)) (int left) (take pos blk @ pre @ drop (pos + length pre) blk) counts"
  using assms
proof (induction pre arbitrary: pos blk)
  case Nil
  then show ?case by simp
next
  case (Cons c pre)
  let ?b = "take pos blk @ [c] @ drop (pos + 1) blk"
  have poke: "poke (int pos) [c] blk = Some ?b" and c: "c \<noteq> CHR ''%''"
    using Cons.prems by (auto simp: poke_def nat_add_distrib)
  have i: "int pos + 1 = int (pos + 1)" "int (length (c # pre) + left) - 1 = int (length pre + left)"
    "0 < int (length (c # pre) + left)" by simp_all
  have "format_loop sprintf n ((c # pre) @ f) ap (int pos) (int (length (c # pre) + left)) blk counts =
    format_loop sprintf n (pre @ f) ap (int (pos + 1)) (int (length pre + left)) ?b counts"
    unfolding append_Cons format_loop.simps(2) poke bind.bind_lunit i using c i(3) by (simp only: if_False if_True)
  also have "\<dots> = format_loop sprintf n f ap (int (pos + 1 + length pre)) (int left)
      (take (pos + 1) ?b @ pre @ drop (pos + 1 + length pre) ?b) counts"
    using Cons.prems by (intro Cons.IH) auto
  finally show ?case using Cons.prems by (simp add: algebra_simps)
qed

text \<open>A number that would fit is written beyond the array when its width does not fit.\<close>

lemma fmt_d_dec: "fmt_d m = (if m < 0 then ''-'' else []) @ dec (nat \<bar>m\<bar>)"
  by (simp add: fmt_d_def fmt_d0_def)

lemma fmt_d_Nil: "0 < length (fmt_d m)"
  by (simp add: fmt_d_dec)

lemma unat_64: "k < 2 ^ 64 \<Longrightarrow> unat (word_of_nat k :: 64 word) = k"
  by (simp add: unat_of_nat)

lemma convert_d_width:
  assumes "int w < 2 ^ 31 - 100" "int (length (fmt_d (sint x))) \<le> left"
  shows "convert sprintf (directive_of [] w None TInt (CHR ''d'')) (VInt x # ap) pos left =
    Some (replicate (w - length (fmt_d (sint x))) (CHR '' '') @ fmt_d (sint x), ap, [])"
proof -
  let ?G = "if sint x < 0 then insert IS_NEGATIVE {} else ({} :: fmt_flag set)"
  have range: "sint x \<noteq> - (2 ^ 63)" "nat \<bar>sint x\<bar> < 2 ^ 64" using sint_int_range [of x] by auto
  have u: "word_of_int \<bar>sint x\<bar> = (word_of_nat (nat \<bar>sint x\<bar>) :: 64 word)"
    by (metis abs_ge_zero nat_0_le of_int_of_nat_eq)
  have n: "unat (word_of_nat (nat \<bar>sint x\<bar>) :: 64 word) = nat \<bar>sint x\<bar>"
    using unat_64 [OF range(2)] .
  have pre: "rev (number_prefix (int 10) ?G) @ replicate (nat 0 - k) c @ dec (nat \<bar>sint x\<bar>) = fmt_d (sint x)" for k c
    by (simp add: number_prefix_def fmt_d_dec)
  have "snprintf_convert_ulong left (int 10) ''0123456789'' (word_of_int \<bar>sint x\<bar>) ?G (int w) 0 =
    Some (replicate (w - length (fmt_d (sint x))) (CHR '' '') @ fmt_d (sint x))"
    using convert_ulong_exact [of 10 "''0123456789''" w 0 left "word_of_nat (nat \<bar>sint x\<bar>)" ?G] assms
    unfolding u n numeral_text_dec pre by auto
  moreover have fl: "d_flags (directive_of [] w None TInt (CHR ''d'')) = {}" by (simp add: directive_of_def)
  moreover have neg: "(if (0::int) \<le> - 1 then - 1 else 0) = (0::int)" by simp
  moreover have va: "va_signed {} (VInt x # ap) = Some (sint x, ap)" by simp
  ultimately show ?thesis
    using range(1) unfolding convert_di [of "directive_of [] w None TInt (CHR ''d'')", unfolded directive_of_sel, OF disjI1, OF refl]
      option.case neg fl va of_nat_numeral
    by (simp only: bind.bind_lunit prod.case if_False)
qed

lemma format_loop_width:
  assumes "int w < 2 ^ 31 - 100" "length (fmt_d (sint x)) \<le> left" "left < w" "length blk = pos + left + 1"
  shows "format_loop sprintf n (''%'' @ dec w @ ''d'') [VInt x] (int pos) (int left) blk counts = None"
proof -
  let ?out = "replicate (w - length (fmt_d (sint x))) (CHR '' '') @ fmt_d (sint x)"
  have w: "w \<noteq> 0" using assms(3) by simp
  have dir: "snprintf_get_directive (dec w @ ''d'') = Some (Some (directive_of [] w None TInt (CHR ''d''), []))"
    using get_directive_text [of "[]" w None "CHR ''d''" TInt "[]"] assms(1) w by simp
  have hd: "hd (dec w @ ''d'') \<noteq> CHR ''%''" using hd_dec(1) [of w] by (auto simp: isdigit_def)
  have left: "0 < left" using assms(2) fmt_d_Nil [of "sint x"] by linarith
  have conv: "convert sprintf (directive_of [] w None TInt (CHR ''d'')) [VInt x] (int pos) (int left) = Some (?out, [], [])"
    using convert_d_width assms(1,2) by simp
  have len: "length ?out = w" using assms(2,3) by simp
  have over: "finish (int pos + int w) b r counts = None" if "length b = length blk" for b r
    using that assms(3,4) by (simp add: finish_def poke_def)
  have "poke (int pos) ?out blk = Some b \<Longrightarrow>
      format_loop sprintf n [] [] (int pos + int (length ?out)) (int left - int (length ?out)) b (counts @ []) = None" for b
    using over length_poke [of "int pos" ?out blk b] unfolding len by simp
  then have "(poke (int pos) ?out blk \<bind> (\<lambda>b. format_loop sprintf n [] [] (int pos + int (length ?out))
      (int left - int (length ?out)) b (counts @ []))) = None"
    by (cases "poke (int pos) ?out blk") simp_all
  then show ?thesis using hd left dir conv by simp
qed

text \<open>C39: The width of a number is not limited by what is left of the array: where the number itself would fit and its
  width does not, \<open>mysnprintf\<close> writes beyond the array.\<close>

theorem snprintf_width_overruns:
  assumes "CHR ''%'' \<notin> set pre" "length blk = n" "length pre + length (fmt_d (sint x)) < n" "n \<le> length pre + w"
    "n < 2 ^ 31" "int w < 2 ^ 31 - 100"
  shows "mysnprintf sprintf (Some blk) (word_of_nat n) (Some (pre @ ''%'' @ dec w @ ''d'')) [VInt x] = None"
proof -
  let ?left = "n - 1 - length pre"
  have s: "sint (ucast (word_of_nat n :: 64 word) :: 32 word) = int n"
    using sint_word_of_int_32 [of "int n"] assms(5) by (simp add: unsigned_of_nat take_bit_nat_eq_self)
  have "uint (word_of_nat n :: 64 word) = int n"
    using assms(5) by (simp add: unsigned_of_nat take_bit_nat_eq_self)
  then have z: "(word_of_nat n :: 64 word) \<noteq> 0" using assms(3) by auto
  have left: "0 < ?left" "length (fmt_d (sint x)) \<le> ?left" "length pre + ?left = n - 1"
    using assms(3) fmt_d_Nil [of "sint x"] by linarith+
  have "format_loop sprintf (word_of_nat n) (pre @ ''%'' @ dec w @ ''d'') [VInt x] (int 0) (int (length pre + ?left)) blk [] =
    format_loop sprintf (word_of_nat n) (''%'' @ dec w @ ''d'') [VInt x] (int (0 + length pre)) (int ?left)
      (take 0 blk @ pre @ drop (0 + length pre) blk) []"
    using assms left by (intro format_loop_literal) auto
  also have "\<dots> = None"
    using assms left by (intro format_loop_width) auto
  finally show ?thesis
    using z assms(3,5) unfolding mysnprintf_def myvsnprintf_def s left(3) by (simp add: of_nat_diff)
qed

theorem snprintf_width_overruns_witness:
  "mysnprintf (\<lambda>f d. []) (Some (replicate 8 NUL)) (word_of_nat 8) (Some (''n='' @ ''%'' @ dec 6 @ ''d'')) [VInt 1] = None"
proof (rule snprintf_width_overruns)
  have "fmt_d (sint (1 :: 32 word)) = ''1''" by code_simp
  then show "length ''n='' + length (fmt_d (sint (1 :: 32 word))) < 8" by simp
qed simp_all

text \<open>The function's \<open>print_buf_len\<close> is a \<open>char\<close>: 128 characters of a \<open>double\<close> and more are too many.\<close>

lemma snprintf_float_overruns:
  "128 \<le> length (sprintf (float_format flags width precision c) dbl_val) \<Longrightarrow>
     snprintf_convert_float sprintf left dbl_val flags width precision c = None"
  by (simp add: snprintf_convert_float_def Let_def)

section \<open>Other texts than those of \<open>printf\<close>\<close>

text \<open>The zeros of a width come before the sign and the prefix.\<close>

lemma snprintf_zeros_before_sign:
  "mysnprintf (\<lambda>f d. []) (Some (replicate 8 NUL)) (word_of_nat 8) (Some ''%05d'') [VInt (- 42)] =
     Some (5, Some (''00-42'' @ [NUL, NUL, NUL]), [])"
  "iso_printf [Conv [ZERO_PADDING] 5 None TInt (CHR ''d'')] [VInt (- 42)] = Some ''-0042''"
  by code_simp+

text \<open>\<open>%#X\<close> has the prefix of \<open>%#x\<close>, since \<open>flags && X_UPCASE\<close> does not test the flag.\<close>

lemma snprintf_upper_prefix:
  "mysnprintf (\<lambda>f d. []) (Some (replicate 8 NUL)) (word_of_nat 8) (Some ''%#X'') [VInt 255] =
     Some (4, Some (''0xFF'' @ [NUL, NUL, NUL, NUL]), [])"
  "iso_printf [Conv [HASH_FLAG] 0 None TInt (CHR ''X'')] [VInt 255] = Some ''0XFF''"
  by code_simp+

text \<open>Without \<open>_KSKIM\<close> the precision 0 of a \<open>double\<close> counts as none.\<close>

lemma snprintf_float_precision_zero:
  "float_format flags width 0 c = float_format flags width 6 c"
  by (simp add: float_format_def)

text \<open>A width that is an argument is undefined.\<close>

lemma snprintf_star_undefined: "snprintf_get_directive (CHR ''*'' # f) = None"
  by (simp add: snprintf_get_directive_def flag_of_def get_width_def isdigit_def)

text \<open>A text that fills the array exactly is reported as cut.\<close>

lemma snprintf_exact_fit:
  "mysnprintf (\<lambda>f d. []) (Some (replicate 3 NUL)) (word_of_nat 3) (Some ''%d'') [VInt 42] = Some (- 1, Some (''42'' @ [NUL]), [])"
  by code_simp

section \<open>The lines of the settings\<close>

lemma loop_result_str:
  assumes "NUL \<notin> set t" "n \<le> length blk" "0 < n"
  obtains r b where "loop_result t 0 (n - 1) blk [] = (r, b, [])" "c_str b = Some (printed n t)"
proof -
  have "NUL \<notin> set (take (n - 1) t)" using assms(1) by (auto dest: in_set_takeD)
  then show ?thesis using that by (simp add: loop_result_def printed_def)
qed

lemma mysnprintf_printed:
  assumes "iso_printf ps ap = Some t" "conforms (n - 1) ps ap" "0 < n" "n \<le> length blk" "n < 2 ^ 31" "NUL \<notin> set t"
  shows "\<exists>r b. mysnprintf sprintf (Some blk) (word_of_nat n) (Some (format_text ps)) ap = Some (r, Some b, []) \<and>
    c_str b = Some (printed n t)"
  using loop_result_str [OF assms(6,4,3)] mysnprintf_text [OF assms(1-5)] by metis

text \<open>\<open>%s\<close>, \<open>%d\<close> and \<open>%ld\<close> without flags.\<close>

abbreviation "Str \<equiv> Conv [] 0 None TInt (CHR ''s'')"

lemma iso_str_plain: "c_str blk = Some s \<Longrightarrow> iso_piece Str (VStr (Some blk) # ap) = Some (s, ap)"
  by (simp add: iso_str_def iso_pad_def)

lemma iso_d_plain:
  "iso_piece (Conv [] 0 None TInt (CHR ''d'')) (VInt x # ap) = Some (fmt_d (sint x), ap)"
  "iso_piece (Conv [] 0 None TLong (CHR ''d'')) (VLong y # ap) = Some (fmt_d (sint y), ap)"
  by (simp_all add: iso_digits_def numeral_text_dec fmt_d_dec iso_pad_def iso_sign_def)

lemma agrees_plain: "agrees Str ap" "agrees (Conv [] 0 None TInt (CHR ''d'')) (VInt x # ap)"
  "sint y \<noteq> - (2 ^ 63) \<Longrightarrow> agrees (Conv [] 0 None TLong (CHR ''d'')) (VLong y # ap)"
  using sint_int_range [of x] by (auto simp: plain_zero_def)

lemmas plain_pieces = iso_str_plain iso_d_plain agrees_plain

text \<open>
  The formats with which svcapp.cpp writes the lines of the ini file, its comments and numbers, and the
  lines of the watch dog file. What the model of these files calls \<open>printed\<close> is what \<open>mysnprintf\<close> leaves
  in the array.
\<close>

lemma setting_line_printed:
  assumes "c_str item = Some pszItem" "c_str val = Some pszVal" "length blk = 256"
  shows "\<exists>r b. mysnprintf sprintf (Some blk) (word_of_nat 256) (Some (''%s = %s'' @ [newline]))
      [VStr (Some item), VStr (Some val)] = Some (r, Some b, []) \<and>
    c_str b = Some (ii_line (with_setting pszItem pszVal ii))"
proof -
  let ?ps = "[Str, Lit (CHR '' ''), Lit (CHR ''=''), Lit (CHR '' ''), Str, Lit newline]"
  let ?ap = "[VStr (Some item), VStr (Some val)]" and ?t = "pszItem @ '' = '' @ pszVal @ [newline]"
  have "iso_printf ?ps ?ap = Some ?t" "conforms (256 - 1) ?ps ?ap"
    by (simp_all add: plain_pieces assms(1,2) newline_def del: iso_piece.simps(3) agrees.simps(3))
  moreover have "NUL \<notin> set ?t" using assms(1,2) by (auto simp: newline_def dest: c_str_no_NUL)
  moreover have "format_text ?ps = ''%s = %s'' @ [newline]" by (simp add: format_text_def)
  ultimately show ?thesis
    using mysnprintf_printed [of ?ps ?ap ?t 256 blk sprintf] assms(3) by (simp add: with_setting_def)
qed

lemma comment_line_printed:
  assumes "c_str comment = Some (c # cs)" "length blk = 256"
  shows "\<exists>r b. mysnprintf sprintf (Some blk) (word_of_nat 256) (Some (''## %s'' @ [newline])) [VStr (Some comment)] =
      Some (r, Some b, []) \<and>
    c_str b = Some (ii_comment (with_comment (Some (c # cs)) ii))"
proof -
  let ?ps = "[Lit (CHR ''#''), Lit (CHR ''#''), Lit (CHR '' ''), Str, Lit newline]"
  let ?ap = "[VStr (Some comment)]" and ?t = "''## '' @ (c # cs) @ [newline]"
  have "iso_printf ?ps ?ap = Some ?t" "conforms (256 - 1) ?ps ?ap"
    by (simp_all add: plain_pieces assms(1) newline_def del: iso_piece.simps(3) agrees.simps(3))
  moreover have "NUL \<notin> set ?t" using c_str_no_NUL [OF assms(1)] by (auto simp: newline_def)
  moreover have "format_text ?ps = ''## %s'' @ [newline]" by (simp add: format_text_def)
  ultimately show ?thesis
    using mysnprintf_printed [of ?ps ?ap ?t 256 blk sprintf] assms(2) by (simp add: with_comment_def)
qed

lemma NUL_fmt_d: "NUL \<notin> set (fmt_d m)"
  using dec_isdigit [of NUL "nat \<bar>m\<bar>"] by (auto simp: fmt_d_dec isdigit_def)

lemma number_printed:
  assumes "length blk = 256"
  shows "\<exists>r b. mysnprintf sprintf (Some blk) (word_of_nat 256) (Some ''%d'') [VInt x] = Some (r, Some b, []) \<and>
    c_str b = Some (printed 256 (fmt_d (sint x)))"
proof -
  let ?ps = "[Conv [] 0 None TInt (CHR ''d'')]"
  have "iso_printf ?ps [VInt x] = Some (fmt_d (sint x))" "conforms (256 - 1) ?ps [VInt x]"
    by (simp_all add: plain_pieces del: iso_piece.simps(3) agrees.simps(3))
  moreover have "format_text ?ps = ''%d''" by (simp add: format_text_def)
  ultimately show ?thesis
    using mysnprintf_printed [of ?ps "[VInt x]" "fmt_d (sint x)" 256 blk sprintf] NUL_fmt_d [of "sint x"] assms by simp
qed

lemma watchdog_line_printed:
  assumes "c_str title = Some pszTitle" "sint ttime \<noteq> - (2 ^ 63)" "length blk = 256"
  shows "\<exists>r b. mysnprintf sprintf (Some blk) (word_of_nat 255) (Some (''%s %ld'' @ [newline]))
      [VStr (Some title), VLong ttime] = Some (r, Some b, []) \<and>
    c_str b = Some (printed 255 (pszTitle @ '' '' @ fmt_d (sint ttime) @ [newline]))"
proof -
  let ?ps = "[Str, Lit (CHR '' ''), Conv [] 0 None TLong (CHR ''d''), Lit newline]"
  let ?ap = "[VStr (Some title), VLong ttime]" and ?t = "pszTitle @ '' '' @ fmt_d (sint ttime) @ [newline]"
  have "iso_printf ?ps ?ap = Some ?t" "conforms (255 - 1) ?ps ?ap"
    using assms(2) by (simp_all add: plain_pieces assms(1) newline_def del: iso_piece.simps(3) agrees.simps(3))
  moreover have "NUL \<notin> set ?t" using c_str_no_NUL [OF assms(1)] NUL_fmt_d by (auto simp: newline_def)
  moreover have "format_text ?ps = ''%s %ld'' @ [newline]" by (simp add: format_text_def)
  ultimately show ?thesis
    using mysnprintf_printed [of ?ps ?ap ?t 255 blk sprintf] assms(3) by simp
qed

end
