(* ===== verification/SvcFilesSpec.thy ===== *)
theory SvcFilesSpec
  imports SvcFiles SnprintfUse
begin

text \<open>
  The log keeps everything that was written except whole older files, and stays small; what \<open>LogFile\<close> writes for
  a format; the names a service derives from its program, which coincide when it is too long.
\<close>

section \<open>The log\<close>

text \<open>Calls on which nothing fails.\<close>

definition works :: "nat \<Rightarrow> log_env \<times> string \<Rightarrow> bool" where
  "works L c \<longleftrightarrow> (case c of (e, buf) \<Rightarrow>
     le_stat e \<and> le_unlink e \<and> le_rename e \<and> 0 < le_fd e \<and> length (le_time e) = 25 \<and>
     25 \<le> le_write1 e \<and> length buf \<le> le_write2 e \<and> length buf \<le> L)"

definition log_line :: "log_env \<times> string \<Rightarrow> string" where
  "log_line c = butlast (le_time (fst c)) @ '' '' @ snd c"

fun log_all :: "string \<Rightarrow> (log_env \<times> string) list \<Rightarrow> files \<Rightarrow> files option" where
  "log_all pFile [] fs = Some fs"
| "log_all pFile (c # cs) fs =
     (case LogTo (fst c) pFile (snd c) fs of
        None \<Rightarrow> None
      | Some (fs, left_open) \<Rightarrow> if left_open then None else log_all pFile cs fs)"

definition file_content :: "files \<Rightarrow> string \<Rightarrow> string" where
  "file_content fs f = (case fs f of None \<Rightarrow> [] | Some s \<Rightarrow> s)"

text \<open>\<open>written\<close> was written so far: what is not in the two files is older, and gone only when the older file is full.\<close>

definition log_inv :: "nat \<Rightarrow> string \<Rightarrow> string \<Rightarrow> files \<Rightarrow> bool" where
  "log_inv L pFile written fs \<longleftrightarrow>
     (\<exists>old. written = old @ file_content fs (pFile @ ''.1'') @ file_content fs pFile \<and>
        (old \<noteq> [] \<longrightarrow> 5000000 \<le> length (file_content fs (pFile @ ''.1'')))) \<and>
     length (file_content fs (pFile @ ''.1'')) < 5000025 + L \<and> length (file_content fs pFile) < 5000025 + L"

lemma log_step:
  assumes "works L c" "length pFile \<le> 252" "log_inv L pFile written fs"
  shows "\<exists>fs1. LogTo (fst c) pFile (snd c) fs = Some (fs1, False) \<and> log_inv L pFile (written @ log_line c) fs1 \<and>
    (\<forall>g. g \<noteq> pFile \<and> g \<noteq> pFile @ ''.1'' \<longrightarrow> fs1 g = fs g)"
proof -
  obtain e buf where c: "c = (e, buf)" by fastforce
  let ?b = "pFile @ ''.1''" and ?fs = "rotate_log e pFile fs"
  define fs1 where "fs1 = ?fs(pFile := Some (file_content ?fs pFile @ log_line c))"
  have b: "printed 255 ?b = ?b" "?b \<noteq> pFile" using assms(2) by (simp_all add: printed_def)
  have w: "le_stat e" "le_unlink e" "le_rename e" "0 < le_fd e" "length (le_time e) = 25" "25 \<le> le_write1 e"
    "length buf \<le> le_write2 e" "length buf \<le> L"
    using assms(1) by (simp_all add: works_def c)
  have len: "length (log_line c) \<le> 25 + L" using w(5,8) by (simp add: log_line_def c)
  have "le_time e \<noteq> []" using w(5) by auto
  then have log: "LogTo e pFile buf fs = Some (fs1, False)"
    using w by (simp add: LogTo_def fs1_def log_line_def c file_content_def Let_def split: option.splits)
  have rot: "?fs = (if 5000000 \<le> length (file_content fs pFile) then fs(pFile := None, ?b := fs pFile) else fs)"
    using w(1-3) b by (cases "fs pFile") (auto simp: rotate_log_def file_content_def Let_def)
  have frame: "fs1 g = fs g" if "g \<noteq> pFile" "g \<noteq> ?b" for g using that by (simp add: fs1_def rot)
  obtain old where old: "written = old @ file_content fs ?b @ file_content fs pFile" "old \<noteq> [] \<longrightarrow> 5000000 \<le> length (file_content fs ?b)"
    and small: "length (file_content fs ?b) < 5000025 + L" "length (file_content fs pFile) < 5000025 + L"
    using assms(3) by (auto simp: log_inv_def)
  have "log_inv L pFile (written @ log_line c) fs1"
  proof (cases "5000000 \<le> length (file_content fs pFile)")
    case True
    then have f: "file_content fs1 ?b = file_content fs pFile" "file_content fs1 pFile = log_line c"
      using b(2) by (simp_all add: fs1_def rot file_content_def)
    show ?thesis
      unfolding log_inv_def f using old(1) small(2) True len
      by (intro conjI exI [of _ "old @ file_content fs ?b"]) simp_all
  next
    case False
    then have f: "file_content fs1 ?b = file_content fs ?b"
      "file_content fs1 pFile = file_content fs pFile @ log_line c"
      using b(2) by (simp_all add: fs1_def rot file_content_def)
    show ?thesis
      unfolding log_inv_def f using old small(1) False len by (intro conjI exI [of _ old]) simp_all
  qed
  with log frame show ?thesis unfolding c by auto
qed

lemma log_all_inv:
  assumes "\<forall>c\<in>set cs. works L c" "length pFile \<le> 252" "log_inv L pFile written fs"
  shows "\<exists>fs1. log_all pFile cs fs = Some fs1 \<and> log_inv L pFile (written @ concat (map log_line cs)) fs1 \<and>
    (\<forall>g. g \<noteq> pFile \<and> g \<noteq> pFile @ ''.1'' \<longrightarrow> fs1 g = fs g)"
  using assms(1,3)
proof (induction cs arbitrary: written fs)
  case Nil
  then show ?case by simp
next
  case (Cons c cs)
  obtain fs1 where 1: "LogTo (fst c) pFile (snd c) fs = Some (fs1, False)" "log_inv L pFile (written @ log_line c) fs1"
    "\<forall>g. g \<noteq> pFile \<and> g \<noteq> pFile @ ''.1'' \<longrightarrow> fs1 g = fs g"
    using log_step [OF _ assms(2) Cons.prems(2), of c] Cons.prems(1) by auto
  obtain fs2 where "log_all pFile cs fs1 = Some fs2"
    "log_inv L pFile ((written @ log_line c) @ concat (map log_line cs)) fs2"
    "\<forall>g. g \<noteq> pFile \<and> g \<noteq> pFile @ ''.1'' \<longrightarrow> fs2 g = fs1 g"
    using Cons.IH [OF _ 1(2)] Cons.prems(1) by auto
  with 1 show ?case by auto
qed



text \<open>Descriptor 0: nothing is written and the descriptor stays open.\<close>

lemma log_descriptor_zero:
  "le_fd e = 0 \<Longrightarrow> fs pFile = None \<Longrightarrow> LogTo e pFile buf fs = Some (fs(pFile := Some []), True)"
  by (simp add: LogTo_def rotate_log_def)

text \<open>The limit is a constant: what \<open>SetLogSize\<close> sets is not used, so that a log is renamed however high it was set.\<close>

lemma log_size_not_used:
  assumes "le_stat e" "le_unlink e" "le_rename e" "length pFile \<le> 252" "fs pFile = Some f" "5000000 \<le> length f"
  shows "rotate_log e pFile fs pFile = None" "rotate_log e pFile fs (pFile @ ''.1'') = Some f"
proof -
  have "printed 255 (pFile @ ''.1'') = pFile @ ''.1''" using assms(4) by (simp add: printed_def)
  then show "rotate_log e pFile fs pFile = None" "rotate_log e pFile fs (pFile @ ''.1'') = Some f"
    using assms by (simp_all add: rotate_log_def Let_def)
qed

text \<open>With a name of 254 characters the log and its backup are one file, and the log is deleted.\<close>

lemma log_long_name_deleted:
  assumes "le_stat e" "le_unlink e" "length pFile = 254" "fs pFile = Some f" "5000000 \<le> length f"
  shows "rotate_log e pFile fs = fs(pFile := None)"
proof -
  have "printed 255 (pFile @ ''.1'') = pFile" using assms(3) by (simp add: printed_def)
  then show ?thesis using assms by (simp add: rotate_log_def Let_def)
qed

text \<open>\<open>LogFile\<close>: the text of ISO C, cut to 1022 characters.\<close>

lemma LogFile_text:
  assumes "iso_printf ps ap = Some t" "conforms 1022 ps ap" "NUL \<notin> set t"
  shows "LogFile sprintf e pFile (format_text ps) ap fs = LogTo e pFile (take 1022 t) fs"
proof -
  obtain r b where "mysnprintf sprintf (Some (replicate 1024 NUL)) (word_of_nat 1023) (Some (format_text ps)) ap =
      Some (r, Some b, [])" "c_str b = Some (printed 1023 t)"
    using mysnprintf_printed [of ps ap t 1023 "replicate 1024 NUL" sprintf] assms by auto
  then show ?thesis by (simp add: LogFile_def printed_def)
qed

section \<open>Names\<close>

lemma after_last_append: "c \<notin> set s \<Longrightarrow> after_last c (p @ c # s) = s"
  unfolding after_last_def by (simp, subst takeWhile_append2) auto

lemma before_last_append: "c \<notin> set s \<Longrightarrow> before_last c (p @ c # s) = p"
  unfolding before_last_def by (simp, subst dropWhile_append2) auto

lemma c_str_short: "NUL \<notin> set s \<Longrightarrow> length s < n \<Longrightarrow> c_str (strncpy_block n s) = Some s"
  by (cases "n - length s") (auto simp: strncpy_block_def)

text \<open>The names of a program \<open>dir/name.ext\<close>.\<close>

lemma program_names:
  assumes "NUL \<notin> set name" "NUL \<notin> set ext" "CHR ''/'' \<notin> set name" "CHR ''/'' \<notin> set ext" "CHR ''.'' \<notin> set ext"
    "length name \<le> 119" "length name + length ext < 127" "length dir + length name + length ext < 254"
  shows "\<exists>n. GetProgramProperty (dir @ ''/'' @ name @ ''.'' @ ext) path env True = Some (Some n) \<and>
    m_szProgFileName n = name @ ''.'' @ ext \<and> m_szProgramName n = name \<and>
    m_szIniName n = name @ ''.ini'' \<and> m_szLogName n = name @ ''.log'' \<and> m_szWatchDogFile n = name @ ''.dog'' \<and>
    m_szPid n = name @ ''.pid'' \<and> m_szUpgrade n = name @ ''.upgrade'' \<and> m_szUpgradeNew n = name @ ''.new''"
proof -
  have 1: "after_last (CHR ''/'') (dir @ ''/'' @ name @ ''.'' @ ext) = name @ ''.'' @ ext"
    using after_last_append [of "CHR ''/''" "name @ ''.'' @ ext" dir] assms(3,4) by simp
  have 2: "c_str (strncpy_block 128 (name @ ''.'' @ ext)) = Some (name @ ''.'' @ ext)"
    using assms(1,2,7) by (intro c_str_short) auto
  have 3: "before_last (CHR ''.'') (name @ ''.'' @ ext) = name"
    using before_last_append [OF assms(5), of name] by simp
  show ?thesis
    using assms(6,8) by (simp add: GetProgramProperty_def 1 [simplified] 2 [simplified] 3 [simplified] printed_def)
qed

text \<open>A program name of 127 characters: all the files have the name of the program.\<close>

lemma long_program_name:
  assumes "NUL \<notin> set name" "CHR ''/'' \<notin> set name" "CHR ''.'' \<notin> set name" "length name = 127"
  shows "\<exists>n. GetProgramProperty name path env True = Some (Some n) \<and>
    m_szIniName n = name \<and> m_szLogName n = name \<and> m_szWatchDogFile n = name \<and> m_szPid n = name \<and> m_szUpgrade n = name"
proof -
  have *: "takeWhile (\<lambda>x. x \<noteq> CHR ''/'') (rev name) = rev name" using assms(2) by (auto simp: takeWhile_eq_all_conv)
  have "after_last (CHR ''/'') name = name" unfolding after_last_def * by simp
  moreover have "before_last (CHR ''.'') name = name" using assms(3) by (simp add: before_last_def)
  moreover have "c_str (strncpy_block 128 name) = Some name" using assms(1,4) by (intro c_str_short) auto
  ultimately show ?thesis using assms(4) by (simp add: GetProgramProperty_def printed_def)
qed

text \<open>An error of \<open>stat\<close> other than \<open>ENOENT\<close>: the mode of an unfilled structure is looked at.\<close>

lemma SetProgramPath_stat_error:
  "de_stat d = StatError \<Longrightarrow> SetProgramPath d n old = None"
  by (cases "c_str (m_szEnvPath n)") (simp_all add: SetProgramPath_def check_dir_def)

end
