(* ===== verification/Spec2Isabelle.thy ===== *)
theory Spec2Isabelle
  imports PacketSpec PacketCodes AliveSpec MonitorSpec AliveOldSpec AQueueSpec HttpSpec ServiceSpec InetSockSpec IniSpec PacketType UrlSpec WatchDogSpec Daemon CalcDef SvcFilesSpec
begin

text \<open>
  The inno client is a daemon on a virtual machine. \<open>main\<close> reads its configuration, closes the
  standard streams, opens its log directory, asks the metadata service of the cloud who the machine is and
  starts three threads: the alive thread sends the manager a request over a connection of its own
  whenever one is due, the report thread sends values to a local monitor over a standing connection, the
  clean thread deletes old logs. The repository also holds the main program and the HTTP handlers of
  the management service, the former alive thread, and the library the service is built on.

  \<^bold>\<open>Theories.\<close> \<open>C_Prelude\<close>, \<open>C_Text\<close>: bytes, words, bounded \<open>int\<close>, blocks of memory, C strings, printing and scanning.
  \<open>C_Transfer\<close>: the two loops that move bytes through a socket, with the locales \<open>byte_source\<close> and \<open>byte_sink\<close>
  for what they need of a single call. \<open>OS_World\<close>: system calls over an arbitrary environment; it interprets
  both locales. Then, for each part of the program, first the theory that translates it and then those with
  its lemmas and properties.

    \<^item> Packet.cpp, Packet.h, packet_common.h: \<open>Packet\<close>, \<open>PacketCodes\<close>; \<open>PacketWrite\<close>, \<open>PacketRead\<close> (each \<open>Write\<close> and
      \<open>Read\<close> against the abstract list of bytes, locales \<open>field_writer\<close>, \<open>field_reader\<close>), \<open>PacketWire\<close> (frames),
      \<open>PacketMessage\<close> (locale \<open>message_codec\<close>), \<open>PacketType\<close> (well-formedness), \<open>PacketSpec\<close>.
    \<^item> main_alive.cpp: \<open>Alive\<close>; \<open>AliveConnect\<close>, \<open>AliveRequest\<close>, \<open>AliveCommands\<close>, \<open>AliveSpec\<close>. The version it
      replaced, bak/main_alive.cpp: \<open>AliveOld\<close>; \<open>AliveOldSpec\<close>.
    \<^item> PerfInfo.cpp, main_report.cpp, main_clean.cpp: \<open>PerfInfo\<close>; \<open>PerfReport\<close>, \<open>PerfThread\<close>, \<open>MonitorSpec\<close>.
      What the peer of both makes of the requests: \<open>RequestDecode\<close>.
    \<^item> MiscUtil.cpp (logs), RestClient.cpp (HTTP through curl), JsonParser.cpp (JSON through jsoncpp):
      \<open>MiscUtil\<close>, \<open>RestClient\<close>, \<open>JsonParser\<close>; \<open>MonitorSpec\<close>.
    \<^item> main.cpp: \<open>ConfFile\<close>, \<open>MainProg\<close>; \<open>StartUp\<close>. All its threads together: \<open>Daemon\<close>, and this theory.
    \<^item> inc/aqueue.h, test/INNOLIB/src/aqueue.cpp: \<open>AQueue\<close>, \<open>AQueueThreads\<close> (its lock, as a step relation); \<open>AQueueRing\<close>,
      \<open>AQueueFifo\<close> (locale \<open>lossy_queue\<close>), \<open>AQueueTx\<close>, \<open>AQueueSpec\<close>.
    \<^item> inc/http/http_service.cpp: \<open>HttpService\<close>; \<open>HttpSpec\<close>. inc/http/mainapp.cpp: \<open>ServiceMain\<close>; \<open>ServiceSpec\<close>.
      Of test/INNOLIB/src/svcapp.cpp the ini file and the watch dog file: \<open>IniFile\<close>; \<open>IniSpec\<close>; the log, the names
      and the directory: \<open>SvcFiles\<close>; \<open>SvcFilesSpec\<close>; the watch dog process: \<open>WatchDog\<close> (a step relation beside its
      environment); \<open>WatchDogSpec\<close>.
    \<^item> inc/inetsock.h, test/INNOLIB/src/inetsock.cpp: \<open>InetSock\<close>; \<open>InetSockMsg\<close>, \<open>InetSockSpec\<close>.
    \<^item> test/INNOLIB/src/urlutil.cpp: \<open>UrlUtil\<close>; \<open>UrlSpec\<close>. test/INNOLIB/src/mycalc.cpp: \<open>Calculator\<close>; \<open>CalcSpec\<close>
      (values), \<open>CalcDef\<close> (where it is defined). test/INNOLIB/src/snprintf.cpp: \<open>Snprintf\<close>; \<open>SnprintfSpec\<close> (against
      ISO C), \<open>SnprintfUse\<close> (where they differ, and the lines of the settings).

  \<open>Sample\<close> holds a concrete machine for the instances of the properties.

  \<^bold>\<open>State.\<close> Objects and static members are records with the names of the source (\<open>cpacket\<close>, \<open>perfinfo\<close>,
  \<open>inet_sock\<close>, \<open>aqueue\<close>); what the system calls change is the record \<open>world\<close>: descriptors with the bytes still
  to come, log files, and the trace of effects. The record \<open>env\<close> answers each call as a function of the
  number of calls made so far. It is never restricted except by named hypotheses of a property, so
  that a property without them covers short reads and writes, time-outs, refused connections and dead peers.
  A definition yields \<open>None\<close> exactly where the C++ code has undefined behaviour or an uncaught exception:
  that it yields \<open>Some\<close> is therefore a statement of safety. What fails in a defined way is a value.

  \<^bold>\<open>What is shown.\<close> Messages: what is written is read back, over any segmentation of the stream, and what each
  side does with a stream or a network that misbehaves (packet and socket protocols); a packet object is well
  formed after any sequence of operations. Commands and reports:
  for every network they return, close what they open and send a prefix of one request, all of it when they
  report success, and that request is understood by a receiver as what it was meant to say. The threads:
  every schedule of their rounds is safe, with periodic counters and one standing connection at most. The
  queue refines an abstract one that drops its oldest item; its lock excludes with one producer, or without
  transactions. The watch dog never has more than one child and restarts it when told. Requests to the
  service reach it whole. Configuration files are read back; the ini file refines a map; the log of a
  service stays small and keeps the end of what was written; URLs are decoded to what was encoded; the
  calculator gives an expression its value, and is defined on every text without certain pitfalls; the library's \<open>snprintf\<close> prints what ISO C says, cut to the array, on the formats
  where it agrees with ISO C. Further properties state where the code goes wrong: buffers and widths without
  limits, descriptor 0 taken for no connection, descriptors left open, fields that lose their sign, headers
  that can be forged, commands lost in the second of the start.

  \<^bold>\<open>Bounds.\<close> Loops over data recurse on it. The transfer loops recurse on the bytes still missing, which fall
  with each turn. The loops of a hundred attempts count down. The endless loops of the threads are sequences
  of \<open>n\<close> rounds, for every \<open>n\<close>, or lists of turns; the calculator and \<open>snprintf\<close> recurse on the text that is left;
  no definition runs on fuel, except the reading of a queue until it is empty, whose property says how
  much is enough. A packet may have up to \<open>2 ^ 30\<close> bytes, beyond which the doubling of its buffer leaves
  \<open>int\<close> (\<open>CheckDataBuffer_limit\<close>); a socket message at most \<open>TCPSOCK_LIMITBUF\<close>.

  \<^bold>\<open>Not modelled.\<close> The rounds of the threads are interleaved (\<open>Daemon\<close>), the system calls within a round are
  not; only the lock of the queue and the watch dog have finer steps. Allocating memory is taken to succeed.
  Libraries whose code is not in the repository (curl, jsoncpp, libmicrohttpd, the classes \<open>CCloudMSApi\<close>,
  \<open>CDatabase\<close>, \<open>CCommonThread\<close>) are parameters, and so are the arithmetic of \<open>double\<close> and what the commands of
  \<open>CSvcApp\<close> do. Of \<open>InetSocket\<close> the calls that connect, resolve names or do not block are left out, of \<open>CSvcApp\<close>
  becoming a daemon and its signal handlers. The rest of the library under test/INNOLIB (ICMP, TLS, process
  and script tools, wrappers of files and threads, printing of sizes) is used by no program of the repository, and
  the remaining files outside of it are headers of other libraries, or declarations.
\<close>

section \<open>The program comes up and reports\<close>


text \<open>With a readable configuration file and a log directory the program comes up: \<open>main\<close> reaches
  its idle loop with the configured values, the monitor connection is not mistaken for no
  connection, and when the metadata service identifies the machine the alive thread then runs for
  any number of rounds without undefined behaviour, without gaining or losing a descriptor other
  than 0, with its two counters periodic. The report thread as well runs for any number of rounds,
  whatever becomes of its connection: it owns one descriptor at most, the one in \<open>m_hSock\<close>, and what
  it has to report is always the server index and 0, since nothing ever counts a connection.\<close>

theorem startup_reports:
  assumes "read_conf 0 content globals_static = Some g" "startup_ok e J g" "open_fds w \<subseteq> {0, 1, 2}"
    and "e_opendir e (tick (close_std e w)) = Some ds" "names_fit (WMI_MANAGER_LOG_PATH g) ds"
    and "identified e J" "sane_peers e" "ifs_ok e"
  shows "\<exists>p c w1. main_start e J (Some content) w = Some (Running (g, p, c), w1) \<and>
    ip c = WMI_MANAGER_IP g \<and> port c = WMI_MANAGER_PORT g \<and> m_hSock p \<noteq> 0 \<and>
    (\<forall>n. \<exists>s w2. alive_process_thread n e c w1 = Some (s, w2) \<and>
       AList.delete 0 (fds w2) = AList.delete 0 (fds w1) \<and>
       refresh s = n mod (REFRESH_INTERVAL + 1) \<and> metareport s = n mod (METADATA_INTERVAL + 1)) \<and>
    (\<forall>n. \<exists>q w2. report_perf_thread n e p w1 = Some (q, w2) \<and>
       open_fds w2 \<subseteq> {0, m_hSock q} \<and> 0 \<in> open_fds w2 \<and>
       perf_args q = [AInt (SERVER_INDEX g), AInt 0])"
proof -
  from main_start_directory [OF assms(1-5)] assms(6) obtain p c w1 where
    m: "main_start e J (Some content) w = Some (Running (g, p, c), w1)" "m_hSock p \<noteq> 0"
       "monitor_state [(0, \<lparr>up = False, rx = []\<rparr>)] p w1" "m_connectioncnt p = 0"
       "m_serveridx p = SERVER_INDEX g"
       "m_strLogPath w1 = WMI_MANAGER_LOG_PATH g" "ip c = WMI_MANAGER_IP g" "port c = WMI_MANAGER_PORT g"
       "conninfo_ok c" by blast
  have "machine_ok e c" using m(9) assms(2,7,8) by (simp add: machine_ok_def startup_ok_def)
  moreover have log: "log_ok e w1" using m(6) assms(2) by (simp add: log_ok_def startup_ok_def)
  moreover have "\<exists>q w2. report_perf_thread n e p w1 = Some (q, w2) \<and>
       open_fds w2 \<subseteq> {0, m_hSock q} \<and> 0 \<in> open_fds w2 \<and>
       perf_args q = [AInt (SERVER_INDEX g), AInt 0]" for n
    using report_perf_thread_spec [OF m(3) log _ m(4), of n] assms(2) m(5) monitor_state_owns
    by (fastforce simp: startup_ok_def)
  ultimately show ?thesis using m alive_thread_spec by blast
qed

lemma sample_answer [simp]:
  "answer sample_env t u = ''10.0.0.7''" "answer bare_env t u = ''10.0.0.7''"
  by (simp_all add: answer_def sample_run_def)

lemma sample_doc: "doc_fits sample_json ''10.0.0.7''" "doc_complete sample_json ''10.0.0.7''"
  by (simp_all add: doc_fits_def doc_complete_def meta_ok_def has_key_def doc_root_def upto_NUL_def
      sample_json_def)

definition sample_conf :: string where
  "sample_conf = conf_text sample_globals ['' server'', [], '' port'', [], [], []]"

definition std_world :: world where
  "std_world = sample_world\<lparr>fds := [(0, \<lparr>up = False, rx = []\<rparr>), (1, \<lparr>up = False, rx = []\<rparr>),
     (2, \<lparr>up = False, rx = []\<rparr>)]\<rparr>"

lemma sample_conf_read: "read_conf 0 sample_conf globals_static = Some sample_globals"
  unfolding sample_conf_def by (rule read_conf_text [OF sample_conf_ok]) (simp_all add: remark_ok_def newline_def)

lemma std_fds: "open_fds std_world \<subseteq> {0, 1, 2}"
  by (simp add: std_world_def keys_def)

lemma sample_scan: "scan_into 32 (WMI_MANAGER_IP sample_globals) [] \<noteq> None"
proof -
  have "scan_into 32 ''13.125.108.50'' [] = Some ''13.125.108.50''" by code_simp
  then show ?thesis by (simp add: sample_globals_def)
qed

lemma sample_startup_ok: "startup_ok sample_env sample_json sample_globals"
  "startup_ok bare_env sample_json sample_globals"
  using sample_scan sample_doc(1)
  by (simp_all add: startup_ok_def sample_globals_def clean_peers_def reply_clean web_ok_def curl_ok_def
      sample_run_def)

lemma sample_identified: "identified sample_env sample_json"
  using sample_doc(2) by (simp add: identified_def)


theorem startup_reports_witness:
  "\<exists>g p c w1 s w2 q w3. main_start sample_env sample_json (Some sample_conf) std_world = Some (Running (g, p, c), w1) \<and>
     alive_process_thread 61 sample_env c w1 = Some (s, w2) \<and> refresh s = 61 \<and> metareport s = 0 \<and>
     report_perf_thread 5 sample_env p w1 = Some (q, w3) \<and> perf_args q = [AInt 1, AInt 0]"
proof -
  have "names_fit (WMI_MANAGER_LOG_PATH sample_globals) sample_dir"
    by (simp add: names_fit_def sample_dir_def sample_globals_def)
  moreover have "identified sample_env sample_json"
    using sample_doc(2) by (simp add: identified_def)
  ultimately obtain p c w1 where m:
    "main_start sample_env sample_json (Some sample_conf) std_world = Some (Running (sample_globals, p, c), w1)"
    "\<forall>n. \<exists>s w2. alive_process_thread n sample_env c w1 = Some (s, w2) \<and>
       AList.delete 0 (fds w2) = AList.delete 0 (fds w1) \<and>
       refresh s = n mod (REFRESH_INTERVAL + 1) \<and> metareport s = n mod (METADATA_INTERVAL + 1)"
    "\<forall>n. \<exists>q w2. report_perf_thread n sample_env p w1 = Some (q, w2) \<and>
       open_fds w2 \<subseteq> {0, m_hSock q} \<and> 0 \<in> open_fds w2 \<and>
       perf_args q = [AInt (SERVER_INDEX sample_globals), AInt 0]"
    using startup_reports [OF sample_conf_read sample_startup_ok(1) std_fds, of sample_dir]
    by (auto 0 3)
  from m(2) obtain s w2 where "alive_process_thread 61 sample_env c w1 = Some (s, w2)" "refresh s = 61"
    "metareport s = 0"
    by (auto simp: REFRESH_INTERVAL_def METADATA_INTERVAL_def dest: spec [of _ 61])
  moreover from m(3) obtain q w3 where "report_perf_thread 5 sample_env p w1 = Some (q, w3)"
    "perf_args q = [AInt (SERVER_INDEX sample_globals), AInt 0]" by blast
  ultimately show ?thesis using m(1) by (auto simp: sample_globals_def)
qed

text \<open>C31: Without a log directory the monitor connection is made on descriptor 0, the number that stands
  for "not connected": the program comes up with \<open>m_hSock\<close> 0 while descriptor 0 is open.\<close>

theorem startup_without_directory:
  assumes "read_conf 0 content globals_static = Some g" "startup_ok e J g" "open_fds w \<subseteq> {0, 1, 2}"
    and "e_opendir e (tick (close_std e w)) = None" "friendly e 0"
  shows "\<exists>p c w1. main_start e J (Some content) w = Some (Running (g, p, c), w1) \<and>
    0 \<in> open_fds w1 \<and> m_hSock p = 0"
  using main_start_no_directory [OF assms] .

theorem startup_without_directory_witness:
  "\<exists>g p c w1. main_start bare_env sample_json (Some sample_conf) std_world = Some (Running (g, p, c), w1) \<and>
     0 \<in> open_fds w1 \<and> m_hSock p = 0"
proof -
  have "friendly bare_env 0" by (simp add: friendly_def)
  with startup_without_directory [OF sample_conf_read sample_startup_ok(2) std_fds] show ?thesis by auto
qed

end
